(* ===== verification/Prelude.thy ===== *)
theory Prelude
  imports Main "HOL-Library.Word"
begin

text \<open>
  Shared vocabulary of the development: machine integers and byte strings as Go has them,
  big-endian readers and writers (the package encoding/binary), the functions of the Go
  packages strings and strconv that cobweb calls, and lists used as tables keyed by a
  field, with the interface \<open>keyed_store\<close> that the configuration store provides.

  A Go \<open>string\<close> is a sequence of bytes, and so is the HOL type \<^typ>\<open>string\<close> (a
  \<^typ>\<open>char\<close> is eight bits wide), so string models are exact at the byte level.
  The exception is \<open>to_lower\<close>, which maps ASCII letters only.
\<close>

unbundle bit_operations_syntax

named_theorems go_eval \<open>unfolding rules that evaluate a closed term of the model\<close>
named_theorems cfg_simps \<open>what a configuration operation does to each field\<close>

type_synonym byte = "8 word"
type_synonym u16 = "16 word"
type_synonym u32 = "32 word"
type_synonym u64 = "64 word"

section \<open>Bytes and big-endian integers\<close>

text \<open>\<open>binary.BigEndian.Uint16\<close> and \<open>Uint32\<close> read the first bytes of a slice; on a
  shorter slice Go panics, which is \<^const>\<open>None\<close>.\<close>

fun be_uint16 :: "byte list \<Rightarrow> u16 option" where
  "be_uint16 (a # b # _) = Some (push_bit 8 (ucast a) OR ucast b)"
| "be_uint16 _ = None"

fun be_uint32 :: "byte list \<Rightarrow> u32 option" where
  "be_uint32 (a # b # c # d # _) =
     Some (push_bit 24 (ucast a) OR push_bit 16 (ucast b) OR push_bit 8 (ucast c) OR ucast d)"
| "be_uint32 _ = None"

definition be_bytes16 :: "u16 \<Rightarrow> byte list" where
  "be_bytes16 v = [ucast (drop_bit 8 v), ucast v]"

definition be_bytes32 :: "u32 \<Rightarrow> byte list" where
  "be_bytes32 v = [ucast (drop_bit 24 v), ucast (drop_bit 16 v), ucast (drop_bit 8 v), ucast v]"

lemma length_be_bytes16 [simp]: "length (be_bytes16 v) = 2"
  by (simp add: be_bytes16_def)

lemma length_be_bytes32 [simp]: "length (be_bytes32 v) = 4"
  by (simp add: be_bytes32_def)

lemma be_uint16_bytes [simp]: "be_uint16 (be_bytes16 v @ r) = Some v"
proof -
  have "push_bit 8 (ucast (ucast (drop_bit 8 v) :: byte)) OR ucast (ucast v :: byte) = v"
    by (rule bit_word_eqI) (auto simp: bit_simps not_less)
  then show ?thesis by (simp add: be_bytes16_def)
qed

lemma be_uint32_bytes [simp]: "be_uint32 (be_bytes32 v @ r) = Some v"
proof -
  have "push_bit 24 (ucast (ucast (drop_bit 24 v) :: byte)) OR
        push_bit 16 (ucast (ucast (drop_bit 16 v) :: byte)) OR
        push_bit 8 (ucast (ucast (drop_bit 8 v) :: byte)) OR ucast (ucast v :: byte) = v"
    (is "?l = v")
  proof (rule bit_word_eqI)
    fix n assume "n < LENGTH(32)"
    then consider "n < 8" | "8 \<le> n" "n < 16" | "16 \<le> n" "n < 24" | "24 \<le> n" "n < 32"
      by fastforce
    then show "bit ?l n \<longleftrightarrow> bit v n"
      by cases (auto simp: bit_simps)
  qed
  then show ?thesis by (simp add: be_bytes32_def)
qed

lemma be_bytes32_uint32:
  assumes "be_uint32 [a, b, c, d] = Some v"
  shows "be_bytes32 v = [a, b, c, d]"
proof -
  have v: "v = push_bit 24 (ucast a) OR push_bit 16 (ucast b) OR push_bit 8 (ucast c) OR ucast d"
    using assms by simp
  have "ucast (drop_bit 24 v) = a" "ucast (drop_bit 16 v) = b"
    "ucast (drop_bit 8 v) = c" "ucast v = d"
    unfolding v by (rule bit_word_eqI, auto simp: bit_simps dest: bit_imp_le_length)+
  then show ?thesis by (simp add: be_bytes32_def)
qed

lemma be_uint32_len4:
  assumes "length b = 4"
  obtains v where "be_uint32 b = Some v" "b = be_bytes32 v"
proof -
  from assms obtain w x y z where b: "b = [w, x, y, z]"
    by (auto simp: numeral_eq_Suc length_Suc_conv)
  obtain v where v: "be_uint32 [w, x, y, z] = Some v" by simp
  show ?thesis
    by (rule that [of v]) (simp_all only: b v be_bytes32_uint32 [OF v])
qed

lemma be_uint32_None: "be_uint32 b = None \<longleftrightarrow> length b < 4"
  by (cases b rule: be_uint32.cases) auto

lemma be_uint16_None: "be_uint16 b = None \<longleftrightarrow> length b < 2"
  by (cases b rule: be_uint16.cases) auto

text \<open>Bytes and characters: \<open>string(b)\<close> and \<open>[]byte(s)\<close> of Go.\<close>

definition str_of_bytes :: "byte list \<Rightarrow> string" where
  "str_of_bytes b = map (\<lambda>w. char_of (unat w)) b"

definition bytes_of_str :: "string \<Rightarrow> byte list" where
  "bytes_of_str s = map of_char s"

lemma length_str_of_bytes [simp]: "length (str_of_bytes b) = length b"
  by (simp add: str_of_bytes_def)

lemma length_bytes_of_str [simp]: "length (bytes_of_str s) = length s"
  by (simp add: bytes_of_str_def)

lemma unat_of_char [simp]: "unat (of_char c :: byte) = of_char c"
proof -
  have "unat (of_nat (of_char c) :: byte) = of_char c mod 2 ^ LENGTH(8)"
    by (rule unat_of_nat)
  then show ?thesis by (simp add: of_nat_of_char)
qed

lemma str_of_bytes_of_str [simp]: "str_of_bytes (bytes_of_str s) = s"
  by (simp add: str_of_bytes_def bytes_of_str_def comp_def)

lemma of_char_unat_byte [simp]: "of_char (char_of (unat w)) = (w :: byte)"
proof -
  have "of_char (char_of (unat w)) = (of_nat (of_char (char_of (unat w))) :: byte)"
    by (simp only: of_nat_of_char)
  also have "\<dots> = of_nat (unat w mod 256)" by simp
  also have "\<dots> = w" using unsigned_less [of w, where ?'a = nat] by simp
  finally show ?thesis .
qed

lemma bytes_of_str_of_bytes [simp]: "bytes_of_str (str_of_bytes b) = b"
  by (simp add: str_of_bytes_def bytes_of_str_def comp_def)

lemma str_of_bytes_append [simp]: "str_of_bytes (a @ b) = str_of_bytes a @ str_of_bytes b"
  by (simp add: str_of_bytes_def)

lemma bytes_of_str_append [simp]: "bytes_of_str (a @ b) = bytes_of_str a @ bytes_of_str b"
  by (simp add: bytes_of_str_def)

section \<open>Lists used as tables\<close>

text \<open>
  cobweb keeps its tables as slices and looks entries up by a key field: the first entry
  with the key counts, an update replaces it in place or appends, a removal filters.
\<close>

definition find_by :: "('a \<Rightarrow> 'k) \<Rightarrow> 'k \<Rightarrow> 'a list \<Rightarrow> 'a option" where
  "find_by key k xs = find (\<lambda>x. key x = k) xs"

fun upsert_by :: "('a \<Rightarrow> 'k) \<Rightarrow> 'a \<Rightarrow> 'a list \<Rightarrow> 'a list" where
  "upsert_by key v [] = [v]"
| "upsert_by key v (x # xs) = (if key x = key v then v # xs else x # upsert_by key v xs)"

definition remove_by :: "('a \<Rightarrow> 'k) \<Rightarrow> 'k \<Rightarrow> 'a list \<Rightarrow> 'a list" where
  "remove_by key k xs = filter (\<lambda>x. key x \<noteq> k) xs"

text \<open>Replace the first entry with key \<open>k\<close> by \<open>f\<close> of it; \<^const>\<open>None\<close> if there is none.\<close>

fun update_by :: "('a \<Rightarrow> 'k) \<Rightarrow> 'k \<Rightarrow> ('a \<Rightarrow> 'a) \<Rightarrow> 'a list \<Rightarrow> 'a list option" where
  "update_by key k f [] = None"
| "update_by key k f (x # xs) =
     (if key x = k then Some (f x # xs) else map_option (Cons x) (update_by key k f xs))"

lemma find_by_Nil [simp]: "find_by key k [] = None"
  by (simp add: find_by_def)

lemma find_by_Cons [simp]:
  "find_by key k (x # xs) = (if key x = k then Some x else find_by key k xs)"
  by (simp add: find_by_def)

lemma find_by_key: "find_by key k xs = Some v \<Longrightarrow> key v = k"
  by (induction xs) (auto split: if_splits)

lemma find_by_in: "find_by key k xs = Some v \<Longrightarrow> v \<in> set xs"
  by (induction xs) (auto split: if_splits)

lemma find_by_None: "find_by key k xs = None \<longleftrightarrow> k \<notin> key ` set xs"
  by (induction xs) auto

lemma find_by_upsert [simp]:
  "find_by key k (upsert_by key v xs) = (if k = key v then Some v else find_by key k xs)"
  by (induction xs) auto

lemma find_by_remove [simp]:
  "find_by key k (remove_by key k' xs) = (if k = k' then None else find_by key k xs)"
  by (induction xs) (auto simp: remove_by_def)

lemma keys_upsert: "key ` set (upsert_by key v xs) = insert (key v) (key ` set xs)"
  by (induction xs) auto

lemma set_upsert: "set (upsert_by key v xs) \<subseteq> insert v (set xs)"
  by (induction xs) auto

lemma distinct_upsert [intro]:
  "distinct (map key xs) \<Longrightarrow> distinct (map key (upsert_by key v xs))"
  by (induction xs) (auto simp: keys_upsert [unfolded image_set] image_set [symmetric] keys_upsert)

lemma set_remove_by: "set (remove_by key k xs) = {x \<in> set xs. key x \<noteq> k}"
  by (auto simp: remove_by_def)

lemma set_upsert_distinct:
  "distinct (map key xs) \<Longrightarrow> set (upsert_by key v xs) = insert v {x \<in> set xs. key x \<noteq> key v}"
  by (induction xs) (auto simp: image_iff)

lemma distinct_remove [intro]:
  "distinct (map key xs) \<Longrightarrow> distinct (map key (remove_by key k xs))"
  by (simp add: remove_by_def distinct_map_filter)

lemma find_by_distinct:
  "distinct (map key xs) \<Longrightarrow> find_by key (key v) xs = Some v \<longleftrightarrow> v \<in> set xs"
  by (induction xs) (auto simp: image_iff)

lemma update_by_None: "update_by key k f xs = None \<longleftrightarrow> find_by key k xs = None"
  by (induction xs) auto

lemma find_by_update:
  "update_by key k f xs = Some ys \<Longrightarrow> (\<And>x. key (f x) = key x) \<Longrightarrow>
   find_by key j ys = (if j = k then map_option f (find_by key k xs) else find_by key j xs)"
  by (induction xs arbitrary: ys) (auto split: if_splits)

section \<open>The interface of a table\<close>

text \<open>
  What cobweb's callers rely on when they use a table of the configuration: a lookup after
  an update or a removal. \<open>entries\<close> is what the dashboard lists.
\<close>

locale keyed_store =
  fixes get :: "'s \<Rightarrow> 'k \<Rightarrow> 'v option"
    and put :: "'v \<Rightarrow> 's \<Rightarrow> 's"
    and del :: "'k \<Rightarrow> 's \<Rightarrow> 's"
    and entries :: "'s \<Rightarrow> 'v list"
    and key :: "'v \<Rightarrow> 'k"
  assumes get_entries: "get s k = find_by key k (entries s)"
    and get_put: "get (put v s) k = (if k = key v then Some v else get s k)"
    and get_del: "get (del k' s) k = (if k = k' then None else get s k)"
    and distinct_put: "distinct (map key (entries s)) \<Longrightarrow> distinct (map key (entries (put v s)))"
    and distinct_del: "distinct (map key (entries s)) \<Longrightarrow> distinct (map key (entries (del k s)))"
begin

text \<open>A command is a stored value (\<open>Inl\<close>) or a removed key (\<open>Inr\<close>).\<close>

definition exec :: "'v + 'k \<Rightarrow> 's \<Rightarrow> 's" where
  "exec c s = (case c of Inl v \<Rightarrow> put v s | Inr k \<Rightarrow> del k s)"

definition map_exec :: "'v + 'k \<Rightarrow> ('k \<rightharpoonup> 'v) \<Rightarrow> ('k \<rightharpoonup> 'v)" where
  "map_exec c m = (case c of Inl v \<Rightarrow> m(key v \<mapsto> v) | Inr k \<Rightarrow> m(k := None))"

lemma exec_refines: "get (exec c s) = map_exec c (get s)"
  by (rule ext) (auto simp: exec_def map_exec_def get_put get_del split: sum.splits)

lemma fold_exec_refines: "get (fold exec cs s) = fold map_exec cs (get s)"
  by (induction cs arbitrary: s) (simp_all add: exec_refines)

lemma fold_exec_distinct:
  "distinct (map key (entries s)) \<Longrightarrow> distinct (map key (entries (fold exec cs s)))"
  by (induction cs arbitrary: s)
     (auto simp: exec_def intro: distinct_put distinct_del split: sum.splits)

lemma entries_get:
  "distinct (map key (entries s)) \<Longrightarrow> v \<in> set (entries s) \<longleftrightarrow> get s (key v) = Some v"
  by (simp add: get_entries find_by_distinct)

lemma entries_put:
  assumes "distinct (map key (entries s))"
  shows "v' \<in> set (entries (put v s)) \<longleftrightarrow> v' = v \<or> v' \<in> set (entries s) \<and> key v' \<noteq> key v"
  using assms by (auto simp: entries_get distinct_put get_put split: if_splits)

lemma del_put_get: "get (del (key v) (put v s)) = (get s)(key v := None)"
  by (rule ext) (simp add: get_put get_del)

end

section \<open>Reading and writing inside a buffer\<close>

text \<open>\<open>BigEndian.Uint16(b[i:i+2])\<close> and \<open>Uint32(b[i:i+4])\<close>, used where the code has checked
  that the slice is in range.\<close>

definition u16_at :: "byte list \<Rightarrow> nat \<Rightarrow> u16" where
  "u16_at b i = (case be_uint16 (drop i b) of Some v \<Rightarrow> v | None \<Rightarrow> 0)"

definition u32_at :: "byte list \<Rightarrow> nat \<Rightarrow> u32" where
  "u32_at b i = (case be_uint32 (drop i b) of Some v \<Rightarrow> v | None \<Rightarrow> 0)"

lemma u16_at_append [simp]: "length p = i \<Longrightarrow> u16_at (p @ be_bytes16 v @ r) i = v"
  by (simp add: u16_at_def)

lemma u32_at_append [simp]: "length p = i \<Longrightarrow> u32_at (p @ be_bytes32 v @ r) i = v"
  by (simp add: u32_at_def)

text \<open>Go's \<open>copy(buf[i:j], src)\<close> copies as many bytes as both sides have.\<close>

definition copy_into :: "nat \<Rightarrow> nat \<Rightarrow> 'a list \<Rightarrow> 'a list \<Rightarrow> 'a list" where
  "copy_into i j src buf = take i buf @ take (j - i) src @ drop (i + min (j - i) (length src)) buf"

lemma length_copy_into [simp]:
  "i \<le> j \<Longrightarrow> j \<le> length buf \<Longrightarrow> length (copy_into i j src buf) = length buf"
  by (simp add: copy_into_def)

lemma copy_into_append:
  assumes "length p = i" "j = i + length src" "length src \<le> n"
  shows "copy_into i j src (p @ replicate n x) = p @ src @ replicate (n - length src) x"
  using assms by (simp add: copy_into_def drop_replicate)

section \<open>The interface of an address book\<close>

text \<open>
  What the address allocator relies on: \<open>in_use\<close> tells whether somebody else holds an
  address, and granting an address adds at most that holder. Granting only addresses that
  are not in use keeps every address with one holder.
\<close>

locale address_book =
  fixes holders :: "'s \<Rightarrow> ('m \<times> 'i) set"
    and in_use :: "'i \<Rightarrow> 'm \<Rightarrow> 's \<Rightarrow> bool"
    and grant :: "'g \<Rightarrow> 's \<Rightarrow> 's"
    and who :: "'g \<Rightarrow> 'm"
    and what :: "'g \<Rightarrow> 'i"
  assumes in_use_iff: "in_use i m s \<longleftrightarrow> (\<exists>m'. m' \<noteq> m \<and> (m', i) \<in> holders s)"
    and grant_holders: "holders (grant g s) \<subseteq> insert (who g, what g) (holders s)"
begin

definition exclusive :: "'s \<Rightarrow> bool" where
  "exclusive s \<longleftrightarrow> (\<forall>m m' i. (m, i) \<in> holders s \<longrightarrow> (m', i) \<in> holders s \<longrightarrow> m = m')"

lemma holder_not_in_use: "exclusive s \<Longrightarrow> (m, i) \<in> holders s \<Longrightarrow> \<not> in_use i m s"
  by (auto simp: exclusive_def in_use_iff)

lemma exclusive_subset: "exclusive s \<Longrightarrow> holders t \<subseteq> holders s \<Longrightarrow> exclusive t"
  unfolding exclusive_def by blast

lemma grant_exclusive:
  assumes "exclusive s" "\<not> in_use (what g) (who g) s"
  shows "exclusive (grant g s)"
  unfolding exclusive_def
proof (intro allI impI)
  fix m m' i
  assume "(m, i) \<in> holders (grant g s)" "(m', i) \<in> holders (grant g s)"
  then have "(m, i) = (who g, what g) \<or> (m, i) \<in> holders s"
    "(m', i) = (who g, what g) \<or> (m', i) \<in> holders s"
    by (auto dest: subsetD [OF grant_holders])
  moreover have "m = who g" if "(m, what g) \<in> holders s" for m
    using assms(2) that by (auto simp: in_use_iff)
  moreover have "m = m'" if "(m, i) \<in> holders s" "(m', i) \<in> holders s"
    using assms(1) that by (auto simp: exclusive_def)
  ultimately show "m = m'" by auto
qed

end

end
