(* ===== verification/Go_Strings.thy ===== *)
theory Go_Strings
  imports Prelude "HOL-Library.Sublist"
begin

text \<open>
  The functions of the Go packages strings, strconv and fmt that cobweb calls, at the byte
  level. \<open>trim_space\<close> knows every white-space rune of Unicode by its UTF-8 encoding, as
  \<open>strings.TrimSpace\<close> does; \<open>to_lower\<close> maps ASCII letters and leaves bytes from
  0x80 on alone (the Unicode case tables are not modelled).
\<close>

section \<open>Prefixes and suffixes\<close>

text \<open>\<open>strings.HasPrefix s p\<close> is \<^term>\<open>prefix p s\<close>, \<open>HasSuffix s p\<close> is \<^term>\<open>suffix p s\<close>.\<close>

definition trim_prefix :: "'a list \<Rightarrow> 'a list \<Rightarrow> 'a list" where
  "trim_prefix s p = (if prefix p s then drop (length p) s else s)"

definition trim_suffix :: "'a list \<Rightarrow> 'a list \<Rightarrow> 'a list" where
  "trim_suffix s p = (if suffix p s then take (length s - length p) s else s)"

lemma trim_prefix_append [simp]: "trim_prefix (p @ s) p = s"
  by (simp add: trim_prefix_def)

lemma trim_suffix_append [simp]: "trim_suffix (s @ p) p = s"
  by (simp add: trim_suffix_def suffix_def)

lemma trim_suffix_self: "\<not> suffix p s \<Longrightarrow> trim_suffix s p = s"
  by (simp add: trim_suffix_def)

lemma set_trim_suffix: "set (trim_suffix s p) \<subseteq> set s"
  by (simp add: trim_suffix_def set_take_subset)

section \<open>White space\<close>

definition ascii_space :: "char \<Rightarrow> bool" where
  "ascii_space c \<longleftrightarrow> (of_char c :: nat) \<in> {9, 10, 11, 12, 13, 32}"

text \<open>The UTF-8 encodings of the runes for which \<open>unicode.IsSpace\<close> holds.\<close>

definition go_spaces :: "string list" where
  "go_spaces = map (map char_of)
    ([[9], [10], [11], [12], [13], [32],
      [0xC2, 0x85], [0xC2, 0xA0], [0xE1, 0x9A, 0x80],
      [0xE2, 0x80, 0x80], [0xE2, 0x80, 0x81], [0xE2, 0x80, 0x82], [0xE2, 0x80, 0x83],
      [0xE2, 0x80, 0x84], [0xE2, 0x80, 0x85], [0xE2, 0x80, 0x86], [0xE2, 0x80, 0x87],
      [0xE2, 0x80, 0x88], [0xE2, 0x80, 0x89], [0xE2, 0x80, 0x8A],
      [0xE2, 0x80, 0xA8], [0xE2, 0x80, 0xA9], [0xE2, 0x80, 0xAF], [0xE2, 0x81, 0x9F],
      [0xE3, 0x80, 0x80]] :: nat list list)"

lemma go_spaces_code [code]:
  "go_spaces =
    [[CHR 0x09], [CHR 0x0A], [CHR 0x0B], [CHR 0x0C],
     [CHR 0x0D], [CHR 0x20], [CHR 0xC2, CHR 0x85], [CHR 0xC2, CHR 0xA0],
     [CHR 0xE1, CHR 0x9A, CHR 0x80], [CHR 0xE2, CHR 0x80, CHR 0x80], [CHR 0xE2, CHR 0x80, CHR 0x81], [CHR 0xE2, CHR 0x80, CHR 0x82],
     [CHR 0xE2, CHR 0x80, CHR 0x83], [CHR 0xE2, CHR 0x80, CHR 0x84], [CHR 0xE2, CHR 0x80, CHR 0x85], [CHR 0xE2, CHR 0x80, CHR 0x86],
     [CHR 0xE2, CHR 0x80, CHR 0x87], [CHR 0xE2, CHR 0x80, CHR 0x88], [CHR 0xE2, CHR 0x80, CHR 0x89], [CHR 0xE2, CHR 0x80, CHR 0x8A],
     [CHR 0xE2, CHR 0x80, CHR 0xA8], [CHR 0xE2, CHR 0x80, CHR 0xA9], [CHR 0xE2, CHR 0x80, CHR 0xAF], [CHR 0xE2, CHR 0x81, CHR 0x9F],
     [CHR 0xE3, CHR 0x80, CHR 0x80]]"
  by code_simp

fun strip_front :: "'a list list \<Rightarrow> nat \<Rightarrow> 'a list \<Rightarrow> 'a list" where
  "strip_front ps 0 s = s"
| "strip_front ps (Suc n) s =
     (case find (\<lambda>p. prefix p s) ps of None \<Rightarrow> s
      | Some p \<Rightarrow> strip_front ps n (drop (length p) s))"

text \<open>Each round removes at least one byte, so \<open>length s\<close> rounds are enough.\<close>

definition trim_left :: "string \<Rightarrow> string" where
  "trim_left s = strip_front go_spaces (length s) s"

definition trim_right :: "string \<Rightarrow> string" where
  "trim_right s = rev (strip_front (map rev go_spaces) (length s) (rev s))"

definition trim_space :: "string \<Rightarrow> string" where
  "trim_space s = trim_right (trim_left s)"

lemma go_spaces_nonempty: "[] \<notin> set go_spaces" "[] \<notin> set (map rev go_spaces)"
  by (simp_all add: go_spaces_def)

lemma suffix_strip_front: "suffix (strip_front ps n s) s"
proof (induction ps n s rule: strip_front.induct)
  case (2 ps n s)
  then show ?case
    by (auto split: option.split intro: suffix_order.trans suffix_drop)
qed simp

lemma strip_front_done:
  "[] \<notin> set ps \<Longrightarrow> length s \<le> n \<Longrightarrow> p \<in> set ps \<Longrightarrow> \<not> prefix p (strip_front ps n s)"
proof (induction ps n s rule: strip_front.induct)
  case (1 ps s)
  then show ?case by auto
next
  case (2 ps n s)
  show ?case
  proof (cases "find (\<lambda>p. prefix p s) ps")
    case None
    then have "strip_front ps (Suc n) s = s" by simp
    with None "2.prems"(3) show ?thesis by (auto simp: find_None_iff)
  next
    case (Some q)
    then have "q \<in> set ps" "prefix q s" by (auto simp: find_Some_iff)
    with "2.prems"(1) have "q \<noteq> []" by auto
    with "2.prems"(2) have "length (drop (length q) s) \<le> n" by (cases q) auto
    with Some 2 show ?thesis by simp
  qed
qed

lemma strip_front_id:
  "(\<And>p. p \<in> set ps \<Longrightarrow> \<not> prefix p s) \<Longrightarrow> strip_front ps n s = s"
  by (cases n) (auto split: option.split simp: find_Some_iff)

lemma set_trim_space: "set (trim_space s) \<subseteq> set s"
proof -
  have "set (trim_right t) \<subseteq> set t" for t
    using set_mono_suffix [OF suffix_strip_front [of _ _ "rev t"]] by (simp add: trim_right_def)
  moreover have "set (trim_left s) \<subseteq> set s"
    using set_mono_suffix [OF suffix_strip_front [of _ _ s]] by (simp add: trim_left_def)
  ultimately show ?thesis unfolding trim_space_def by blast
qed

text \<open>A string whose first and last bytes are ASCII and no white space is left alone.\<close>

definition plain_char :: "char \<Rightarrow> bool" where
  "plain_char c \<longleftrightarrow> (of_char c :: nat) < 128 \<and> \<not> ascii_space c"

lemma go_spaces_not_plain:
  assumes "p \<in> set go_spaces" shows "\<not> plain_char (hd p)" "\<not> plain_char (last p)"
  using assms by (auto simp: go_spaces_def plain_char_def ascii_space_def)

lemma trim_space_plain:
  assumes "s = [] \<or> plain_char (hd s) \<and> plain_char (last s)"
  shows "trim_space s = s"
proof -
  have ne: "p \<noteq> []" if "p \<in> set go_spaces" for p
    using that go_spaces_nonempty(1) by auto
  have front: "\<not> prefix p s" if "p \<in> set go_spaces" for p
    using assms go_spaces_not_plain [OF that] ne [OF that]
    by (cases p; cases s) auto
  have rear: "\<not> prefix (rev p) (rev s)" if "p \<in> set go_spaces" for p
    using assms go_spaces_not_plain [OF that] ne [OF that]
    by (cases p rule: rev_cases; cases s rule: rev_cases) auto
  have "trim_left s = s"
    unfolding trim_left_def using front by (rule strip_front_id)
  moreover have "strip_front (map rev go_spaces) n (rev s) = rev s" for n
    by (rule strip_front_id) (use rear in auto)
  ultimately show ?thesis by (simp add: trim_space_def trim_right_def)
qed

lemma trim_space_code [code]:
  "trim_space s = (if s = [] \<or> plain_char (hd s) \<and> plain_char (last s) then s
     else trim_right (trim_left s))"
  using trim_space_plain [of s] by (simp add: trim_space_def)

section \<open>Case, cutting, splitting, joining\<close>

definition to_lower_char :: "char \<Rightarrow> char" where
  "to_lower_char c =
     (let n = of_char c :: nat in if 65 \<le> n \<and> n \<le> 90 then char_of (n + 32) else c)"

definition to_lower :: "string \<Rightarrow> string" where
  "to_lower s = map to_lower_char s"

lemma length_to_lower [simp]: "length (to_lower s) = length s"
  by (simp add: to_lower_def)

lemma to_lower_char_idem [simp]: "to_lower_char (to_lower_char c) = to_lower_char c"
  by (simp add: to_lower_char_def Let_def)

lemma to_lower_idem [simp]: "to_lower (to_lower s) = to_lower s"
  by (simp add: to_lower_def)

lemma to_lower_append [simp]: "to_lower (s @ t) = to_lower s @ to_lower t"
  by (simp add: to_lower_def)

text \<open>\<open>strings.Cut\<close>, \<open>strings.Split\<close> with a one-byte separator, and \<open>strings.Join\<close>.\<close>

definition cut :: "'a \<Rightarrow> 'a list \<Rightarrow> 'a list \<times> 'a list \<times> bool" where
  "cut d s = (case dropWhile (\<lambda>c. c \<noteq> d) s of
       [] \<Rightarrow> (s, [], False)
     | _ # r \<Rightarrow> (takeWhile (\<lambda>c. c \<noteq> d) s, r, True))"

fun split_on :: "'a \<Rightarrow> 'a list \<Rightarrow> 'a list list" where
  "split_on d [] = [[]]"
| "split_on d (c # cs) =
     (if c = d then [] # split_on d cs
      else (case split_on d cs of [] \<Rightarrow> [[c]] | x # xs \<Rightarrow> (c # x) # xs))"

fun join :: "'a list \<Rightarrow> 'a list list \<Rightarrow> 'a list" where
  "join sep [] = []"
| "join sep [x] = x"
| "join sep (x # y # r) = x @ sep @ join sep (y # r)"

lemma split_on_nonempty [simp]: "split_on d s \<noteq> []"
  by (cases s) (auto split: list.split)

lemma join_split_on: "join [d] (split_on d s) = s"
proof (induction s)
  case (Cons c s)
  then show ?case
    by (cases "split_on d s"; cases "tl (split_on d s)") auto
qed simp

lemma split_on_no_sep: "d \<notin> set x \<Longrightarrow> split_on d x = [x]"
  by (induction x) auto

lemma split_on_append_sep:
  "d \<notin> set x \<Longrightarrow> split_on d (x @ d # s) = x # split_on d s"
  by (induction x) auto

lemma split_on_join:
  "xs \<noteq> [] \<Longrightarrow> \<forall>x \<in> set xs. d \<notin> set x \<Longrightarrow> split_on d (join [d] xs) = xs"
  by (induction "[d]" xs rule: join.induct) (auto simp: split_on_no_sep split_on_append_sep)

lemma split_on_no_sep_in: "x \<in> set (split_on d s) \<Longrightarrow> d \<notin> set x"
  by (induction s arbitrary: x) (auto split: list.splits if_splits)

lemma cut_append_sep: "d \<notin> set x \<Longrightarrow> cut d (x @ d # s) = (x, s, True)"
proof -
  assume "d \<notin> set x"
  then have "dropWhile (\<lambda>c. c \<noteq> d) (x @ d # s) = d # s"
    and "takeWhile (\<lambda>c. c \<noteq> d) (x @ d # s) = x"
    by (induction x) auto
  then show ?thesis by (simp add: cut_def)
qed

lemma cut_no_sep: "d \<notin> set s \<Longrightarrow> cut d s = (s, [], False)"
proof -
  assume "d \<notin> set s"
  then have "dropWhile (\<lambda>c. c \<noteq> d) s = []" by (induction s) auto
  then show ?thesis unfolding cut_def by (simp only: list.case)
qed

section \<open>Decimal numbers\<close>

definition digit_char :: "nat \<Rightarrow> char" where
  "digit_char d = char_of (48 + d)"

definition is_digit :: "char \<Rightarrow> bool" where
  "is_digit c \<longleftrightarrow> 48 \<le> (of_char c :: nat) \<and> (of_char c :: nat) \<le> 57"

definition digit_val :: "char \<Rightarrow> nat" where
  "digit_val c = of_char c - 48"

fun itoa :: "nat \<Rightarrow> string" where
  "itoa n = (if n < 10 then [digit_char n] else itoa (n div 10) @ [digit_char (n mod 10)])"

declare itoa.simps [simp del]

definition dec_value :: "string \<Rightarrow> nat" where
  "dec_value s = foldl (\<lambda>n c. 10 * n + digit_val c) 0 s"

lemma digit_char_digit [simp]: "d < 10 \<Longrightarrow> is_digit (digit_char d)"
  by (simp add: digit_char_def is_digit_def)

lemma digit_val_char [simp]: "d < 10 \<Longrightarrow> digit_val (digit_char d) = d"
  by (simp add: digit_char_def digit_val_def)

lemma digit_char_val: "is_digit c \<Longrightarrow> digit_char (digit_val c) = c"
  by (simp add: digit_char_def digit_val_def is_digit_def)

lemma digit_val_less [simp]: "is_digit c \<Longrightarrow> digit_val c < 10"
  unfolding digit_val_def is_digit_def by linarith

lemma itoa_nonempty [simp]: "itoa n \<noteq> []"
  by (subst itoa.simps) simp

lemma itoa_digits: "\<forall>c \<in> set (itoa n). is_digit c"
proof (induction n rule: itoa.induct)
  case (1 n)
  then show ?case by (subst itoa.simps) auto
qed

lemma dec_value_snoc [simp]: "dec_value (s @ [c]) = 10 * dec_value s + digit_val c"
  by (simp add: dec_value_def)

lemma dec_value_Nil [simp]: "dec_value [] = 0"
  by (simp add: dec_value_def)

lemma dec_value_itoa [simp]: "dec_value (itoa n) = n"
proof (induction n rule: itoa.induct)
  case (1 n)
  show ?case
  proof (cases "n < 10")
    case True
    then show ?thesis using dec_value_snoc [of "[]" "digit_char n"] by (subst itoa.simps) simp
  next
    case False
    with 1 show ?thesis by (subst itoa.simps) simp
  qed
qed

lemma itoa_inj [simp]: "itoa m = itoa n \<longleftrightarrow> m = n"
  by (metis dec_value_itoa)

lemma digit_lits:
  "digit_val CHR ''0'' = 0" "is_digit CHR ''0''"
  "digit_val CHR ''1'' = 1" "is_digit CHR ''1''"
  "digit_val CHR ''2'' = 2" "is_digit CHR ''2''"
  "digit_val CHR ''3'' = 3" "is_digit CHR ''3''"
  "digit_val CHR ''4'' = 4" "is_digit CHR ''4''"
  "digit_val CHR ''5'' = 5" "is_digit CHR ''5''"
  "digit_val CHR ''6'' = 6" "is_digit CHR ''6''"
  "digit_val CHR ''7'' = 7" "is_digit CHR ''7''"
  "digit_val CHR ''8'' = 8" "is_digit CHR ''8''"
  "digit_val CHR ''9'' = 9" "is_digit CHR ''9''"
  by code_simp+

end
