(* ===== verification/Go_Net.thy ===== *)
theory Go_Net
  imports Go_Strings
begin

text \<open>
  The part of the Go package net that cobweb relies on: a \<open>net.IP\<close> is a slice of bytes
  (nil is the empty list, an IPv4 address has 4 or 16 bytes), with \<open>To4\<close>, \<open>Equal\<close>,
  \<open>Mask\<close>, \<open>String\<close>, \<open>ParseIP\<close> (dotted IPv4 and all of IPv6), \<open>ParseCIDR\<close> and
  \<open>IPNet.String\<close>, and \<open>HardwareAddr.String\<close>. The main result is the round trip
  \<open>to4_parse_ip_string\<close>: parsing a printed IPv4 address gives the address back.
\<close>

section \<open>Addresses\<close>

type_synonym ip = "byte list"

definition v4_in_v6_prefix :: "byte list" where
  "v4_in_v6_prefix = replicate 10 0 @ [255, 255]"

definition to4 :: "ip \<Rightarrow> ip" where
  "to4 b = (if length b = 4 then b
            else if length b = 16 \<and> take 12 b = v4_in_v6_prefix then drop 12 b else [])"

definition ip_equal :: "ip \<Rightarrow> ip \<Rightarrow> bool" where
  "ip_equal a b =
     (if length a = length b then a = b
      else if length a = 4 \<and> length b = 16 then take 12 b = v4_in_v6_prefix \<and> drop 12 b = a
      else if length a = 16 \<and> length b = 4 then take 12 a = v4_in_v6_prefix \<and> drop 12 a = b
      else False)"

definition ip_mask :: "ip \<Rightarrow> byte list \<Rightarrow> ip" where
  "ip_mask b m =
     (let m = (if length m = 16 \<and> length b = 4 \<and> take 12 m = replicate 12 255
               then drop 12 m else m);
          b = (if length m = 4 \<and> length b = 16 \<and> take 12 b = v4_in_v6_prefix
               then drop 12 b else b)
      in if length b \<noteq> length m then [] else map2 (AND) b m)"

lemma length_to4: "to4 b \<noteq> [] \<Longrightarrow> length (to4 b) = 4"
  by (auto simp: to4_def split: if_splits)

lemma to4_4 [simp]: "length b = 4 \<Longrightarrow> to4 b = b"
  by (simp add: to4_def)

lemma to4_idem [simp]: "to4 (to4 b) = to4 b"
  by (cases "to4 b = []") (simp_all add: length_to4, simp add: to4_def)

lemma to4_mapped [simp]: "length b = 4 \<Longrightarrow> to4 (v4_in_v6_prefix @ b) = b"
  by (simp add: to4_def v4_in_v6_prefix_def)

lemma ip_equal_refl [simp]: "ip_equal a a"
  by (simp add: ip_equal_def)

lemma ip_equal_sym: "ip_equal a b = ip_equal b a"
  by (auto simp: ip_equal_def)

lemma ip_equal_to4: "to4 a \<noteq> [] \<Longrightarrow> ip_equal a b \<longleftrightarrow> to4 a = to4 b"
  by (auto simp: ip_equal_def to4_def append_eq_conv_conj [symmetric] split: if_splits)
     (metis append_take_drop_id)

section \<open>Printing\<close>

definition dotted :: "byte list \<Rightarrow> string" where
  "dotted b = join ''.'' (map (\<lambda>w. itoa (unat w)) b)"

definition hex_digit :: "nat \<Rightarrow> char" where
  "hex_digit d = (if d < 10 then char_of (48 + d) else char_of (87 + d))"

fun hex_nat :: "nat \<Rightarrow> string" where
  "hex_nat n = (if n < 16 then [hex_digit n] else hex_nat (n div 16) @ [hex_digit (n mod 16)])"

declare hex_nat.simps [simp del]

definition hex_byte :: "byte \<Rightarrow> string" where
  "hex_byte w = [hex_digit (unat w div 16), hex_digit (unat w mod 16)]"

fun groups16 :: "byte list \<Rightarrow> nat list" where
  "groups16 (a # b # r) = (256 * unat a + unat b) # groups16 r"
| "groups16 _ = []"

text \<open>The first longest run of at least two zero groups, 255 for none.\<close>

definition zero_run :: "nat list \<Rightarrow> nat \<times> nat" where
  "zero_run gs = foldl (\<lambda>(s, e) i.
       let l = length (takeWhile (\<lambda>g. g = 0) (drop i gs))
       in if 2 \<le> l \<and> e - s < l then (i, i + l) else (s, e)) (255, 255) [0..<length gs]"

definition ip6_string :: "byte list \<Rightarrow> string" where
  "ip6_string b =
     (let gs = groups16 b; (s, e) = zero_run gs
      in if s = 255 then join '':'' (map hex_nat gs)
         else join '':'' (map hex_nat (take s gs)) @ ''::'' @ join '':'' (map hex_nat (drop e gs)))"

definition ip_string :: "ip \<Rightarrow> string" where
  "ip_string b =
     (if b = [] then ''<nil>''
      else if length b \<noteq> 4 \<and> length b \<noteq> 16 then ''?'' @ concat (map hex_byte b)
      else if to4 b \<noteq> [] then dotted (to4 b) else ip6_string b)"

text \<open>\<open>HardwareAddr.String\<close>: lower-case hexadecimal pairs joined by colons.\<close>

definition mac_string :: "byte list \<Rightarrow> string" where
  "mac_string b = join '':'' (map hex_byte b)"

section \<open>Parsing\<close>

text \<open>
  \<open>netip.parseIPv4Fields\<close>: \<open>v\<close> is the octet being read, \<open>n\<close> its number of digits,
  \<open>fs\<close> the octets already read.
\<close>

fun parse_v4 :: "string \<Rightarrow> nat \<Rightarrow> nat \<Rightarrow> byte list \<Rightarrow> byte list option" where
  "parse_v4 [] v n fs = (if length fs < 3 then None else Some (fs @ [of_nat v]))"
| "parse_v4 (c # cs) v n fs =
     (if is_digit c then
        (if n = 1 \<and> v = 0 then None
         else if 255 < 10 * v + digit_val c then None
         else parse_v4 cs (10 * v + digit_val c) (Suc n) fs)
      else if c = CHR ''.'' then
        (if n = 0 \<or> cs = [] \<or> length fs = 3 then None else parse_v4 cs 0 0 (fs @ [of_nat v]))
      else None)"

definition hex_val :: "char \<Rightarrow> nat option" where
  "hex_val c =
     (let n = of_char c :: nat in
      if 48 \<le> n \<and> n \<le> 57 then Some (n - 48)
      else if 97 \<le> n \<and> n \<le> 102 then Some (n - 87)
      else if 65 \<le> n \<and> n \<le> 70 then Some (n - 55) else None)"

text \<open>One hexadecimal group: digits read, value and rest; more than four digits fail.\<close>

fun parse_group :: "string \<Rightarrow> nat \<Rightarrow> nat \<Rightarrow> (nat \<times> nat \<times> string) option" where
  "parse_group [] acc off = Some (off, acc, [])"
| "parse_group (c # cs) acc off =
     (case hex_val c of None \<Rightarrow> Some (off, acc, c # cs)
      | Some d \<Rightarrow> if 3 < off then None else parse_group cs (16 * acc + d) (Suc off))"

text \<open>
  The loop of \<open>netip.parseIPv6\<close>. \<open>ell\<close> is the byte position of the ellipsis, \<open>out\<close>
  the bytes written so far; the result is the final \<open>out\<close>, ellipsis and unread rest.
  Each round writes at least two bytes and stops at sixteen, so eight rounds of fuel are
  enough; with the fuel used up the loop condition \<open>i < 16\<close> has failed.
\<close>

fun parse_v6_loop ::
  "nat \<Rightarrow> string \<Rightarrow> nat option \<Rightarrow> byte list \<Rightarrow> (byte list \<times> nat option \<times> string) option" where
  "parse_v6_loop 0 s ell out = Some (out, ell, s)"
| "parse_v6_loop (Suc k) s ell out =
     (case parse_group s 0 0 of None \<Rightarrow> None
      | Some (off, acc, r) \<Rightarrow>
          if off = 0 then None
          else if r \<noteq> [] \<and> hd r = CHR ''.'' then
            (if ell = None \<and> length out \<noteq> 12 then None
             else if 16 < length out + 4 then None
             else (case parse_v4 s 0 0 [] of None \<Rightarrow> None
                   | Some q \<Rightarrow> Some (out @ q, ell, [])))
          else
            (let out' = out @ [of_nat (acc div 256), of_nat acc] in
             case r of [] \<Rightarrow> Some (out', ell, [])
             | c # r' \<Rightarrow>
                 if c \<noteq> CHR '':'' then None
                 else (case r' of [] \<Rightarrow> None
                       | d # r'' \<Rightarrow>
                           if d = CHR '':'' then
                             (if ell \<noteq> None then None
                              else if r'' = [] then Some (out', Some (length out'), [])
                              else parse_v6_loop k r'' (Some (length out')) out')
                           else parse_v6_loop k r' ell out')))"

definition parse_v6 :: "string \<Rightarrow> ip" where
  "parse_v6 s =
     (let lead = (2 \<le> length s \<and> take 2 s = ''::''); s' = (if lead then drop 2 s else s)
      in if lead \<and> s' = [] then replicate 16 0
         else (case parse_v6_loop 8 s' (if lead then Some 0 else None) [] of
             None \<Rightarrow> []
           | Some (out, ell, rest) \<Rightarrow>
               if rest \<noteq> [] then []
               else if length out < 16 then
                 (case ell of None \<Rightarrow> []
                  | Some e \<Rightarrow> take e out @ replicate (16 - length out) 0 @ drop e out)
               else if ell \<noteq> None then [] else out))"

text \<open>
  \<open>net.ParseIP\<close>: the first of \<open>.\<close>, \<open>:\<close> and \<open>%\<close> decides the family. A string with
  a zone (\<open>%\<close>) is never a \<open>net.IP\<close>. The result has 16 bytes, or is nil.
\<close>

definition parse_ip :: "string \<Rightarrow> ip" where
  "parse_ip s =
     (case dropWhile (\<lambda>c. c \<notin> set ''.:%'') s of
        [] \<Rightarrow> []
      | c # _ \<Rightarrow>
          if c = CHR ''.'' then
            (case parse_v4 s 0 0 [] of None \<Rightarrow> [] | Some q \<Rightarrow> v4_in_v6_prefix @ q)
          else if c = CHR '':'' \<and> CHR ''%'' \<notin> set s then parse_v6 s
          else [])"

section \<open>The round trip for IPv4\<close>

lemma parse_v4_digit:
  assumes "d < 10" "\<not> (m = 1 \<and> v = 0)" "10 * v + d \<le> 255"
  shows "parse_v4 (digit_char d # cs) v m fs = parse_v4 cs (10 * v + d) (Suc m) fs"
  using assms by auto

lemma parse_v4_octet:
  assumes "n < 256"
  shows "parse_v4 (itoa n @ r) 0 0 fs = parse_v4 r n (length (itoa n)) fs"
proof -
  consider "n < 10" | "10 \<le> n" "n < 100" | "100 \<le> n" "n < 256" using assms by linarith
  then show ?thesis
  proof cases
    case 1
    then show ?thesis by (simp add: itoa.simps [of n] parse_v4_digit del: parse_v4.simps)
  next
    case 2
    define a b where "a = n div 10" and "b = n mod 10"
    have i: "itoa n = [digit_char a, digit_char b]"
      using 2 by (simp add: itoa.simps [of n] itoa.simps [of "n div 10"] a_def b_def)
    have "a < 10" "a \<noteq> 0" "b < 10" and n: "10 * a + b = n" using 2 by (auto simp: a_def b_def)
    then show ?thesis using assms by (simp add: i n parse_v4_digit del: parse_v4.simps)
  next
    case 3
    define a b c where "a = n div 100" and "b = n div 10 mod 10" and "c = n mod 10"
    have e: "n div 10 div 10 = n div 100" by (simp only: div_mult2_eq [symmetric], simp)
    have "itoa n = itoa (n div 10) @ [digit_char c]"
      using 3 by (subst itoa.simps) (simp add: c_def)
    also have "itoa (n div 10) = itoa (n div 100) @ [digit_char b]"
      using 3 by (subst itoa.simps) (simp add: b_def e)
    also have "itoa (n div 100) = [digit_char a]"
      using 3 by (subst itoa.simps) (simp add: a_def)
    finally have i: "itoa n = [digit_char a, digit_char b, digit_char c]" by simp
    have ab: "10 * a + b = n div 10"
      using div_mult_mod_eq [of "n div 10" 10] by (simp add: a_def b_def e)
    then have n: "10 * (10 * a + b) + c = n" by (simp only: ab c_def) simp
    have "a < 10" "a \<noteq> 0" "b < 10" "c < 10" using 3 by (auto simp: a_def b_def c_def)
    moreover have "10 * a + b \<le> 255" using ab 3 by simp
    ultimately show ?thesis
      using assms n by (simp add: i parse_v4_digit del: parse_v4.simps)
  qed
qed

lemma parse_v4_dotted:
  assumes "length b = 4" shows "parse_v4 (dotted b) 0 0 [] = Some b"
proof -
  from assms obtain w x y z where b: "b = [w, x, y, z]"
    by (auto simp: numeral_eq_Suc length_Suc_conv)
  have u: "unat v < 256" for v :: byte
    using unsigned_less [of v, where ?'a = nat] by simp
  have dot: "\<not> is_digit (CHR ''.'')" by (simp add: is_digit_def)
  have nz: "0 < length (itoa n)" for n by simp
  show ?thesis
    using parse_v4_octet [OF u, of z "[]"]
    by (simp add: b dotted_def parse_v4_octet u dot)
qed

lemma dotted_first:
  assumes "length b = 4" obtains r where "dropWhile (\<lambda>c. c \<notin> set ''.:%'') (dotted b) = CHR ''.'' # r"
proof -
  from assms obtain w x y z where b: "b = [w, x, y, z]"
    by (auto simp: numeral_eq_Suc length_Suc_conv)
  have "c \<notin> set ''.:%''" if "c \<in> set (itoa (unat w))" for c
    using itoa_digits that by (fastforce simp: is_digit_def)
  then have "dropWhile (\<lambda>c. c \<notin> set ''.:%'') (itoa (unat w) @ CHR ''.'' # s) = CHR ''.'' # s" for s
    by (subst dropWhile_append2) auto
  then show ?thesis using that by (simp add: b dotted_def)
qed

lemma parse_ip_dotted:
  assumes "length b = 4" shows "parse_ip (dotted b) = v4_in_v6_prefix @ b"
proof -
  obtain r where r: "dropWhile (\<lambda>c. c \<notin> set ''.:%'') (dotted b) = CHR ''.'' # r"
    by (rule dotted_first [OF assms])
  show ?thesis
    by (simp only: parse_ip_def r list.case if_True refl parse_v4_dotted [OF assms] option.case)
qed

lemma to4_parse_ip_string:
  assumes "to4 b \<noteq> []" shows "to4 (parse_ip (ip_string b)) = to4 b"
proof -
  have "length b = 4 \<or> length b = 16" "b \<noteq> []"
    using assms by (auto simp: to4_def split: if_splits)
  then have "ip_string b = dotted (to4 b)" using assms by (auto simp: ip_string_def)
  then show ?thesis using assms by (simp add: parse_ip_dotted length_to4)
qed

lemma ip_string_inj4:
  assumes "ip_string a = ip_string b" "to4 a \<noteq> []" "to4 b \<noteq> []"
  shows "to4 a = to4 b"
  using assms to4_parse_ip_string by metis

end
