(* ===== verification/Config.thy ===== *)
theory Config
  imports Go_Net
begin

text \<open>
  The configuration store, \<open>internal/config/config.go\<close>: the data of the JSON file as
  records, one definition per method of \<open>Config\<close>, and the synchronous part of its
  persistence (\<open>saveLocked\<close>, \<open>writeSnapshot\<close>, \<open>Flush\<close> run without interference;
  the interleavings are in the theory \<open>Config_Persist\<close>).

  A method that ends in \<open>saveLocked\<close> takes the outcome of the disk write (\<open>io\<close>) and
  returns the error it reports together with the new store: the memory is updated even
  when the write fails. A JSON document is represented by the value it encodes.
\<close>

section \<open>Data\<close>

record lan_segment =
  seg_id :: string
  seg_name :: string
  seg_interface :: string
  seg_address :: string
  seg_subnet_mask :: string
  seg_pool_start :: string
  seg_pool_end :: string
  seg_domain :: string
  seg_dhcp_disabled :: bool

record reservation =
  res_mac :: string
  res_ip :: string
  res_hostname :: string
  res_segment_id :: string

record dns_record =
  rec_name :: string
  rec_ip :: string

record lease =
  lease_mac :: string
  lease_ip :: string
  lease_hostname :: string
  lease_expires_at :: int
  lease_segment_id :: string

record discovered_device =
  dev_mac :: string
  dev_ip :: string
  dev_segment_id :: string
  dev_last_seen :: int

record port_rule =
  rule_id :: string
  rule_name :: string
  rule_kind :: string
  rule_protocol :: string
  rule_port :: string
  rule_to_ip :: string
  rule_to_port :: string
  rule_source :: string
  rule_disabled :: bool

record config_data =
  wan_interface :: string
  lan_segments :: "lan_segment list"
  lease_seconds :: int
  dns_mode :: string
  upstream_servers :: "string list"
  sqm_enabled :: bool
  sqm_download_mbit :: int
  sqm_upload_mbit :: int
  firewall_enabled :: bool
  port_rules :: "port_rule list"
  docker_enabled :: bool
  docker_interfaces :: "string list"
  docker_wan_source :: string
  trusted_interfaces :: "string list"
  listen_addr :: string
  reservations :: "reservation list"
  dns_records :: "dns_record list"
  leases :: "lease list"
  discovered_devices :: "discovered_device list"
  hostname_overrides :: "string \<rightharpoonup> string"

text \<open>
  A \<open>Config\<close>: the data, the counters of the persistence bookkeeping, and the document at
  \<open>path\<close>. The 64-bit counters only ever grow by one, so they are natural numbers.
\<close>

record store =
  dat :: config_data
  seq_no :: nat
  mut_gen :: nat
  flushed_gen :: nat
  last_written :: nat
  disk :: "config_data option"

datatype io = IoOk | WriteFails | RenameFails

datatype cfg_error =
    ErrWriteTemp | ErrRename | ErrReadConfig | ErrParseConfig | ErrPersistMigrated cfg_error
  | ErrSegmentNotFound string | ErrRuleNotFound string | ErrNotValidFile | ErrNotCobweb
  | ErrInvalidPool string string string

section \<open>Persistence\<close>

definition write_snapshot ::
  "io \<Rightarrow> config_data \<Rightarrow> nat \<Rightarrow> store \<Rightarrow> store \<times> cfg_error option" where
  "write_snapshot io b sq s =
     (if sq < last_written s then (s, None)
      else (case io of
          WriteFails \<Rightarrow> (s, Some ErrWriteTemp)
        | RenameFails \<Rightarrow> (s, Some ErrRename)
        | IoOk \<Rightarrow> (s\<lparr>disk := Some b, last_written := sq\<rparr>, None)))"

definition advance_flushed :: "nat \<Rightarrow> store \<Rightarrow> store" where
  "advance_flushed g s = (if g \<le> flushed_gen s then s else s\<lparr>flushed_gen := g\<rparr>)"

definition save_locked :: "io \<Rightarrow> store \<Rightarrow> store \<times> cfg_error option" where
  "save_locked io s =
     (let s1 = s\<lparr>seq_no := seq_no s + 1\<rparr>; g = mut_gen s1;
          (s2, e) = write_snapshot io (dat s1) (seq_no s1) s1
      in case e of Some er \<Rightarrow> (s2, Some er) | None \<Rightarrow> (advance_flushed g s2, None))"

definition mark_dirty :: "store \<Rightarrow> store" where
  "mark_dirty s = s\<lparr>mut_gen := mut_gen s + 1\<rparr>"

definition flush :: "io \<Rightarrow> store \<Rightarrow> store \<times> cfg_error option" where
  "flush io s =
     (let g = mut_gen s in
      if g = flushed_gen s then (s, None)
      else (let s1 = s\<lparr>seq_no := seq_no s + 1\<rparr>;
                (s2, e) = write_snapshot io (dat s1) (seq_no s1) s1
            in case e of Some er \<Rightarrow> (s2, Some er) | None \<Rightarrow> (advance_flushed g s2, None)))"

definition save :: "io \<Rightarrow> store \<Rightarrow> store \<times> cfg_error option" where
  "save io s = save_locked io s"

text \<open>A method that edits the data and then saves.\<close>

definition edit :: "(config_data \<Rightarrow> config_data) \<Rightarrow> store \<Rightarrow> store" where
  "edit f s = s\<lparr>dat := f (dat s)\<rparr>"

section \<open>Fresh and loaded configurations\<close>

text \<open>\<open>newSegmentID\<close> and \<open>newRuleID\<close>: six random bytes, or \<^const>\<open>None\<close> when
  \<open>crypto/rand\<close> fails.\<close>

definition new_segment_id :: "byte list option \<Rightarrow> string" where
  "new_segment_id rnd =
     (case rnd of None \<Rightarrow> ''seg-fallback'' | Some b \<Rightarrow> ''seg-'' @ concat (map hex_byte b))"

definition new_rule_id :: "byte list option \<Rightarrow> string" where
  "new_rule_id rnd =
     (case rnd of None \<Rightarrow> ''rule-fallback'' | Some b \<Rightarrow> ''rule-'' @ concat (map hex_byte b))"

definition default_data :: "byte list option \<Rightarrow> config_data" where
  "default_data rnd = \<lparr>
     wan_interface = ''wlp2s0'',
     lan_segments = [\<lparr>seg_id = new_segment_id rnd, seg_name = ''Default'',
       seg_interface = ''enp1s0'', seg_address = ''192.168.2.1'',
       seg_subnet_mask = ''255.255.255.0'', seg_pool_start = ''192.168.2.10'',
       seg_pool_end = ''192.168.2.254'', seg_domain = ''lan'', seg_dhcp_disabled = False\<rparr>],
     lease_seconds = 86400, dns_mode = ''forward'',
     upstream_servers = [''1.1.1.1:53'', ''9.9.9.9:53''],
     sqm_enabled = False, sqm_download_mbit = 0, sqm_upload_mbit = 0,
     firewall_enabled = False, port_rules = [],
     docker_enabled = False, docker_interfaces = [], docker_wan_source = '''',
     trusted_interfaces = [], listen_addr = ''0.0.0.0:8070'',
     reservations = [], dns_records = [], leases = [], discovered_devices = [],
     hostname_overrides = Map.empty\<rparr>"

definition new_store :: "config_data \<Rightarrow> config_data option \<Rightarrow> store" where
  "new_store d f = \<lparr>dat = d, seq_no = 0, mut_gen = 0, flushed_gen = 0, last_written = 0, disk = f\<rparr>"

record legacy_fields =
  leg_interface :: string
  leg_address :: string
  leg_subnet_mask :: string
  leg_pool_start :: string
  leg_pool_end :: string
  leg_domain :: string

text \<open>What \<open>os.ReadFile\<close> and the two \<open>json.Unmarshal\<close> calls of \<open>Load\<close> can give. The
  legacy keys of a document are absent (empty) or of the wrong type (\<^const>\<open>None\<close>).\<close>

datatype file_read = NotExist | ReadError | NotJson
  | Document config_data "legacy_fields option"

definition migrate :: "string \<Rightarrow> legacy_fields \<Rightarrow> config_data \<Rightarrow> config_data" where
  "migrate sid l d =
     (let seg = \<lparr>seg_id = sid, seg_name = ''Default'', seg_interface = leg_interface l,
            seg_address = leg_address l, seg_subnet_mask = leg_subnet_mask l,
            seg_pool_start = leg_pool_start l, seg_pool_end = leg_pool_end l,
            seg_domain = (if leg_domain l = '''' then ''lan'' else leg_domain l),
            seg_dhcp_disabled = False\<rparr>
      in d\<lparr>lan_segments := [seg],
           reservations := map (\<lambda>r. if res_segment_id r = '''' then r\<lparr>res_segment_id := sid\<rparr> else r)
             (reservations d),
           leases := map (\<lambda>l. if lease_segment_id l = '''' then l\<lparr>lease_segment_id := sid\<rparr> else l)
             (leases d)\<rparr>)"

definition load :: "file_read \<Rightarrow> byte list option \<Rightarrow> io \<Rightarrow> cfg_error + store" where
  "load f rnd io =
     (case f of
        NotExist \<Rightarrow> Inr (new_store (default_data rnd) None)
      | ReadError \<Rightarrow> Inl ErrReadConfig
      | NotJson \<Rightarrow> Inl ErrParseConfig
      | Document d leg \<Rightarrow>
          if lan_segments d = [] then
            (case leg of
               Some l \<Rightarrow>
                 if leg_interface l \<noteq> '''' then
                   (case save_locked io (new_store (migrate (new_segment_id rnd) l d) (Some d)) of
                      (s, None) \<Rightarrow> Inr s
                    | (s, Some e) \<Rightarrow> Inl (ErrPersistMigrated e))
                 else Inr (new_store d (Some d))
             | None \<Rightarrow> Inr (new_store d (Some d)))
          else Inr (new_store d (Some d)))"

text \<open>\<open>ImportJSON\<close>: the argument is what \<open>json.Unmarshal\<close> makes of the upload.\<close>

definition import_json :: "io \<Rightarrow> config_data option \<Rightarrow> store \<Rightarrow> store \<times> cfg_error option" where
  "import_json io parsed s =
     (case parsed of
        None \<Rightarrow> (s, Some ErrNotValidFile)
      | Some p \<Rightarrow>
          if wan_interface p = '''' \<and> lan_segments p = [] then (s, Some ErrNotCobweb)
          else save_locked io (edit (\<lambda>_. p) s))"

definition export_json :: "store \<Rightarrow> config_data" where
  "export_json s = dat s"

definition snapshot :: "store \<Rightarrow> config_data" where
  "snapshot s = dat s"

section \<open>LAN segments\<close>

definition segment_by_id :: "string \<Rightarrow> store \<Rightarrow> lan_segment option" where
  "segment_by_id i s = find_by seg_id i (lan_segments (dat s))"

definition add_lan_segment ::
  "byte list option \<Rightarrow> io \<Rightarrow> lan_segment \<Rightarrow> store \<Rightarrow> store \<times> lan_segment \<times> cfg_error option" where
  "add_lan_segment rnd io seg s =
     (let seg' = seg\<lparr>seg_id := new_segment_id rnd\<rparr>;
          (s', e) = save_locked io (edit (\<lambda>d. d\<lparr>lan_segments := lan_segments d @ [seg']\<rparr>) s)
      in (s', seg', e))"

definition update_lan_segment ::
  "io \<Rightarrow> string \<Rightarrow> lan_segment \<Rightarrow> store \<Rightarrow> store \<times> cfg_error option" where
  "update_lan_segment io i updated s =
     (case update_by seg_id i (\<lambda>_. updated\<lparr>seg_id := i\<rparr>) (lan_segments (dat s)) of
        None \<Rightarrow> (s, Some (ErrSegmentNotFound i))
      | Some segs \<Rightarrow> save_locked io (edit (\<lambda>d. d\<lparr>lan_segments := segs\<rparr>) s))"

definition remove_lan_segment :: "io \<Rightarrow> string \<Rightarrow> store \<Rightarrow> store \<times> cfg_error option" where
  "remove_lan_segment io i s =
     save_locked io (edit (\<lambda>d. d\<lparr>lan_segments := remove_by seg_id i (lan_segments d)\<rparr>) s)"

text \<open>\<open>ParsePoolRangeForSegment\<close>: both ends as four bytes.\<close>

definition parse_pool_range :: "string \<Rightarrow> store \<Rightarrow> cfg_error + (ip \<times> ip)" where
  "parse_pool_range i s =
     (case segment_by_id i s of
        None \<Rightarrow> Inl (ErrSegmentNotFound i)
      | Some g \<Rightarrow>
          (let start = to4 (parse_ip (seg_pool_start g)); stop = to4 (parse_ip (seg_pool_end g))
           in if start = [] \<or> stop = []
              then Inl (ErrInvalidPool (seg_name g) (seg_pool_start g) (seg_pool_end g))
              else Inr (start, stop)))"

section \<open>Reservations, DNS records, host names\<close>

definition reservation_for_mac :: "string \<Rightarrow> store \<Rightarrow> reservation option" where
  "reservation_for_mac m s = find_by res_mac m (reservations (dat s))"

definition add_reservation :: "io \<Rightarrow> reservation \<Rightarrow> store \<Rightarrow> store \<times> cfg_error option" where
  "add_reservation io r s =
     save_locked io (edit (\<lambda>d. d\<lparr>reservations := upsert_by res_mac r (reservations d)\<rparr>) s)"

definition remove_reservation :: "io \<Rightarrow> string \<Rightarrow> store \<Rightarrow> store \<times> cfg_error option" where
  "remove_reservation io m s =
     save_locked io (edit (\<lambda>d. d\<lparr>reservations := remove_by res_mac m (reservations d)\<rparr>) s)"

definition set_hostname_override ::
  "io \<Rightarrow> string \<Rightarrow> string \<Rightarrow> store \<Rightarrow> store \<times> cfg_error option" where
  "set_hostname_override io m h s =
     save_locked io (edit (\<lambda>d. d\<lparr>hostname_overrides :=
       (if h = '''' then (hostname_overrides d)(m := None)
        else (hostname_overrides d)(m \<mapsto> h))\<rparr>) s)"

definition dns_record_for_name :: "string \<Rightarrow> store \<Rightarrow> dns_record option" where
  "dns_record_for_name n s = find_by rec_name n (dns_records (dat s))"

definition add_dns_record :: "io \<Rightarrow> dns_record \<Rightarrow> store \<Rightarrow> store \<times> cfg_error option" where
  "add_dns_record io r s =
     save_locked io (edit (\<lambda>d. d\<lparr>dns_records := upsert_by rec_name r (dns_records d)\<rparr>) s)"

definition remove_dns_record :: "io \<Rightarrow> string \<Rightarrow> store \<Rightarrow> store \<times> cfg_error option" where
  "remove_dns_record io n s =
     save_locked io (edit (\<lambda>d. d\<lparr>dns_records := remove_by rec_name n (dns_records d)\<rparr>) s)"

section \<open>Leases and discovered devices\<close>

definition lease_for_mac :: "string \<Rightarrow> store \<Rightarrow> lease option" where
  "lease_for_mac m s = find_by lease_mac m (leases (dat s))"

definition upsert_lease :: "lease \<Rightarrow> store \<Rightarrow> store" where
  "upsert_lease l s =
     mark_dirty (edit (\<lambda>d. d\<lparr>leases := upsert_by lease_mac l (leases d)\<rparr>) s)"

definition remove_lease :: "io \<Rightarrow> string \<Rightarrow> store \<Rightarrow> store \<times> cfg_error option" where
  "remove_lease io m s =
     save_locked io (edit (\<lambda>d. d\<lparr>leases := remove_by lease_mac m (leases d)\<rparr>) s)"

definition discovered_refresh_secs :: int where
  "discovered_refresh_secs = 300"

definition upsert_discovered_device :: "discovered_device \<Rightarrow> store \<Rightarrow> store" where
  "upsert_discovered_device v s =
     (case find_by dev_mac (dev_mac v) (discovered_devices (dat s)) of
        Some x \<Rightarrow>
          if dev_ip x = dev_ip v \<and> dev_segment_id x = dev_segment_id v
             \<and> dev_last_seen v - dev_last_seen x < discovered_refresh_secs
          then s
          else mark_dirty (edit (\<lambda>d. d\<lparr>discovered_devices :=
                 upsert_by dev_mac v (discovered_devices d)\<rparr>) s)
      | None \<Rightarrow> mark_dirty (edit (\<lambda>d. d\<lparr>discovered_devices := discovered_devices d @ [v]\<rparr>) s))"

definition remove_discovered_device :: "io \<Rightarrow> string \<Rightarrow> store \<Rightarrow> store \<times> cfg_error option" where
  "remove_discovered_device io m s = save_locked io
     (edit (\<lambda>d. d\<lparr>discovered_devices := remove_by dev_mac m (discovered_devices d)\<rparr>) s)"

text \<open>\<open>IPInUse\<close> looks at every reservation and every lease, expired ones included.\<close>

definition ip_in_use :: "string \<Rightarrow> string \<Rightarrow> store \<Rightarrow> bool" where
  "ip_in_use i exclude s \<longleftrightarrow>
     list_ex (\<lambda>r. res_ip r = i \<and> res_mac r \<noteq> exclude) (reservations (dat s)) \<or>
     list_ex (\<lambda>l. lease_ip l = i \<and> lease_mac l \<noteq> exclude) (leases (dat s))"

section \<open>Global settings\<close>

definition update_global_network ::
  "io \<Rightarrow> string \<Rightarrow> string \<Rightarrow> int \<Rightarrow> string list \<Rightarrow> store \<Rightarrow> store \<times> cfg_error option" where
  "update_global_network io wan mode secs upstream s =
     save_locked io (edit (\<lambda>d. d\<lparr>wan_interface := wan, dns_mode := mode,
       lease_seconds := secs, upstream_servers := upstream\<rparr>) s)"

definition update_sqm :: "io \<Rightarrow> bool \<Rightarrow> int \<Rightarrow> int \<Rightarrow> store \<Rightarrow> store \<times> cfg_error option" where
  "update_sqm io en down up s =
     save_locked io (edit (\<lambda>d. d\<lparr>sqm_enabled := en, sqm_download_mbit := down,
       sqm_upload_mbit := up\<rparr>) s)"

definition set_docker :: "io \<Rightarrow> bool \<Rightarrow> string list \<Rightarrow> string \<Rightarrow> store \<Rightarrow> store \<times> cfg_error option" where
  "set_docker io en ifs src s =
     save_locked io (edit (\<lambda>d. d\<lparr>docker_enabled := en, docker_interfaces := ifs,
       docker_wan_source := src\<rparr>) s)"

definition set_trusted_interfaces :: "io \<Rightarrow> string list \<Rightarrow> store \<Rightarrow> store \<times> cfg_error option" where
  "set_trusted_interfaces io ifs s =
     save_locked io (edit (\<lambda>d. d\<lparr>trusted_interfaces := ifs\<rparr>) s)"

definition set_firewall_enabled :: "io \<Rightarrow> bool \<Rightarrow> store \<Rightarrow> store \<times> cfg_error option" where
  "set_firewall_enabled io en s = save_locked io (edit (\<lambda>d. d\<lparr>firewall_enabled := en\<rparr>) s)"

section \<open>Port rules\<close>

definition add_port_rule ::
  "byte list option \<Rightarrow> io \<Rightarrow> port_rule \<Rightarrow> store \<Rightarrow> store \<times> port_rule \<times> cfg_error option" where
  "add_port_rule rnd io r s =
     (let r' = r\<lparr>rule_id := new_rule_id rnd\<rparr>;
          (s', e) = save_locked io (edit (\<lambda>d. d\<lparr>port_rules := port_rules d @ [r']\<rparr>) s)
      in (s', r', e))"

definition remove_port_rule :: "io \<Rightarrow> string \<Rightarrow> store \<Rightarrow> store \<times> cfg_error option" where
  "remove_port_rule io i s =
     save_locked io (edit (\<lambda>d. d\<lparr>port_rules := remove_by rule_id i (port_rules d)\<rparr>) s)"

definition set_port_rule_disabled ::
  "io \<Rightarrow> string \<Rightarrow> bool \<Rightarrow> store \<Rightarrow> store \<times> cfg_error option" where
  "set_port_rule_disabled io i dis s =
     (case update_by rule_id i (\<lambda>r. r\<lparr>rule_disabled := dis\<rparr>) (port_rules (dat s)) of
        None \<Rightarrow> (s, Some (ErrRuleNotFound i))
      | Some rs \<Rightarrow> save_locked io (edit (\<lambda>d. d\<lparr>port_rules := rs\<rparr>) s))"

section \<open>What saving does\<close>

lemma dat_edit [simp]: "dat (edit f s) = f (dat s)"
  by (simp add: edit_def)

lemma edit_other [simp]:
  "seq_no (edit f s) = seq_no s" "mut_gen (edit f s) = mut_gen s"
  "flushed_gen (edit f s) = flushed_gen s" "last_written (edit f s) = last_written s"
  "disk (edit f s) = disk s"
  by (simp_all add: edit_def)

lemma dat_mark_dirty [simp]: "dat (mark_dirty s) = dat s"
  by (simp add: mark_dirty_def)

lemma dat_advance_flushed [simp]: "dat (advance_flushed g s) = dat s"
  by (simp add: advance_flushed_def)

lemma dat_write_snapshot [simp]: "dat (fst (write_snapshot io b n s)) = dat s"
  by (simp add: write_snapshot_def split: io.split)

lemma dat_save_locked [simp]: "dat (fst (save_locked io s)) = dat s"
  by (auto simp: save_locked_def Let_def split: prod.splits option.splits
      dest: arg_cong [where f = "\<lambda>x. dat (fst x)"])

lemma dat_flush [simp]: "dat (fst (flush io s)) = dat s"
  by (auto simp: flush_def Let_def split: prod.splits option.splits
      dest: arg_cong [where f = "\<lambda>x. dat (fst x)"])

section \<open>Tables behave like maps\<close>

interpretation reservation_table: keyed_store
  "\<lambda>s m. reservation_for_mac m s" "\<lambda>r s. fst (add_reservation io r s)"
  "\<lambda>m s. fst (remove_reservation io m s)" "\<lambda>s. reservations (dat s)" res_mac for io
  by unfold_locales
     (auto simp: reservation_for_mac_def add_reservation_def remove_reservation_def)

interpretation dns_table: keyed_store
  "\<lambda>s n. dns_record_for_name n s" "\<lambda>r s. fst (add_dns_record io r s)"
  "\<lambda>n s. fst (remove_dns_record io n s)" "\<lambda>s. dns_records (dat s)" rec_name for io
  by unfold_locales
     (auto simp: dns_record_for_name_def add_dns_record_def remove_dns_record_def)

interpretation lease_table: keyed_store
  "\<lambda>s m. lease_for_mac m s" upsert_lease
  "\<lambda>m s. fst (remove_lease io m s)" "\<lambda>s. leases (dat s)" lease_mac for io
  by unfold_locales (auto simp: lease_for_mac_def upsert_lease_def remove_lease_def)

section \<open>Who holds which address\<close>

definition holders :: "store \<Rightarrow> (string \<times> string) set" where
  "holders s = (\<lambda>r. (res_mac r, res_ip r)) ` set (reservations (dat s)) \<union>
               (\<lambda>l. (lease_mac l, lease_ip l)) ` set (leases (dat s))"

text \<open>No address is reserved for or leased to two different clients.\<close>

definition addresses_exclusive :: "store \<Rightarrow> bool" where
  "addresses_exclusive s \<longleftrightarrow>
     (\<forall>m m' i. (m, i) \<in> holders s \<longrightarrow> (m', i) \<in> holders s \<longrightarrow> m = m')"

lemma holders_upsert_lease:
  "holders (upsert_lease l s) \<subseteq> insert (lease_mac l, lease_ip l) (holders s)"
  using set_upsert [of lease_mac l "leases (dat s)"]
  by (auto simp: holders_def upsert_lease_def)

lemma holders_add_reservation:
  "holders (fst (add_reservation io r s)) \<subseteq> insert (res_mac r, res_ip r) (holders s)"
  using set_upsert [of res_mac r "reservations (dat s)"]
  by (auto simp: holders_def add_reservation_def)

lemma holders_remove_lease: "holders (fst (remove_lease io m s)) \<subseteq> holders s"
  by (auto simp: holders_def remove_lease_def set_remove_by)

lemma holders_remove_reservation: "holders (fst (remove_reservation io m s)) \<subseteq> holders s"
  by (auto simp: holders_def remove_reservation_def set_remove_by)

lemma ip_in_use_holders: "ip_in_use i m s \<longleftrightarrow> (\<exists>m'. m' \<noteq> m \<and> (m', i) \<in> holders s)"
  by (auto simp: ip_in_use_def holders_def list_ex_iff)

interpretation book: address_book holders ip_in_use upsert_lease lease_mac lease_ip
  by unfold_locales (rule ip_in_use_holders holders_upsert_lease)+

interpretation reservation_book: address_book holders ip_in_use
  "\<lambda>r s. fst (add_reservation io r s)" res_mac res_ip for io
  by unfold_locales (rule ip_in_use_holders holders_add_reservation)+

lemma exclusive_iff: "book.exclusive s \<longleftrightarrow> addresses_exclusive s"
  by (simp add: book.exclusive_def addresses_exclusive_def)

lemmas holder_free = book.holder_not_in_use [unfolded exclusive_iff]
lemmas exclusive_subset = book.exclusive_subset [unfolded exclusive_iff]
lemmas lease_keeps_exclusive = book.grant_exclusive [unfolded exclusive_iff]
lemmas reservation_keeps_exclusive = reservation_book.grant_exclusive [unfolded exclusive_iff]

end
