(* ===== verification/Config_Persist.thy ===== *)
theory Config_Persist
  imports Config
begin

text \<open>
  The persistence protocol of \<open>internal/config/config.go\<close> under interference.
  \<open>saveLocked\<close> takes its snapshot, writes and advances \<open>flushedGen\<close> while it holds the
  configuration lock; \<open>Flush\<close> takes its snapshot under the lock and writes without it, so
  a write of an old snapshot may come after newer ones. Every method that edits the data is
  an atomic step (it holds the lock); the two phases of a write are steps of their own.

  \<open>taken\<close> (the snapshot of each sequence number), \<open>last_save\<close> and \<open>save_failed\<close> are
  history variables: no step reads them.
\<close>

section \<open>The protocol\<close>

record write_job =
  job_data :: config_data
  job_seq :: nat
  job_gen :: nat
  job_written :: bool

record persist_state =
  st :: store
  jobs :: "nat \<rightharpoonup> write_job"
  lock :: "nat option"
  taken :: "nat \<Rightarrow> config_data \<times> nat"
  last_save :: nat
  save_failed :: bool

definition release :: "nat \<Rightarrow> nat option \<Rightarrow> nat option" where
  "release j l = (if l = Some j then None else l)"

text \<open>\<open>json.MarshalIndent\<close>, \<open>c.seq.Add(1)\<close> and \<open>c.mutGen.Load()\<close>, with the lock held.\<close>

definition take_snapshot :: "nat \<Rightarrow> persist_state \<Rightarrow> persist_state" where
  "take_snapshot j p =
     (let s = (st p)\<lparr>seq_no := seq_no (st p) + 1\<rparr> in
      p\<lparr>st := s,
        jobs := (jobs p)(j \<mapsto> \<lparr>job_data = dat s, job_seq = seq_no s, job_gen = mut_gen s,
                               job_written = False\<rparr>),
        taken := (taken p)(seq_no s := (dat s, mut_gen s))\<rparr>)"

inductive persist_step :: "persist_state \<Rightarrow> persist_state \<Rightarrow> bool" where
  deferred: "lock p = None \<Longrightarrow> persist_step p (p\<lparr>st := mark_dirty (edit f (st p))\<rparr>)"
| begin_save: "lock p = None \<Longrightarrow> jobs p j = None \<Longrightarrow>
    p' = take_snapshot j (p\<lparr>st := edit f (st p)\<rparr>) \<Longrightarrow>
    persist_step p (p'\<lparr>lock := Some j, last_save := seq_no (st p')\<rparr>)"
| begin_flush: "lock p = None \<Longrightarrow> jobs p j = None \<Longrightarrow> mut_gen (st p) \<noteq> flushed_gen (st p) \<Longrightarrow>
    persist_step p (take_snapshot j p)"
| write_ok: "jobs p j = Some b \<Longrightarrow> \<not> job_written b \<Longrightarrow>
    write_snapshot io (job_data b) (job_seq b) (st p) = (s', None) \<Longrightarrow>
    persist_step p (p\<lparr>st := s', jobs := (jobs p)(j \<mapsto> b\<lparr>job_written := True\<rparr>)\<rparr>)"
| write_error: "jobs p j = Some b \<Longrightarrow> \<not> job_written b \<Longrightarrow>
    write_snapshot io (job_data b) (job_seq b) (st p) = (s', Some e) \<Longrightarrow>
    persist_step p (p\<lparr>st := s', jobs := (jobs p)(j := None), lock := release j (lock p),
      save_failed := (save_failed p \<or> lock p = Some j)\<rparr>)"
| finish: "jobs p j = Some b \<Longrightarrow> job_written b \<Longrightarrow>
    persist_step p (p\<lparr>st := advance_flushed (job_gen b) (st p), jobs := (jobs p)(j := None),
      lock := release j (lock p)\<rparr>)"

inductive_cases persist_stepE: "persist_step p p'"

text \<open>A configuration just loaded from disk.\<close>

definition persist_init :: "config_data \<Rightarrow> persist_state" where
  "persist_init d = \<lparr>st = new_store d (Some d), jobs = Map.empty, lock = None,
     taken = (\<lambda>_. (d, 0)), last_save = 0, save_failed = False\<rparr>"

inductive persist_reach :: "config_data \<Rightarrow> persist_state \<Rightarrow> bool" for d where
  start: "persist_reach d (persist_init d)"
| again: "persist_reach d p \<Longrightarrow> persist_step p p' \<Longrightarrow> persist_reach d p'"

section \<open>The invariant\<close>

definition job_ok :: "persist_state \<Rightarrow> write_job \<Rightarrow> bool" where
  "job_ok p b \<longleftrightarrow> job_seq b \<le> seq_no (st p) \<and> taken p (job_seq b) = (job_data b, job_gen b) \<and>
     (job_written b \<longrightarrow> job_seq b \<le> last_written (st p))"

definition gens_mono :: "persist_state \<Rightarrow> bool" where
  "gens_mono p \<longleftrightarrow>
     (\<forall>m n. m \<le> n \<and> n \<le> seq_no (st p) \<longrightarrow> snd (taken p m) \<le> snd (taken p n)) \<and>
     (\<forall>n \<le> seq_no (st p). snd (taken p n) \<le> mut_gen (st p))"

text \<open>A snapshot that is as new as the last save and the last deferred change is current.\<close>

definition current_ok :: "persist_state \<Rightarrow> bool" where
  "current_ok p \<longleftrightarrow> last_save p \<le> seq_no (st p) \<and>
     (\<forall>n. last_save p \<le> n \<and> n \<le> seq_no (st p) \<and> snd (taken p n) = mut_gen (st p)
          \<longrightarrow> fst (taken p n) = dat (st p))"

definition disk_ok :: "persist_state \<Rightarrow> bool" where
  "disk_ok p \<longleftrightarrow> last_written (st p) \<le> seq_no (st p) \<and>
     disk (st p) = Some (fst (taken p (last_written (st p)))) \<and>
     flushed_gen (st p) \<le> snd (taken p (last_written (st p)))"

definition lock_ok :: "persist_state \<Rightarrow> bool" where
  "lock_ok p \<longleftrightarrow> (case lock p of
      None \<Rightarrow> save_failed p \<or> last_save p \<le> last_written (st p)
    | Some j \<Rightarrow> (\<exists>b. jobs p j = Some b \<and> job_seq b = last_save p))"

definition persist_inv :: "persist_state \<Rightarrow> bool" where
  "persist_inv p \<longleftrightarrow> gens_mono p \<and> current_ok p \<and> disk_ok p \<and> lock_ok p \<and> (\<forall>j b. jobs p j = Some b \<longrightarrow> job_ok p b)"

lemma persist_invI:
  assumes "gens_mono p" "current_ok p" "disk_ok p" "lock_ok p"
    and "\<And>j b. jobs p j = Some b \<Longrightarrow> job_ok p b"
  shows "persist_inv p"
  using assms by (simp add: persist_inv_def)

lemma persist_invD:
  assumes "persist_inv p"
  shows "gens_mono p" "current_ok p" "disk_ok p" "lock_ok p"
    and "jobs p j = Some b \<Longrightarrow> job_ok p b"
  using assms by (simp_all add: persist_inv_def)

lemma persist_inv_init: "persist_inv (persist_init d)"
  by (rule persist_invI)
     (simp_all add: persist_init_def gens_mono_def current_ok_def disk_ok_def lock_ok_def new_store_def)

text \<open>The parts of the invariant look at little of the state.\<close>

lemma gens_mono_cong:
  assumes "gens_mono p" "seq_no (st q) = seq_no (st p)" "taken q = taken p"
    and "mut_gen (st p) \<le> mut_gen (st q)"
  shows "gens_mono q"
  using assms by (auto simp: gens_mono_def intro: order_trans)

lemma current_ok_cong:
  assumes "current_ok p" "seq_no (st q) = seq_no (st p)" "taken q = taken p"
    "last_save q = last_save p" "mut_gen (st q) = mut_gen (st p)" "dat (st q) = dat (st p)"
  shows "current_ok q"
  using assms by (simp add: current_ok_def)

lemma job_ok_cong:
  assumes "job_ok p b" "seq_no (st q) = seq_no (st p)" "taken q = taken p"
    "last_written (st p) \<le> last_written (st q)"
  shows "job_ok q b"
  using assms by (auto simp: job_ok_def intro: order_trans)

lemma inv_deferred:
  assumes "persist_inv p" "lock p = None"
  shows "persist_inv (p\<lparr>st := mark_dirty (edit f (st p))\<rparr>)" (is "persist_inv ?q")
proof (rule persist_invI)
  show "gens_mono ?q"
    using persist_invD(1) [OF assms(1)] by (rule gens_mono_cong) (simp_all add: mark_dirty_def)
  have "snd (taken p n) \<noteq> mut_gen (st p) + 1" if "n \<le> seq_no (st p)" for n
    using persist_invD(1) [OF assms(1)] that by (auto simp: gens_mono_def)
  then show "current_ok ?q"
    using persist_invD(2) [OF assms(1)] by (auto simp: current_ok_def mark_dirty_def)
  show "disk_ok ?q" "lock_ok ?q"
    using persist_invD(3,4) [OF assms(1)] assms(2) by (auto simp: disk_ok_def lock_ok_def mark_dirty_def)
  show "job_ok ?q b" if "jobs ?q j = Some b" for j b
    using persist_invD(5) [OF assms(1), of j b] that by (simp add: job_ok_def mark_dirty_def)
qed

section \<open>Taking a snapshot\<close>

lemma take_snapshot_fields:
  "seq_no (st (take_snapshot j p)) = Suc (seq_no (st p))"
  "mut_gen (st (take_snapshot j p)) = mut_gen (st p)"
  "flushed_gen (st (take_snapshot j p)) = flushed_gen (st p)"
  "last_written (st (take_snapshot j p)) = last_written (st p)"
  "disk (st (take_snapshot j p)) = disk (st p)" "dat (st (take_snapshot j p)) = dat (st p)"
  "lock (take_snapshot j p) = lock p" "last_save (take_snapshot j p) = last_save p"
  "save_failed (take_snapshot j p) = save_failed p"
  "taken (take_snapshot j p) = (taken p)(Suc (seq_no (st p)) := (dat (st p), mut_gen (st p)))"
  "jobs (take_snapshot j p) = (jobs p)(j \<mapsto> \<lparr>job_data = dat (st p), job_seq = Suc (seq_no (st p)),
     job_gen = mut_gen (st p), job_written = False\<rparr>)"
  by (simp_all add: take_snapshot_def Let_def)

lemma snapshot_gens_mono: "gens_mono p \<Longrightarrow> gens_mono (take_snapshot j p)"
  by (auto simp: gens_mono_def take_snapshot_fields le_Suc_eq)

lemma snapshot_jobs:
  assumes "\<And>j b. jobs p j = Some b \<Longrightarrow> job_ok p b" "jobs (take_snapshot j p) i = Some b"
  shows "job_ok (take_snapshot j p) b"
  using assms(1) [of i b] assms(2)
  by (auto simp: job_ok_def take_snapshot_fields split: if_splits)

lemma snapshot_disk_ok: "disk_ok p \<Longrightarrow> disk_ok (take_snapshot j p)"
  by (auto simp: disk_ok_def take_snapshot_fields)

lemma inv_begin_flush:
  assumes "persist_inv p" "lock p = None"
  shows "persist_inv (take_snapshot j p)"
proof (rule persist_invI)
  show "current_ok (take_snapshot j p)"
    using persist_invD(2) [OF assms(1)] by (auto simp: current_ok_def take_snapshot_fields)
  show "lock_ok (take_snapshot j p)"
    using persist_invD(4) [OF assms(1)] assms(2) by (simp add: lock_ok_def take_snapshot_fields)
qed (use assms in \<open>auto intro: snapshot_gens_mono snapshot_disk_ok snapshot_jobs dest: persist_invD\<close>)

lemma inv_begin_save:
  assumes "persist_inv p" "jobs p j = None"
    and p': "p' = take_snapshot j (p\<lparr>st := edit f (st p)\<rparr>)"
  shows "persist_inv (p'\<lparr>lock := Some j, last_save := seq_no (st p')\<rparr>)" (is "persist_inv ?q")
proof -
  let ?e = "p\<lparr>st := edit f (st p)\<rparr>"
  note inv = persist_invD [OF assms(1)]
  have e: "gens_mono ?e" "disk_ok ?e" "\<And>j b. jobs ?e j = Some b \<Longrightarrow> job_ok ?e b"
    using inv(1,3,5) by (simp_all add: gens_mono_def disk_ok_def job_ok_def)
  show ?thesis
  proof (rule persist_invI)
    show "gens_mono ?q" using snapshot_gens_mono [OF e(1), of j] by (simp add: p' gens_mono_def)
    show "current_ok ?q" by (auto simp: p' current_ok_def take_snapshot_fields)
    show "disk_ok ?q" using snapshot_disk_ok [OF e(2), of j] by (simp add: p' disk_ok_def)
    show "lock_ok ?q" by (simp add: p' lock_ok_def take_snapshot_fields)
    show "job_ok ?q b" if "jobs ?q i = Some b" for i b
    proof -
      have "job_ok (take_snapshot j ?e) b"
        by (rule snapshot_jobs [OF e(3)]) (use that in \<open>simp_all add: p'\<close>)
      then show ?thesis by (simp add: p' job_ok_def)
    qed
  qed
qed

section \<open>Writing and finishing\<close>

lemma write_snapshot_None:
  assumes "write_snapshot io b n s = (s', None)"
  obtains "n < last_written s" "s' = s"
  | "last_written s \<le> n" "s' = s\<lparr>disk := Some b, last_written := n\<rparr>"
  using assms by (auto simp: write_snapshot_def split: if_splits io.splits)

lemma write_snapshot_Some: "write_snapshot io b n s = (s', Some e) \<Longrightarrow> s' = s"
  by (auto simp: write_snapshot_def split: if_splits io.splits)

lemma lock_ok_job:
  assumes "lock_ok p" "jobs p j = Some b" "lock q = lock p" "last_save q = last_save p"
    "save_failed q = save_failed p" "last_written (st p) \<le> last_written (st q)"
    "jobs q = (jobs p)(j \<mapsto> c)" "job_seq c = job_seq b"
  shows "lock_ok q"
  using assms by (auto simp: lock_ok_def split: option.splits)

lemma inv_write_ok:
  assumes "persist_inv p" "jobs p j = Some b"
    and "write_snapshot io (job_data b) (job_seq b) (st p) = (s', None)"
  shows "persist_inv (p\<lparr>st := s', jobs := (jobs p)(j \<mapsto> b\<lparr>job_written := True\<rparr>)\<rparr>)" (is "persist_inv ?q")
proof -
  note inv = persist_invD [OF assms(1)]
  have b: "job_ok p b" using inv(5) assms(2) .
  have lw: "last_written (st p) \<le> last_written s'" "job_seq b \<le> last_written s'"
    using assms(3) by (auto elim!: write_snapshot_None)
  have same: "seq_no s' = seq_no (st p)" "mut_gen s' = mut_gen (st p)" "dat s' = dat (st p)"
    "flushed_gen s' = flushed_gen (st p)"
    using assms(3) by (auto elim!: write_snapshot_None)
  show ?thesis
  proof (rule persist_invI)
    show "gens_mono ?q" using inv(1) by (rule gens_mono_cong) (simp_all add: same)
    show "current_ok ?q" using inv(2) by (rule current_ok_cong) (simp_all add: same)
    show "lock_ok ?q" using inv(4) assms(2) by (rule lock_ok_job [where c = "b\<lparr>job_written := True\<rparr>"]) (simp_all add: lw)
    show "disk_ok ?q"
      using assms(3)
    proof (cases rule: write_snapshot_None)
      case 1
      with inv(3) show ?thesis by (simp add: disk_ok_def)
    next
      case 2
      have "flushed_gen (st p) \<le> snd (taken p (last_written (st p)))"
        using inv(3) by (simp add: disk_ok_def)
      also have "\<dots> \<le> snd (taken p (job_seq b))"
        using inv(1) b 2(1) unfolding gens_mono_def job_ok_def by blast
      finally show ?thesis using b 2 by (simp add: disk_ok_def job_ok_def)
    qed
    show "job_ok ?q c" if "jobs ?q i = Some c" for i c
    proof (cases "i = j")
      case True
      with that b lw show ?thesis by (auto simp: job_ok_def same)
    next
      case False
      with that have "job_ok p c" by (intro inv(5) [of i]) simp
      then show ?thesis by (rule job_ok_cong) (simp_all add: same lw)
    qed
  qed
qed

lemma inv_write_error:
  assumes "persist_inv p" "jobs p j = Some b"
    and "write_snapshot io (job_data b) (job_seq b) (st p) = (s', Some e)"
  shows "persist_inv (p\<lparr>st := s', jobs := (jobs p)(j := None), lock := release j (lock p),
      save_failed := (save_failed p \<or> lock p = Some j)\<rparr>)" (is "persist_inv ?q")
proof -
  note inv = persist_invD [OF assms(1)]
  have s': "s' = st p" using assms(3) by (rule write_snapshot_Some)
  show ?thesis
  proof (rule persist_invI)
    show "gens_mono ?q" using inv(1) by (rule gens_mono_cong) (simp_all add: s')
    show "current_ok ?q" using inv(2) by (rule current_ok_cong) (simp_all add: s')
    show "disk_ok ?q" using inv(3) by (simp add: disk_ok_def s')
    show "lock_ok ?q"
      using inv(4) by (auto simp: lock_ok_def s' release_def split: option.splits)
    show "job_ok ?q c" if "jobs ?q i = Some c" for i c
      using inv(5) [of i c] that by (auto simp: job_ok_def s' split: if_splits)
  qed
qed

lemma inv_finish:
  assumes "persist_inv p" "jobs p j = Some b" "job_written b"
  shows "persist_inv (p\<lparr>st := advance_flushed (job_gen b) (st p), jobs := (jobs p)(j := None),
      lock := release j (lock p)\<rparr>)" (is "persist_inv ?q")
proof -
  note inv = persist_invD [OF assms(1)]
  have b: "job_seq b \<le> last_written (st p)" "taken p (job_seq b) = (job_data b, job_gen b)"
    using inv(5) [OF assms(2)] assms(3) by (auto simp: job_ok_def)
  have "last_written (st p) \<le> seq_no (st p)" using inv(3) by (simp add: disk_ok_def)
  then have "snd (taken p (job_seq b)) \<le> snd (taken p (last_written (st p)))"
    using inv(1) b(1) by (simp add: gens_mono_def)
  then have gen: "job_gen b \<le> snd (taken p (last_written (st p)))" by (simp add: b(2))
  have same: "seq_no (advance_flushed g s) = seq_no s" "mut_gen (advance_flushed g s) = mut_gen s"
    "last_written (advance_flushed g s) = last_written s" "disk (advance_flushed g s) = disk s"
    "flushed_gen (advance_flushed g s) = max g (flushed_gen s)" for g s
    by (simp_all add: advance_flushed_def max_def)
  show ?thesis
  proof (rule persist_invI)
    show "gens_mono ?q" using inv(1) by (rule gens_mono_cong) (simp_all add: same)
    show "current_ok ?q" using inv(2) by (rule current_ok_cong) (simp_all add: same)
    show "disk_ok ?q" using inv(3) gen by (simp add: disk_ok_def same)
    show "lock_ok ?q"
      using inv(4) assms(2) b(1) by (auto simp: lock_ok_def same release_def split: option.splits)
    show "job_ok ?q c" if "jobs ?q i = Some c" for i c
      using inv(5) [of i c] that by (auto simp: job_ok_def same split: if_splits)
  qed
qed

section \<open>Every reachable state\<close>

lemma persist_step_inv: "persist_step p p' \<Longrightarrow> persist_inv p \<Longrightarrow> persist_inv p'"
  by (induction rule: persist_step.induct)
     (blast intro: inv_deferred inv_begin_save inv_begin_flush inv_write_ok inv_write_error inv_finish)+

lemma persist_reach_inv: "persist_reach d p \<Longrightarrow> persist_inv p"
  by (induction rule: persist_reach.induct) (auto intro: persist_inv_init persist_step_inv)

end
