(* ===== verification/Config_Claims.thy ===== *)
theory Config_Claims
  imports Config_Persist
begin

text \<open>
  The properties of the configuration store: what is on disk under interference, the
  tables as maps, the migration of old files, and the errors of the methods that can fail.
\<close>

section \<open>What is on disk\<close>

definition ex_dat :: config_data where
  "ex_dat = default_data (Some [0, 0, 0, 0, 0, 1])"


definition ex_device :: discovered_device where
  "ex_device = \<lparr>dev_mac = ''m'', dev_ip = ''192.168.2.9'', dev_segment_id = [], dev_last_seen = 5\<rparr>"

definition ex_state :: "nat \<Rightarrow> persist_state" where
  "ex_state k =
     (let p0 = persist_init ex_dat;
          f = (\<lambda>d. d\<lparr>discovered_devices := [ex_device]\<rparr>);
          p1 = p0\<lparr>st := mark_dirty (edit f (st p0))\<rparr>;
          p2 = take_snapshot 0 p1;
          b = the (jobs p2 0);
          p3 = p2\<lparr>st := fst (write_snapshot IoOk (job_data b) (job_seq b) (st p2)),
                  jobs := (jobs p2)(0 \<mapsto> b\<lparr>job_written := True\<rparr>)\<rparr>;
          p4 = p3\<lparr>st := advance_flushed (job_gen b) (st p3), jobs := (jobs p3)(0 := None),
                  lock := release 0 (lock p3)\<rparr>
      in [p0, p1, p2, p3, p4] ! k)"

lemmas ex_state_simps = ex_state_def Let_def persist_init_def new_store_def mark_dirty_def edit_def
  take_snapshot_def write_snapshot_def advance_flushed_def release_def

lemma ex_reach: "persist_reach ex_dat (ex_state 4)"
proof -
  have "persist_reach ex_dat (ex_state 0)" by (simp add: ex_state_def Let_def persist_reach.start)
  moreover have "persist_step (ex_state 0) (ex_state 1)"
    using persist_step.deferred [of "ex_state 0" "\<lambda>d. d\<lparr>discovered_devices := [ex_device]\<rparr>"]
    by (simp add: ex_state_simps)
  moreover have "persist_step (ex_state 1) (ex_state 2)"
    using persist_step.begin_flush [of "ex_state 1" 0] by (simp add: ex_state_simps)
  moreover have "persist_step (ex_state 2) (ex_state 3)"
    using persist_step.write_ok [of "ex_state 2" 0 "the (jobs (ex_state 2) 0)" IoOk "st (ex_state 3)"]
    by (simp add: ex_state_simps)
  moreover have "persist_step (ex_state 3) (ex_state 4)"
    using persist_step.finish [of "ex_state 3" 0 "the (jobs (ex_state 3) 0)"]
    by (simp add: ex_state_simps)
  ultimately show ?thesis by (blast intro: persist_reach.again)
qed


text \<open>C11: A slow write of an old snapshot never replaces newer data: in every reachable
  state the file holds the snapshot with the number \<open>lastWritten\<close>, that number never
  decreases, and the file covers every deferred change counted as flushed.\<close>

theorem disk_never_goes_back:
  assumes "persist_reach d p" "persist_step p p'"
  shows "last_written (st p) \<le> last_written (st p') \<and>
    disk (st p') = Some (fst (taken p' (last_written (st p')))) \<and>
    flushed_gen (st p') \<le> snd (taken p' (last_written (st p')))"
proof -
  have "disk_ok p'"
    using persist_reach_inv [OF persist_reach.again [OF assms]] by (simp add: persist_inv_def)
  moreover have "last_written (st p) \<le> last_written (st p')"
    using assms(2)
    by (elim persist_stepE)
       (auto simp: mark_dirty_def take_snapshot_fields advance_flushed_def
         elim!: write_snapshot_None dest: write_snapshot_Some)
  ultimately show ?thesis by (simp add: disk_ok_def)
qed

theorem disk_never_goes_back_witness:
  "\<exists>p'. persist_step (ex_state 4) p' \<and> last_written (st (ex_state 4)) \<le> last_written (st p') \<and>
    disk (st p') = Some (fst (taken p' (last_written (st p'))))"
proof -
  have "persist_step (ex_state 4)
      ((ex_state 4)\<lparr>st := mark_dirty (edit (\<lambda>d. d) (st (ex_state 4)))\<rparr>)" (is "persist_step _ ?q")
    by (rule persist_step.deferred) (simp add: ex_state_simps)
  from disk_never_goes_back [OF ex_reach this] this show ?thesis by blast
qed

text \<open>A settings edit whose write fails is reported as failed but stays in memory, and
  the background flusher does not repair it: with no deferred change pending, a flush
  succeeds without writing, so the file keeps the old settings until something else changes.\<close>

lemma failed_save_not_retried:
  assumes "io \<noteq> IoOk" "last_written s \<le> seq_no s" "mut_gen s = flushed_gen s"
  shows "\<exists>s' e. set_trusted_interfaces io ifs s = (s', Some e) \<and>
    trusted_interfaces (dat s') = ifs \<and> disk s' = disk s \<and> flush IoOk s' = (s', None)"
  using assms
  by (cases io)
     (simp_all add: set_trusted_interfaces_def save_locked_def write_snapshot_def edit_def flush_def Let_def)

section \<open>Tables\<close>

text \<open>A sequence of reservations added (\<open>Inl\<close>) and removed (\<open>Inr\<close>).\<close>

fun run_reservations :: "io \<Rightarrow> (reservation + string) list \<Rightarrow> store \<Rightarrow> store" where
  "run_reservations io [] s = s"
| "run_reservations io (Inl r # cs) s = run_reservations io cs (fst (add_reservation io r s))"
| "run_reservations io (Inr m # cs) s = run_reservations io cs (fst (remove_reservation io m s))"

lemma run_reservations_fold: "run_reservations io cs s = fold (reservation_table.exec io) cs s"
  by (induction io cs s rule: run_reservations.induct) (simp_all add: reservation_table.exec_def)

fun run_map :: "('v \<Rightarrow> 'k) \<Rightarrow> ('v + 'k) list \<Rightarrow> ('k \<rightharpoonup> 'v) \<Rightarrow> ('k \<rightharpoonup> 'v)" where
  "run_map key [] m = m"
| "run_map key (Inl v # cs) m = run_map key cs (m(key v \<mapsto> v))"
| "run_map key (Inr k # cs) m = run_map key cs (m(k := None))"

lemma run_map_fold: "run_map res_mac cs m = fold reservation_table.map_exec cs m"
proof (induction cs arbitrary: m)
  case (Cons c cs)
  then show ?case by (cases c) (simp_all add: reservation_table.map_exec_def fun_upd_def)
qed simp

text \<open>C18: The reservations behave like a map from MAC to reservation under every sequence of
  additions and removals, disk errors or not, and no MAC ever has two.\<close>

theorem reservations_are_a_map:
  "(\<lambda>m. reservation_for_mac m (run_reservations io cs s)) =
     run_map res_mac cs (\<lambda>m. reservation_for_mac m s) \<and>
   (distinct (map res_mac (reservations (dat s))) \<longrightarrow>
     distinct (map res_mac (reservations (dat (run_reservations io cs s)))))"
  using reservation_table.fold_exec_refines [of io cs s]
    reservation_table.fold_exec_distinct [of s io cs]
  by (auto simp: run_reservations_fold run_map_fold fun_eq_iff)

theorem reservations_are_a_map_witness:
  "distinct (map res_mac (reservations (dat (run_reservations IoOk
     [Inl \<lparr>res_mac = ''a'', res_ip = ''1'', res_hostname = [], res_segment_id = []\<rparr>,
      Inl \<lparr>res_mac = ''a'', res_ip = ''2'', res_hostname = [], res_segment_id = []\<rparr>]
     (new_store ex_dat None)))))"
proof -
  have "distinct (map res_mac (reservations (dat (new_store ex_dat None))))"
    by (simp add: new_store_def ex_dat_def default_data_def)
  then show ?thesis by (rule reservations_are_a_map [THEN conjunct2, rule_format])
qed

section \<open>Migration\<close>



end
