(* ===== verification/Dhcp_Packet.thy ===== *)
theory Dhcp_Packet
  imports Go_Net
begin

text \<open>
  The DHCP wire format, \<open>internal/dhcp/packet.go\<close>: \<open>Packet\<close>, \<open>ParsePacket\<close> with its
  walk over the options, \<open>ReplyOpts\<close> and \<open>BuildReply\<close>. The main result is the round
  trip \<open>parse_build_reply\<close>: a client that parses the reply the server builds reads back
  the fields the server put in.
\<close>

section \<open>Packets\<close>

text \<open>\<open>MessageType\<close> is a byte (option 53).\<close>

abbreviation (input) Discover :: byte where "Discover \<equiv> 1"
abbreviation (input) Offer :: byte where "Offer \<equiv> 2"
abbreviation (input) Request :: byte where "Request \<equiv> 3"
abbreviation (input) Decline :: byte where "Decline \<equiv> 4"
abbreviation (input) ACK :: byte where "ACK \<equiv> 5"
abbreviation (input) NAK :: byte where "NAK \<equiv> 6"
abbreviation (input) Release :: byte where "Release \<equiv> 7"

abbreviation (input) opt_subnet_mask :: byte where "opt_subnet_mask \<equiv> 1"
abbreviation (input) opt_router :: byte where "opt_router \<equiv> 3"
abbreviation (input) opt_dns_server :: byte where "opt_dns_server \<equiv> 6"
abbreviation (input) opt_hostname :: byte where "opt_hostname \<equiv> 12"
abbreviation (input) opt_requested_ip :: byte where "opt_requested_ip \<equiv> 50"
abbreviation (input) opt_lease_time :: byte where "opt_lease_time \<equiv> 51"
abbreviation (input) opt_message_type :: byte where "opt_message_type \<equiv> 53"
abbreviation (input) opt_server_id :: byte where "opt_server_id \<equiv> 54"
abbreviation (input) opt_end :: byte where "opt_end \<equiv> 255"

definition magic_cookie :: "byte list" where
  "magic_cookie = [99, 130, 83, 99]"

text \<open>A nil \<open>net.IP\<close> is the empty list; a present option 50 or 54 has four bytes.\<close>

record packet =
  p_op :: byte
  p_htype :: byte
  p_hlen :: byte
  p_xid :: "byte list"
  p_secs :: u16
  p_flags :: u16
  p_ciaddr :: ip
  p_yiaddr :: ip
  p_siaddr :: ip
  p_giaddr :: ip
  p_chaddr :: "byte list"
  p_message_type :: byte
  p_requested_ip :: ip
  p_hostname :: string
  p_server_id :: ip

datatype packet_error = PacketTooShort | BadMagicCookie

section \<open>Parsing\<close>

text \<open>The \<open>switch\<close> of the option walk.\<close>

definition apply_option :: "byte \<Rightarrow> byte list \<Rightarrow> packet \<Rightarrow> packet" where
  "apply_option code val p =
     (if code = opt_message_type then
        (if length val = 1 then p\<lparr>p_message_type := hd val\<rparr> else p)
      else if code = opt_requested_ip then
        (if length val = 4 then p\<lparr>p_requested_ip := val\<rparr> else p)
      else if code = opt_hostname then p\<lparr>p_hostname := str_of_bytes val\<rparr>
      else if code = opt_server_id then
        (if length val = 4 then p\<lparr>p_server_id := val\<rparr> else p)
      else p)"

text \<open>The loop from offset 240; its argument is \<open>b[i:]\<close>.\<close>

fun walk_options :: "byte list \<Rightarrow> packet \<Rightarrow> packet" where
  "walk_options [] p = p"
| "walk_options (code # r) p =
     (if code = opt_end then p
      else if code = 0 then walk_options r p
      else (case r of [] \<Rightarrow> p
            | len # r' \<Rightarrow>
                if length r' < unat len then p
                else walk_options (drop (unat len) r') (apply_option code (take (unat len) r') p)))"

definition parse_packet :: "byte list \<Rightarrow> packet_error + packet" where
  "parse_packet b =
     (if length b < 240 then Inl PacketTooShort
      else (let p = \<lparr>p_op = b ! 0, p_htype = b ! 1, p_hlen = b ! 2,
                  p_xid = take 4 (drop 4 b),
                  p_secs = u16_at b 8, p_flags = u16_at b 10,
                  p_ciaddr = take 4 (drop 12 b), p_yiaddr = take 4 (drop 16 b),
                  p_siaddr = take 4 (drop 20 b), p_giaddr = take 4 (drop 24 b),
                  p_chaddr = take (min (unat (b ! 2)) 16) (drop 28 b),
                  p_message_type = 0, p_requested_ip = [], p_hostname = [], p_server_id = []\<rparr>
            in if take 4 (drop 236 b) \<noteq> magic_cookie then Inl BadMagicCookie
               else Inr (walk_options (drop 240 b) p)))"

section \<open>Building replies\<close>

record reply_opts =
  o_message_type :: byte
  o_your_ip :: ip
  o_server_id :: ip
  o_subnet_mask :: ip
  o_router :: ip
  o_dns_server :: ip
  o_lease_time :: u32

definition append_opt :: "byte \<Rightarrow> byte list \<Rightarrow> byte list" where
  "append_opt code val = [code, of_nat (length val)] @ val"

definition reply_header :: "packet \<Rightarrow> reply_opts \<Rightarrow> byte list" where
  "reply_header req opts =
     (let buf = replicate 240 0;
          buf = copy_into 0 4 [2, p_htype req, p_hlen req, 0] buf;
          buf = copy_into 4 8 (p_xid req) buf;
          buf = copy_into 16 20 (to4 (o_your_ip opts)) buf;
          buf = copy_into 20 24 (to4 (o_server_id opts)) buf;
          buf = copy_into 28 (28 + length (p_chaddr req)) (p_chaddr req) buf
      in copy_into 236 240 magic_cookie buf)"

definition reply_options :: "reply_opts \<Rightarrow> byte list" where
  "reply_options opts =
     append_opt opt_message_type [o_message_type opts]
     @ append_opt opt_server_id (to4 (o_server_id opts))
     @ (if o_subnet_mask opts \<noteq> [] then append_opt opt_subnet_mask (to4 (o_subnet_mask opts)) else [])
     @ (if o_router opts \<noteq> [] then append_opt opt_router (to4 (o_router opts)) else [])
     @ (if o_dns_server opts \<noteq> [] then append_opt opt_dns_server (to4 (o_dns_server opts)) else [])
     @ append_opt opt_lease_time (be_bytes32 (o_lease_time opts))
     @ [opt_end]"

definition build_reply :: "packet \<Rightarrow> reply_opts \<Rightarrow> byte list" where
  "build_reply req opts = reply_header req opts @ reply_options opts"

section \<open>What the walk does\<close>

lemma walk_append_opt [simp]:
  assumes "code \<noteq> opt_end" "code \<noteq> 0" "length val < 256"
  shows "walk_options (append_opt code val @ r) p = walk_options r (apply_option code val p)"
  using assms by (simp add: append_opt_def unat_of_nat)

lemma walk_end [simp]: "walk_options (opt_end # r) p = p"
  by simp

text \<open>The options never touch the fixed header, and a stored address has four bytes.\<close>

definition same_header :: "packet \<Rightarrow> packet \<Rightarrow> bool" where
  "same_header p q \<longleftrightarrow> p_op p = p_op q \<and> p_htype p = p_htype q \<and> p_hlen p = p_hlen q \<and>
     p_xid p = p_xid q \<and> p_ciaddr p = p_ciaddr q \<and> p_yiaddr p = p_yiaddr q \<and>
     p_chaddr p = p_chaddr q"

definition options_ok :: "packet \<Rightarrow> bool" where
  "options_ok p \<longleftrightarrow> length (p_requested_ip p) \<in> {0, 4} \<and> length (p_server_id p) \<in> {0, 4} \<and>
     length (p_hostname p) < 256"

lemma apply_option_header: "same_header (apply_option code val p) p"
  by (simp add: apply_option_def same_header_def)

lemma walk_options_header: "same_header (walk_options r p) p"
proof (induction r p rule: walk_options.induct)
  case (2 code r p)
  then show ?case
    using apply_option_header by (auto simp: same_header_def split: list.splits)
qed (simp add: same_header_def)

lemma apply_option_ok: "options_ok p \<Longrightarrow> length val < 256 \<Longrightarrow> options_ok (apply_option code val p)"
  by (simp add: apply_option_def options_ok_def)

lemma walk_options_ok: "options_ok p \<Longrightarrow> options_ok (walk_options r p)"
proof (induction r p rule: walk_options.induct)
  case (2 code r p)
  have short: "length (take (unat l) v) < 256" for l :: byte and v :: "byte list"
    using unsigned_less [of l, where ?'a = nat] by simp
  show ?case
    using 2 apply_option_ok [OF "2.prems" short] by (auto split: list.split)
qed simp

section \<open>The round trip\<close>

definition wf_request :: "packet \<Rightarrow> bool" where
  "wf_request p \<longleftrightarrow> length (p_xid p) = 4 \<and> length (p_chaddr p) = min (unat (p_hlen p)) 16"

lemma parse_packet_wf:
  assumes "parse_packet b = Inr p"
  shows "wf_request p" "options_ok p" "length (p_ciaddr p) = 4"
proof -
  define q where "q = \<lparr>p_op = b ! 0, p_htype = b ! 1, p_hlen = b ! 2,
                  p_xid = take 4 (drop 4 b), p_secs = u16_at b 8, p_flags = u16_at b 10,
                  p_ciaddr = take 4 (drop 12 b), p_yiaddr = take 4 (drop 16 b),
                  p_siaddr = take 4 (drop 20 b), p_giaddr = take 4 (drop 24 b),
                  p_chaddr = take (min (unat (b ! 2)) 16) (drop 28 b),
                  p_message_type = 0, p_requested_ip = [], p_hostname = [], p_server_id = []\<rparr>"
  from assms have len: "240 \<le> length b" and p: "p = walk_options (drop 240 b) q"
    by (auto simp: parse_packet_def q_def Let_def split: if_splits)
  have "same_header p q" unfolding p by (rule walk_options_header)
  with len show "wf_request p" "length (p_ciaddr p) = 4"
    by (auto simp: same_header_def wf_request_def q_def)
  show "options_ok p"
    unfolding p by (rule walk_options_ok) (simp add: options_ok_def q_def)
qed

definition pad4 :: "ip \<Rightarrow> byte list" where
  "pad4 b = (if b = [] then [0, 0, 0, 0] else b)"

lemma copy_into_gap:
  assumes "i = length p + g" "length src \<le> j - i" "g + length src \<le> n"
  shows "copy_into i j src (p @ replicate n x) =
    p @ replicate g x @ src @ replicate (n - g - length src) x"
proof -
  have "take i (p @ replicate n x) = p @ replicate g x" using assms by simp
  moreover have "i + min (j - i) (length src) = length p + (g + length src)"
    using assms by (simp add: min_def)
  then have "drop (i + min (j - i) (length src)) (p @ replicate n x) =
      replicate (n - g - length src) x"
    by (simp add: drop_replicate)
  ultimately show ?thesis using assms by (simp add: copy_into_def)
qed

lemma copy_into_ip:
  assumes "i = length p + g" "g + 4 \<le> n" "length a \<in> {0, 4}"
  shows "copy_into i (i + 4) a (p @ replicate n 0) =
    p @ replicate g 0 @ pad4 a @ replicate (n - g - 4) 0"
proof (cases "a = []")
  case True
  have four: "replicate 4 0 = [0, 0, 0, 0 :: byte]" by (simp add: numeral_eq_Suc)
  have "n - g = 4 + (n - g - 4)" using assms by simp
  then have "replicate (n - g) 0 = [0, 0, 0, 0 :: byte] @ replicate (n - g - 4) 0"
    using replicate_add [of 4 "n - g - 4" "0 :: byte"] by (simp only: four)
  with True assms show ?thesis by (subst copy_into_gap [where g = g]) (auto simp: pad4_def)
next
  case False
  with assms have "length a = 4" by auto
  with assms False show ?thesis by (subst copy_into_gap [where g = g]) (auto simp: pad4_def)
qed

text \<open>The header as one list: the copies never overlap.\<close>

lemma reply_header_layout:
  assumes "wf_request req"
  shows "reply_header req opts =
     [2, p_htype req, p_hlen req, 0] @ p_xid req @ replicate 8 0 @ pad4 (to4 (o_your_ip opts)) @
     pad4 (to4 (o_server_id opts)) @ replicate 4 0 @ p_chaddr req @
     replicate (208 - length (p_chaddr req)) 0 @ magic_cookie"
proof -
  have x: "length (p_xid req) = 4" and c: "length (p_chaddr req) \<le> 16"
    using assms by (auto simp: wf_request_def)
  have y: "length (to4 a) \<in> {0, 4}" for a using length_to4 [of a] by auto
  have z [simp]: "length (pad4 (to4 a)) = 4" for a using y [of a] by (auto simp: pad4_def)
  define h where "h = [2, p_htype req, p_hlen req, 0]"
  define h2 where "h2 = (h @ p_xid req) @ replicate 8 0 @ pad4 (to4 (o_your_ip opts))"
  define h3 where "h3 = h2 @ pad4 (to4 (o_server_id opts))"
  have l: "length h = 4" "length h2 = 20" "length h3 = 24"
    by (simp_all add: h_def h2_def h3_def x)
  have "copy_into 0 4 h (replicate 240 0) = h @ replicate 236 0"
    using copy_into_gap [of 0 "[]" 0 h 4 240 0] l by simp
  moreover have "copy_into 4 8 (p_xid req) (h @ replicate 236 0) = (h @ p_xid req) @ replicate 232 0"
    using copy_into_gap [of 4 h 0 "p_xid req" 8 236 0] l x by simp
  moreover have "copy_into 16 20 (to4 (o_your_ip opts)) ((h @ p_xid req) @ replicate 232 0) =
      h2 @ replicate 220 0"
    using copy_into_ip [of 16 "h @ p_xid req" 8 232 "to4 (o_your_ip opts)"] l x y
    by (simp add: h2_def)
  moreover have "copy_into 20 24 (to4 (o_server_id opts)) (h2 @ replicate 220 0) =
      h3 @ replicate 216 0"
    using copy_into_ip [of 20 h2 0 220 "to4 (o_server_id opts)"] l y by (simp add: h3_def)
  moreover have "copy_into 28 (28 + length (p_chaddr req)) (p_chaddr req) (h3 @ replicate 216 0) =
      (h3 @ replicate 4 0 @ p_chaddr req) @ replicate (212 - length (p_chaddr req)) 0"
    using copy_into_gap [of 28 h3 4 "p_chaddr req" "28 + length (p_chaddr req)" 216 0] l c by simp
  moreover have "copy_into 236 240 magic_cookie
      ((h3 @ replicate 4 0 @ p_chaddr req) @ replicate (212 - length (p_chaddr req)) 0) =
      (h3 @ replicate 4 0 @ p_chaddr req) @ replicate (208 - length (p_chaddr req)) 0 @ magic_cookie"
    using copy_into_gap [of 236 "h3 @ replicate 4 0 @ p_chaddr req" "208 - length (p_chaddr req)"
        magic_cookie 240 "212 - length (p_chaddr req)" 0] l c
    by (simp add: magic_cookie_def)
  ultimately have "reply_header req opts =
      (h3 @ replicate 4 0 @ p_chaddr req) @ replicate (208 - length (p_chaddr req)) 0 @ magic_cookie"
    by (simp only: reply_header_def Let_def h_def [symmetric])
  then show ?thesis by (simp add: h3_def h2_def h_def)
qed

text \<open>
  What a client reads from a reply. The four addresses of the options are the ones the
  server was configured with; a NAK has no client address, which reads as 0.0.0.0.
\<close>

definition expected_reply :: "packet \<Rightarrow> reply_opts \<Rightarrow> packet" where
  "expected_reply req opts = \<lparr>p_op = 2, p_htype = p_htype req, p_hlen = p_hlen req,
     p_xid = p_xid req, p_secs = 0, p_flags = 0, p_ciaddr = [0, 0, 0, 0],
     p_yiaddr = pad4 (to4 (o_your_ip opts)), p_siaddr = pad4 (to4 (o_server_id opts)),
     p_giaddr = [0, 0, 0, 0], p_chaddr = p_chaddr req,
     p_message_type = o_message_type opts, p_requested_ip = [], p_hostname = [],
     p_server_id = to4 (o_server_id opts)\<rparr>"

lemma length_to4_cases: "to4 a = [] \<or> length (to4 a) = 4"
  using length_to4 by blast

lemma walk_reply_options:
  "walk_options (reply_options opts) p =
   (if to4 (o_server_id opts) = [] then p\<lparr>p_message_type := o_message_type opts\<rparr>
    else p\<lparr>p_message_type := o_message_type opts, p_server_id := to4 (o_server_id opts)\<rparr>)"
proof -
  have l: "length (to4 a) < 256" for a using length_to4_cases [of a] by auto
  have w: "walk_options ((if c then append_opt code v else []) @ r) q = walk_options r q"
    if "code \<in> {1, 3, 6}" "length v < 256" for c code v r q
    using that by (auto simp: apply_option_def)
  show ?thesis
    using length_to4_cases [of "o_server_id opts"]
    by (auto simp: reply_options_def w l apply_option_def simp del: walk_options.simps)
qed

lemma length4_cases:
  assumes "length b = 4" obtains w x y z where "b = [w, x, y, z]"
  using assms by (auto simp: numeral_eq_Suc length_Suc_conv)

lemma parse_build_reply:
  assumes "wf_request req"
  shows "parse_packet (build_reply req opts) = Inr (expected_reply req opts)"
proof -
  have p4: "length (pad4 (to4 a)) = 4" for a
    using length_to4_cases [of a] by (auto simp: pad4_def)
  have c: "length (p_chaddr req) = min (unat (p_hlen req)) 16" and x: "length (p_xid req) = 4"
    using assms by (auto simp: wf_request_def)
  obtain x0 x1 x2 x3 where x: "p_xid req = [x0, x1, x2, x3]" by (rule length4_cases [OF x])
  obtain y0 y1 y2 y3 where y: "pad4 (to4 (o_your_ip opts)) = [y0, y1, y2, y3]"
    by (rule length4_cases [OF p4])
  obtain s0 s1 s2 s3 where s: "pad4 (to4 (o_server_id opts)) = [s0, s1, s2, s3]"
    by (rule length4_cases [OF p4])
  have zeros: "replicate 8 0 = [0, 0, 0, 0, 0, 0, 0, 0 :: byte]"
    "replicate 4 0 = [0, 0, 0, 0 :: byte]"
    by (simp_all add: numeral_eq_Suc)
  define b where "b = build_reply req opts"
  define r where "r = p_chaddr req @ replicate (208 - length (p_chaddr req)) 0 @ magic_cookie @
    reply_options opts"
  have b: "b = [2, p_htype req, p_hlen req, 0, x0, x1, x2, x3, 0, 0, 0, 0, 0, 0, 0, 0,
      y0, y1, y2, y3, s0, s1, s2, s3, 0, 0, 0, 0] @ r"
    using reply_header_layout [OF assms, of opts]
    by (simp add: b_def build_reply_def r_def x y s zeros)
  have le: "length (p_chaddr req) \<le> 16" using c by simp
  have "take 4 (drop 236 b) = magic_cookie"
    using le by (simp add: b r_def magic_cookie_def)
  moreover have "drop 240 b = reply_options opts"
    using le by (simp add: b r_def magic_cookie_def)
  moreover have "240 \<le> length b" using le by (simp add: b r_def magic_cookie_def)
  moreover have "take (min (unat (p_hlen req)) 16) r = p_chaddr req"
    using c by (simp add: r_def)
  ultimately have "parse_packet b = Inr (expected_reply req opts)"
    using length_to4_cases [of "o_server_id opts"]
    by (auto simp: parse_packet_def walk_reply_options expected_reply_def b x y s u16_at_def Let_def)
  then show ?thesis by (simp add: b_def)
qed

section \<open>The options as a client reads them\<close>

text \<open>The value of the first option with a given code (RFC 2132).\<close>

fun option_value :: "byte \<Rightarrow> byte list \<Rightarrow> byte list option" where
  "option_value c [] = None"
| "option_value c (code # r) =
     (if code = opt_end then None
      else if code = 0 then option_value c r
      else (case r of [] \<Rightarrow> None
            | len # r' \<Rightarrow>
                if length r' < unat len then None
                else if code = c then Some (take (unat len) r')
                else option_value c (drop (unat len) r')))"

lemma option_value_append_opt:
  assumes "code \<noteq> opt_end" "code \<noteq> 0" "length val < 256"
  shows "option_value c (append_opt code val @ r) = (if code = c then Some val else option_value c r)"
  using assms by (simp add: append_opt_def unat_of_nat)

lemma drop_build_reply:
  assumes "wf_request req"
  shows "drop 240 (build_reply req opts) = reply_options opts"
proof -
  have "length (p_chaddr req) \<le> 16" "length (p_xid req) = 4" using assms by (auto simp: wf_request_def)
  moreover have "length (pad4 (to4 a)) = 4" for a
    using length_to4_cases [of a] by (auto simp: pad4_def)
  ultimately have "length (reply_header req opts) = 240"
    by (simp add: reply_header_layout [OF assms] magic_cookie_def)
  then show ?thesis by (simp add: build_reply_def)
qed

lemma option_value_reply:
  "option_value c (reply_options opts) =
    (if c = opt_message_type then Some [o_message_type opts]
     else if c = opt_server_id then Some (to4 (o_server_id opts))
     else if c = opt_subnet_mask \<and> o_subnet_mask opts \<noteq> [] then Some (to4 (o_subnet_mask opts))
     else if c = opt_router \<and> o_router opts \<noteq> [] then Some (to4 (o_router opts))
     else if c = opt_dns_server \<and> o_dns_server opts \<noteq> [] then Some (to4 (o_dns_server opts))
     else if c = opt_lease_time then Some (be_bytes32 (o_lease_time opts))
     else None)"
proof -
  have l: "length (to4 a) < 256" for a using length_to4_cases [of a] by auto
  show ?thesis
    by (auto simp: reply_options_def option_value_append_opt l simp del: option_value.simps(2))
       (simp_all add: option_value.simps(2))
qed

end
