(* ===== verification/Netstat.thy ===== *)
theory Netstat
  imports Go_Net
begin

text \<open>
  What cobweb reads from the kernel, \<open>internal/netstat\<close>: the ARP table (\<open>arp.go\<close>),
  interface state and counters (\<open>netstat.go\<close>, \<open>addr.go\<close>) and the connection tracking
  counters (\<open>conntrack.go\<close>), over the contents of the files. \<open>HumanBytes\<close> is in
  \<open>Web_Pages\<close>, with the pages that use it.
\<close>

record arp_entry =
  arp_ip :: string
  arp_mac :: string
  arp_interface :: string

section \<open>Numbers and fields\<close>

text \<open>
  \<open>strconv.Atoi\<close>: the value it returns, and whether it succeeded. Outside the range of an
  \<open>int\<close> the value is the nearest bound, and on other errors it is 0.
\<close>

definition signed_digits :: "string \<Rightarrow> int \<times> string" where
  "signed_digits s =
     (case s of [] \<Rightarrow> (1, [])
      | c # r \<Rightarrow> if c = CHR ''-'' then (-1, r) else if c = CHR ''+'' then (1, r) else (1, s))"

definition atoi :: "string \<Rightarrow> int \<times> bool" where
  "atoi s =
     (case signed_digits s of (sg, d) \<Rightarrow>
        if d = [] \<or> \<not> list_all is_digit d then (0, False)
        else (let n = sg * int (dec_value d) in
          if n < - (2 ^ 63) then (- (2 ^ 63), False)
          else if 2 ^ 63 \<le> n then (2 ^ 63 - 1, False)
          else (n, True)))"

text \<open>\<open>strconv.ParseInt(s, 16, 64)\<close> and \<open>strconv.ParseUint(s, 10, 64)\<close>, when they succeed.\<close>

definition hex_int :: "string \<Rightarrow> int option" where
  "hex_int s =
     (case signed_digits s of (sg, d) \<Rightarrow>
        if d = [] \<or> \<not> list_all (\<lambda>c. hex_val c \<noteq> None) d then None
        else (let n = sg * int (foldl (\<lambda>n c. 16 * n + the (hex_val c)) 0 d) in
          if n < - (2 ^ 63) \<or> 2 ^ 63 \<le> n then None else Some n))"

definition parse_uint :: "string \<Rightarrow> nat option" where
  "parse_uint s =
     (if s = [] \<or> \<not> list_all is_digit s \<or> 2 ^ 64 \<le> dec_value s then None else Some (dec_value s))"

text \<open>\<open>strings.FieldsFunc\<close> for a set of separators, each a byte sequence.\<close>

function fields_by :: "string list \<Rightarrow> string \<Rightarrow> string \<Rightarrow> string list" where
  "fields_by seps [] cur = (if cur = [] then [] else [cur])"
| "fields_by seps (c # cs) cur =
     (case find (\<lambda>p. prefix p (c # cs)) seps of
        Some p \<Rightarrow> (if cur = [] then [] else [cur]) @ fields_by seps (drop (length p - 1) cs) []
      | None \<Rightarrow> fields_by seps cs (cur @ [c]))"
  by pat_completeness auto
termination by (relation "measure (\<lambda>(seps, s, cur). length s)") auto

definition fields :: "string \<Rightarrow> string list" where
  "fields s = fields_by go_spaces s []"

text \<open>The lines \<open>bufio.Scanner\<close> delivers, and whether it stopped at one that is too long.\<close>

definition strip_cr :: "string \<Rightarrow> string" where
  "strip_cr l = trim_suffix l [CHR 0x0D]"

definition raw_lines :: "string \<Rightarrow> string list" where
  "raw_lines s = (let ls = split_on (CHR 0x0A) s in if last ls = [] then butlast ls else ls)"

definition scan_lines :: "string \<Rightarrow> string list \<times> bool" where
  "scan_lines s = (let short = (\<lambda>l. length l < 65536) in
     (map strip_cr (takeWhile short (raw_lines s)), list_all short (raw_lines s)))"

section \<open>The ARP table\<close>

definition atf_complete :: int where "atf_complete = 2"

definition parse_arp_line :: "string \<Rightarrow> arp_entry option" where
  "parse_arp_line l =
     (let f = fields l in
      if length f < 6 then None
      else (case hex_int (trim_prefix (f ! 2) ''0x'') of
          None \<Rightarrow> None
        | Some flags \<Rightarrow>
            if flags AND atf_complete = 0 \<or> f ! 3 = ''00:00:00:00:00:00'' then None
            else Some \<lparr>arp_ip = f ! 0, arp_mac = to_lower (f ! 3), arp_interface = f ! 5\<rparr>))"

text \<open>The content of the file, \<^const>\<open>None\<close> when it cannot be opened; the result has the
  entries and whether there was an error.\<close>

definition read_arp_table_from :: "string option \<Rightarrow> arp_entry list \<times> bool" where
  "read_arp_table_from file =
     (case file of
        None \<Rightarrow> ([], True)
      | Some s \<Rightarrow> (case scan_lines s of (ls, ok) \<Rightarrow>
          (map the (filter (\<lambda>e. e \<noteq> None) (map parse_arp_line (drop 1 ls))), \<not> ok)))"

section \<open>Interfaces and connection tracking\<close>

text \<open>The files under \<open>/sys\<close> and \<open>/proc\<close> are a function from paths to contents.\<close>

record interface =
  if_name :: string
  if_up :: bool
  if_carrier :: bool
  if_speed :: string
  if_rx_bytes :: nat
  if_tx_bytes :: nat
  if_addr :: string

definition read_trimmed :: "(string \<Rightarrow> string option) \<Rightarrow> string \<Rightarrow> string option" where
  "read_trimmed files path = map_option trim_space (files path)"

definition read_uint :: "(string \<Rightarrow> string option) \<Rightarrow> string \<Rightarrow> nat" where
  "read_uint files path =
     (case read_trimmed files path of
        None \<Rightarrow> 0 | Some s \<Rightarrow> (case parse_uint s of None \<Rightarrow> 0 | Some v \<Rightarrow> v))"

text \<open>The addresses of an interface as \<open>net.Interface.Addrs\<close> lists them, \<^const>\<open>None\<close> on error.\<close>

definition read_addr :: "ip list option \<Rightarrow> string" where
  "read_addr addrs =
     (case addrs of None \<Rightarrow> ''''
      | Some as \<Rightarrow> (case find (\<lambda>a. to4 a \<noteq> []) as of None \<Rightarrow> '''' | Some a \<Rightarrow> ip_string (to4 a)))"

definition stat_interface ::
  "(string \<Rightarrow> string option) \<Rightarrow> (string \<Rightarrow> ip list option) \<Rightarrow> string \<Rightarrow> interface \<times> bool" where
  "stat_interface files addrs name =
     (let base = ''/sys/class/net/'' @ name in
      case read_trimmed files (base @ ''/operstate'') of
        None \<Rightarrow> (\<lparr>if_name = name, if_up = False, if_carrier = False, if_speed = '''', if_rx_bytes = 0,
                 if_tx_bytes = 0, if_addr = ''''\<rparr>, False)
      | Some st \<Rightarrow>
          (\<lparr>if_name = name, if_up = (st = ''up''),
             if_carrier = (read_trimmed files (base @ ''/carrier'') = Some ''1''),
             if_speed = (case read_trimmed files (base @ ''/speed'') of
                 Some sp \<Rightarrow> if sp \<noteq> '''' \<and> sp \<noteq> ''-1'' then sp @ '' Mb/s'' else ''n/a''
               | None \<Rightarrow> ''n/a''),
             if_rx_bytes = read_uint files (base @ ''/statistics/rx_bytes''),
             if_tx_bytes = read_uint files (base @ ''/statistics/tx_bytes''),
             if_addr = read_addr (addrs name)\<rparr>, True))"

definition read_proc_int :: "(string \<Rightarrow> string option) \<Rightarrow> string \<Rightarrow> int \<times> bool" where
  "read_proc_int files path =
     (case files path of None \<Rightarrow> (0, False) | Some b \<Rightarrow> atoi (trim_space b))"

definition conntrack_stats :: "(string \<Rightarrow> string option) \<Rightarrow> int \<times> int \<times> bool" where
  "conntrack_stats files =
     (case read_proc_int files ''/proc/sys/net/netfilter/nf_conntrack_count'' of
        (n, False) \<Rightarrow> (0, 0, False)
      | (n, True) \<Rightarrow>
          (case read_proc_int files ''/proc/sys/net/netfilter/nf_conntrack_max'' of
             (m, False) \<Rightarrow> (n, 0, False) | (m, True) \<Rightarrow> (n, m, True)))"

end
