(* ===== verification/Dhcp_Server.thy ===== *)
theory Dhcp_Server
  imports Config Dhcp_Packet Netstat
begin

text \<open>
  The DHCP server of one LAN segment, \<open>internal/dhcp/server.go\<close>: the packet handlers, the
  address allocator with its scan of the pool, the DECLINE quarantine and the broadcast
  address. A handler reads the clock and the ARP table once (\<open>dhcp_env\<close>) and runs without
  interference. Replies are the list of datagrams sent, each with its destination.

  The pool scan is a loop over 32-bit addresses that wraps around when the pool ends at
  255.255.255.255, so it is a \<open>partial_function\<close>: \<^const>\<open>None\<close> is a loop that never ends.
\<close>

section \<open>State\<close>

record dhcp_server =
  srv_segment_id :: string
  srv_declined :: "string \<rightharpoonup> int"

text \<open>Times are in nanoseconds since the epoch; \<open>Unix()\<close> rounds down to seconds.
  \<^const>\<open>None\<close> for the ARP table is a failed read.\<close>

record dhcp_env =
  env_now :: int
  env_arp :: "arp_entry list option"

definition unix :: "int \<Rightarrow> int" where
  "unix t = t div 1000000000"

definition decline_quarantine :: int where
  "decline_quarantine = 10 * 60 * 1000000000"

datatype dhcp_error = SegmentGone string | CfgError cfg_error | PoolExhausted | Panic

definition new_server :: "string \<Rightarrow> dhcp_server" where
  "new_server i = \<lparr>srv_segment_id = i, srv_declined = Map.empty\<rparr>"

definition segment :: "dhcp_server \<Rightarrow> store \<Rightarrow> dhcp_error + lan_segment" where
  "segment srv cfg =
     (case segment_by_id (srv_segment_id srv) cfg of
        None \<Rightarrow> Inl (SegmentGone (srv_segment_id srv)) | Some g \<Rightarrow> Inr g)"

definition server_ip :: "dhcp_server \<Rightarrow> store \<Rightarrow> dhcp_error + ip" where
  "server_ip srv cfg =
     (case segment srv cfg of Inl e \<Rightarrow> Inl e | Inr g \<Rightarrow> Inr (parse_ip (seg_address g)))"

section \<open>The DECLINE quarantine\<close>

text \<open>A message that names another server is not for this one.\<close>

definition other_server :: "dhcp_server \<Rightarrow> store \<Rightarrow> packet \<Rightarrow> bool" where
  "other_server srv cfg pkt \<longleftrightarrow> p_server_id pkt \<noteq> [] \<and>
     (case server_ip srv cfg of Inl _ \<Rightarrow> False | Inr sid \<Rightarrow> \<not> ip_equal (p_server_id pkt) sid)"

definition handle_decline :: "dhcp_env \<Rightarrow> store \<Rightarrow> dhcp_server \<Rightarrow> packet \<Rightarrow> dhcp_server" where
  "handle_decline env cfg srv pkt =
     (if other_server srv cfg pkt then srv
      else if p_requested_ip pkt = [] then srv
      else srv\<lparr>srv_declined := (srv_declined srv)
             (ip_string (p_requested_ip pkt) \<mapsto> env_now env + decline_quarantine)\<rparr>)"

definition is_declined :: "int \<Rightarrow> string \<Rightarrow> dhcp_server \<Rightarrow> bool \<times> dhcp_server" where
  "is_declined now i srv =
     (case srv_declined srv i of
        None \<Rightarrow> (False, srv)
      | Some until \<Rightarrow>
          if until < now then (False, srv\<lparr>srv_declined := (srv_declined srv)(i := None)\<rparr>)
          else (True, srv))"

section \<open>Addresses\<close>

definition arp_taken_from_entries :: "arp_entry list \<Rightarrow> string \<Rightarrow> string \<Rightarrow> string list" where
  "arp_taken_from_entries es iface exclude =
     map arp_ip (filter (\<lambda>e. arp_interface e = iface \<and> arp_mac e \<noteq> exclude) es)"

definition arp_taken_ips :: "dhcp_env \<Rightarrow> string \<Rightarrow> string \<Rightarrow> string list" where
  "arp_taken_ips env iface exclude =
     (case env_arp env of None \<Rightarrow> [] | Some es \<Rightarrow> arp_taken_from_entries es iface exclude)"

text \<open>\<open>ipLTE\<close> and \<open>nextIP\<close> panic on an address that is too short (\<^const>\<open>None\<close>).\<close>

definition ip_lte :: "ip \<Rightarrow> ip \<Rightarrow> bool option" where
  "ip_lte a b =
     (case be_uint32 (to4 a) of None \<Rightarrow> None
      | Some x \<Rightarrow> (case be_uint32 (to4 b) of None \<Rightarrow> None | Some y \<Rightarrow> Some (x \<le> y)))"

definition next_ip :: "ip \<Rightarrow> ip option" where
  "next_ip i = (case be_uint32 i of None \<Rightarrow> None | Some v \<Rightarrow> Some (be_bytes32 (v + 1) @ drop 4 i))"

definition directed_broadcast :: "ip \<Rightarrow> byte list \<Rightarrow> ip" where
  "directed_broadcast i m =
     (if to4 i = [] \<or> to4 m = [] then v4_in_v6_prefix @ [255, 255, 255, 255]
      else map2 (\<lambda>a b. a OR NOT b) (to4 i) (to4 m))"

definition in_pool :: "dhcp_server \<Rightarrow> store \<Rightarrow> ip \<Rightarrow> bool option" where
  "in_pool srv cfg i =
     (case parse_pool_range (srv_segment_id srv) cfg of
        Inl _ \<Rightarrow> Some False
      | Inr (start, stop) \<Rightarrow>
          (case ip_lte start i of
             None \<Rightarrow> None
           | Some lo \<Rightarrow> if lo then ip_lte i stop else Some False))"

section \<open>Allocation\<close>

text \<open>One round of the scan: the chain of \<open>continue\<close>s, in the code's order.\<close>

definition candidate_ok ::
  "int \<Rightarrow> store \<Rightarrow> string \<Rightarrow> lan_segment \<Rightarrow> string list \<Rightarrow> string \<Rightarrow> dhcp_server \<Rightarrow> bool \<times> dhcp_server"
  where
  "candidate_ok now cfg mac seg taken candidate srv =
     (if candidate = seg_address seg then (False, srv)
      else if ip_in_use candidate mac cfg then (False, srv)
      else if candidate \<in> set taken then (False, srv)
      else (case is_declined now candidate srv of (d, srv') \<Rightarrow> (\<not> d, srv')))"

partial_function (option) scan_pool ::
  "int \<Rightarrow> store \<Rightarrow> string \<Rightarrow> lan_segment \<Rightarrow> string list \<Rightarrow> ip \<Rightarrow> ip \<Rightarrow> dhcp_server
   \<Rightarrow> ((dhcp_error + ip) \<times> dhcp_server) option"
  where
  "scan_pool now cfg mac seg taken i stop srv =
     (case ip_lte i stop of
        None \<Rightarrow> Some (Inl Panic, srv)
      | Some le \<Rightarrow>
          if \<not> le then Some (Inl PoolExhausted, srv)
          else (case candidate_ok now cfg mac seg taken (ip_string i) srv of (ok, srv') \<Rightarrow>
                  if ok then Some (Inr i, srv')
                  else (case next_ip i of
                          None \<Rightarrow> Some (Inl Panic, srv')
                        | Some i' \<Rightarrow> scan_pool now cfg mac seg taken i' stop srv')))"

declare scan_pool.simps [code]

definition allocate_from_pool ::
  "dhcp_env \<Rightarrow> store \<Rightarrow> string \<Rightarrow> lan_segment \<Rightarrow> string list \<Rightarrow> dhcp_server
   \<Rightarrow> ((dhcp_error + ip) \<times> dhcp_server) option" where
  "allocate_from_pool env cfg mac seg taken srv =
     (case parse_pool_range (srv_segment_id srv) cfg of
        Inl e \<Rightarrow> Some (Inl (CfgError e), srv)
      | Inr (start, stop) \<Rightarrow> scan_pool (env_now env) cfg mac seg taken start stop srv)"

text \<open>The second part of \<open>allocate\<close>, for a client without a reservation or usable lease.\<close>

definition allocate_dynamic ::
  "dhcp_env \<Rightarrow> store \<Rightarrow> dhcp_server \<Rightarrow> string \<Rightarrow> ip \<Rightarrow> ((dhcp_error + ip) \<times> dhcp_server) option"
  where
  "allocate_dynamic env cfg srv mac requested =
     (case segment srv cfg of
        Inl e \<Rightarrow> Some (Inl e, srv)
      | Inr seg \<Rightarrow>
          let taken = arp_taken_ips env (seg_interface seg) mac; r = ip_string requested in
          if requested = [] then allocate_from_pool env cfg mac seg taken srv
          else (case in_pool srv cfg requested of
                  None \<Rightarrow> Some (Inl Panic, srv)
                | Some inside \<Rightarrow>
                    if inside \<and> \<not> ip_in_use r mac cfg \<and> r \<notin> set taken then
                      (case is_declined (env_now env) r srv of (d, srv') \<Rightarrow>
                         if d then allocate_from_pool env cfg mac seg taken srv'
                         else Some (Inr requested, srv'))
                    else allocate_from_pool env cfg mac seg taken srv))"

text \<open>The two early returns: a reservation of this segment, a usable lease of this segment.\<close>

definition reserved_ip :: "store \<Rightarrow> dhcp_server \<Rightarrow> string \<Rightarrow> string option" where
  "reserved_ip cfg srv mac =
     (case reservation_for_mac mac cfg of
        Some r \<Rightarrow> if res_segment_id r = srv_segment_id srv then Some (res_ip r) else None
      | None \<Rightarrow> None)"

definition leased_ip :: "dhcp_env \<Rightarrow> store \<Rightarrow> dhcp_server \<Rightarrow> string \<Rightarrow> ip \<Rightarrow> string option" where
  "leased_ip env cfg srv mac requested =
     (case lease_for_mac mac cfg of
        Some l \<Rightarrow>
          if lease_segment_id l = srv_segment_id srv \<and>
             (unix (env_now env) < lease_expires_at l \<or> requested = [] \<or>
              ip_string requested = lease_ip l)
          then Some (lease_ip l) else None
      | None \<Rightarrow> None)"

definition allocate ::
  "dhcp_env \<Rightarrow> store \<Rightarrow> dhcp_server \<Rightarrow> string \<Rightarrow> ip \<Rightarrow> ((dhcp_error + ip) \<times> dhcp_server) option"
  where
  "allocate env cfg srv mac requested =
     (case reserved_ip cfg srv mac of
        Some i \<Rightarrow> Some (Inr (parse_ip i), srv)
      | None \<Rightarrow>
          (case leased_ip env cfg srv mac requested of
             Some i \<Rightarrow> Some (Inr (parse_ip i), srv)
           | None \<Rightarrow> allocate_dynamic env cfg srv mac requested))"

section \<open>Handlers\<close>

type_synonym datagram = "ip \<times> byte list"

definition build_offer_or_ack ::
  "dhcp_server \<Rightarrow> store \<Rightarrow> packet \<Rightarrow> ip \<Rightarrow> byte \<Rightarrow> dhcp_error + byte list" where
  "build_offer_or_ack srv cfg req i mt =
     (case segment srv cfg of
        Inl e \<Rightarrow> Inl e
      | Inr seg \<Rightarrow>
          Inr (build_reply req \<lparr>o_message_type = mt, o_your_ip = i,
                 o_server_id = parse_ip (seg_address seg),
                 o_subnet_mask = parse_ip (seg_subnet_mask seg),
                 o_router = parse_ip (seg_address seg),
                 o_dns_server = parse_ip (seg_address seg),
                 o_lease_time = word_of_int (lease_seconds (dat cfg))\<rparr>))"

definition send :: "dhcp_server \<Rightarrow> store \<Rightarrow> byte list \<Rightarrow> datagram list" where
  "send srv cfg b =
     (case segment srv cfg of
        Inl _ \<Rightarrow> []
      | Inr seg \<Rightarrow>
          [(directed_broadcast (parse_ip (seg_address seg)) (parse_ip (seg_subnet_mask seg)), b)])"

definition handle_discover ::
  "dhcp_env \<Rightarrow> store \<Rightarrow> dhcp_server \<Rightarrow> packet \<Rightarrow> (dhcp_server \<times> datagram list) option" where
  "handle_discover env cfg srv pkt =
     (case allocate env cfg srv (mac_string (p_chaddr pkt)) (p_requested_ip pkt) of
        None \<Rightarrow> None
      | Some (Inl _, srv') \<Rightarrow> Some (srv', [])
      | Some (Inr i, srv') \<Rightarrow>
          (case build_offer_or_ack srv' cfg pkt i Offer of
             Inl _ \<Rightarrow> Some (srv', [])
           | Inr b \<Rightarrow> Some (srv', send srv' cfg b)))"

definition ipv4_zero :: ip where
  "ipv4_zero = v4_in_v6_prefix @ [0, 0, 0, 0]"

definition want_ip :: "packet \<Rightarrow> ip" where
  "want_ip pkt =
     (if p_requested_ip pkt \<noteq> [] then p_requested_ip pkt
      else if \<not> ip_equal (p_ciaddr pkt) ipv4_zero then p_ciaddr pkt else [])"

text \<open>\<open>time.Duration(LeaseSeconds) * time.Second\<close> is a product of 64-bit integers.\<close>

definition lease_duration :: "int \<Rightarrow> int" where
  "lease_duration secs = sint (word_of_int (secs * 1000000000) :: 64 word)"

definition granted_lease :: "dhcp_env \<Rightarrow> store \<Rightarrow> dhcp_server \<Rightarrow> packet \<Rightarrow> ip \<Rightarrow> lease" where
  "granted_lease env cfg srv pkt i =
     \<lparr>lease_mac = mac_string (p_chaddr pkt), lease_ip = ip_string i,
      lease_hostname = (if p_hostname pkt = '''' then ''(unknown)'' else p_hostname pkt),
      lease_expires_at = unix (env_now env + lease_duration (lease_seconds (dat cfg))),
      lease_segment_id = srv_segment_id srv\<rparr>"

definition send_nak :: "dhcp_server \<Rightarrow> store \<Rightarrow> packet \<Rightarrow> datagram list" where
  "send_nak srv cfg pkt =
     (case server_ip srv cfg of
        Inl _ \<Rightarrow> []
      | Inr sid \<Rightarrow> send srv cfg (build_reply pkt \<lparr>o_message_type = NAK, o_your_ip = [],
            o_server_id = sid, o_subnet_mask = [], o_router = [], o_dns_server = [],
            o_lease_time = 0\<rparr>))"

definition handle_request ::
  "dhcp_env \<Rightarrow> store \<Rightarrow> dhcp_server \<Rightarrow> packet \<Rightarrow> (store \<times> dhcp_server \<times> datagram list) option" where
  "handle_request env cfg srv pkt =
     (if other_server srv cfg pkt then Some (cfg, srv, [])
      else (case allocate env cfg srv (mac_string (p_chaddr pkt)) (want_ip pkt) of
          None \<Rightarrow> None
        | Some (Inl _, srv') \<Rightarrow> Some (cfg, srv', send_nak srv' cfg pkt)
        | Some (Inr i, srv') \<Rightarrow>
            if want_ip pkt \<noteq> [] \<and> \<not> ip_equal i (want_ip pkt)
            then Some (cfg, srv', send_nak srv' cfg pkt)
            else (case build_offer_or_ack srv' cfg pkt i ACK of
                    Inl _ \<Rightarrow> Some (cfg, srv', [])
                  | Inr b \<Rightarrow> Some (upsert_lease (granted_lease env cfg srv' pkt i) cfg, srv',
                                   send srv' cfg b))))"

definition handle ::
  "dhcp_env \<Rightarrow> store \<Rightarrow> dhcp_server \<Rightarrow> packet \<Rightarrow> (store \<times> dhcp_server \<times> datagram list) option" where
  "handle env cfg srv pkt =
     (if p_message_type pkt = Discover then
        (case handle_discover env cfg srv pkt of
           None \<Rightarrow> None | Some (srv', out) \<Rightarrow> Some (cfg, srv', out))
      else if p_message_type pkt = Request then handle_request env cfg srv pkt
      else if p_message_type pkt = Decline then Some (cfg, handle_decline env cfg srv pkt, [])
      else Some (cfg, srv, []))"

text \<open>One turn of the read loop in \<open>Run\<close>: a datagram that does not parse is dropped.\<close>

definition serve ::
  "dhcp_env \<Rightarrow> store \<Rightarrow> dhcp_server \<Rightarrow> byte list \<Rightarrow> (store \<times> dhcp_server \<times> datagram list) option" where
  "serve env cfg srv b =
     (case parse_packet (take 1500 b) of
        Inl _ \<Rightarrow> Some (cfg, srv, []) | Inr pkt \<Rightarrow> handle env cfg srv pkt)"

end
