(* ===== verification/Dhcp_Alloc.thy ===== *)
theory Dhcp_Alloc
  imports Dhcp_Server
begin

text \<open>
  The allocator against its specification: which addresses are usable for a client, the
  pool scan as the first usable address of the range, termination of the scan unless the
  pool ends at 255.255.255.255, and completeness (the pool is exhausted only when no
  address of it is usable).
\<close>

section \<open>The quarantine as a predicate\<close>

definition quarantined :: "int \<Rightarrow> dhcp_server \<Rightarrow> string \<Rightarrow> bool" where
  "quarantined now srv i \<longleftrightarrow> (case srv_declined srv i of None \<Rightarrow> False | Some u \<Rightarrow> now \<le> u)"

text \<open>Two server states that a handler cannot tell apart at this time.\<close>

definition srv_equiv :: "int \<Rightarrow> dhcp_server \<Rightarrow> dhcp_server \<Rightarrow> bool" where
  "srv_equiv now s t \<longleftrightarrow>
     srv_segment_id s = srv_segment_id t \<and> quarantined now s = quarantined now t"

lemma srv_equiv_refl [simp, intro]: "srv_equiv now s s"
  by (simp add: srv_equiv_def)

lemma srv_equiv_trans [trans]: "srv_equiv now s t \<Longrightarrow> srv_equiv now t u \<Longrightarrow> srv_equiv now s u"
  by (simp add: srv_equiv_def)

lemma srv_equiv_segment_id: "srv_equiv now s t \<Longrightarrow> srv_segment_id s = srv_segment_id t"
  by (simp add: srv_equiv_def)

lemma is_declined_result:
  "is_declined now i srv = (d, srv') \<Longrightarrow> d = quarantined now srv i \<and> srv_equiv now srv' srv"
  by (auto simp: is_declined_def quarantined_def srv_equiv_def fun_eq_iff
      split: option.splits if_splits)

section \<open>Usable addresses\<close>

definition usable ::
  "int \<Rightarrow> store \<Rightarrow> string \<Rightarrow> lan_segment \<Rightarrow> string list \<Rightarrow> dhcp_server \<Rightarrow> ip \<Rightarrow> bool" where
  "usable now cfg mac seg taken srv i \<longleftrightarrow>
     ip_string i \<noteq> seg_address seg \<and> \<not> ip_in_use (ip_string i) mac cfg \<and>
     ip_string i \<notin> set taken \<and> \<not> quarantined now srv (ip_string i)"

lemma candidate_ok_result:
  "candidate_ok now cfg mac seg taken (ip_string i) srv = (ok, srv') \<Longrightarrow>
   ok = usable now cfg mac seg taken srv i \<and> srv_equiv now srv' srv"
  by (auto simp: candidate_ok_def usable_def split: if_splits prod.splits dest: is_declined_result)

lemma usable_equiv: "srv_equiv now s t \<Longrightarrow> usable now cfg mac seg taken s = usable now cfg mac seg taken t"
  by (simp add: usable_def srv_equiv_def fun_eq_iff)

section \<open>Addresses as 32-bit numbers\<close>

lemma be_uint32_be_bytes32 [simp]: "be_uint32 (be_bytes32 v) = Some v"
  using be_uint32_bytes [of v "[]"] by simp

lemma ip_lte_bytes [simp]: "ip_lte (be_bytes32 a) (be_bytes32 b) = Some (a \<le> b)"
  by (simp add: ip_lte_def)

lemma next_ip_bytes [simp]: "next_ip (be_bytes32 a) = Some (be_bytes32 (a + 1))"
  by (simp add: next_ip_def)

definition pool_addrs :: "u32 \<Rightarrow> u32 \<Rightarrow> u32 list" where
  "pool_addrs a z = map of_nat [unat a..<Suc (unat z)]"

lemma set_pool_addrs: "set (pool_addrs a z) = {a..z}"
proof -
  have "v \<in> set (pool_addrs a z) \<longleftrightarrow> a \<le> v \<and> v \<le> z" for v
  proof
    assume "v \<in> set (pool_addrs a z)"
    then obtain n where n: "v = of_nat n" "unat a \<le> n" "n \<le> unat z"
      by (auto simp: pool_addrs_def)
    moreover have "n < 2 ^ LENGTH(32)"
      using n(3) unsigned_less [of z, where ?'a = nat] by (rule le_less_trans)
    ultimately show "a \<le> v \<and> v \<le> z" by (simp add: word_le_nat_alt unat_of_nat)
  next
    assume "a \<le> v \<and> v \<le> z"
    then have "unat v \<in> set [unat a..<Suc (unat z)]"
      by (auto simp: word_le_nat_alt simp del: upt_Suc)
    then have "of_nat (unat v) \<in> set (map of_nat [unat a..<Suc (unat z)] :: u32 list)"
      unfolding set_map by (rule imageI)
    then show "v \<in> set (pool_addrs a z)" by (simp add: pool_addrs_def del: upt_Suc)
  qed
  then show ?thesis by (intro set_eqI) (simp only: atLeastAtMost_iff)
qed

lemma pool_addrs_Cons:
  assumes "a \<le> z" "z \<noteq> - 1"
  shows "pool_addrs a z = a # pool_addrs (a + 1) z"
proof -
  have "unat a \<le> unat z" using assms(1) by (simp add: word_le_nat_alt)
  moreover have "a \<noteq> - 1"
    using assms by (metis word_order.extremum_uniqueI)
  then have "unat (a + 1) = Suc (unat a)" by (simp add: unat_eq_zero unatSuc add.commute eq_neg_iff_add_eq_0)
  ultimately show ?thesis by (simp add: pool_addrs_def upt_conv_Cons del: upt_Suc)
qed

section \<open>The scan finds the first usable address\<close>

lemma scan_pool_find:
  assumes "z \<noteq> - 1"
  shows "\<exists>srv'. srv_equiv now srv' srv \<and>
     scan_pool now cfg mac seg taken (be_bytes32 a) (be_bytes32 z) srv =
     Some (case find (\<lambda>v. usable now cfg mac seg taken srv (be_bytes32 v)) (pool_addrs a z) of
             None \<Rightarrow> Inl PoolExhausted | Some v \<Rightarrow> Inr (be_bytes32 v), srv')"
proof (induction "Suc (unat z) - unat a" arbitrary: a srv)
  case 0
  then have "\<not> a \<le> z" by (simp add: word_le_nat_alt)
  moreover from 0 have "pool_addrs a z = []" by (simp add: pool_addrs_def)
  ultimately show ?case by (subst scan_pool.simps) auto
next
  case (Suc k)
  then have le: "a \<le> z" by (simp add: word_le_nat_alt)
  have next1: "unat (a + 1) = Suc (unat a)"
    using le assms by (metis word_order.extremum_uniqueI add.commute unatSuc
        add_eq_0_iff2 minus_equation_iff)
  obtain ok srv1 where c: "candidate_ok now cfg mac seg taken (ip_string (be_bytes32 a)) srv = (ok, srv1)"
    by fastforce
  note r = candidate_ok_result [OF c]
  show ?case
  proof (cases ok)
    case True
    with r c le show ?thesis
      by (subst scan_pool.simps) (auto simp: pool_addrs_Cons [OF le assms])
  next
    case False
    have "k = Suc (unat z) - unat (a + 1)" using Suc.hyps(2) next1 by simp
    from Suc.hyps(1) [OF this, of srv1] obtain srv' where s: "srv_equiv now srv' srv1" and
      e: "scan_pool now cfg mac seg taken (be_bytes32 (a + 1)) (be_bytes32 z) srv1 =
       Some (case find (\<lambda>v. usable now cfg mac seg taken srv1 (be_bytes32 v)) (pool_addrs (a + 1) z) of
             None \<Rightarrow> Inl PoolExhausted | Some v \<Rightarrow> Inr (be_bytes32 v), srv')" by blast
    have u: "usable now cfg mac seg taken srv1 = usable now cfg mac seg taken srv"
      using r by (blast intro: usable_equiv)
    from False r c le e s show ?thesis
      by (subst scan_pool.simps)
         (auto simp: pool_addrs_Cons [OF le assms] u intro: srv_equiv_trans)
  qed
qed

text \<open>The two halves of the specification: what an answer is, and when there is none.\<close>

lemma scan_pool_Inr:
  assumes "z \<noteq> - 1" "scan_pool now cfg mac seg taken (be_bytes32 a) (be_bytes32 z) srv = Some (Inr i, srv')"
  obtains v where "i = be_bytes32 v" "a \<le> v" "v \<le> z" "usable now cfg mac seg taken srv i"
proof -
  from scan_pool_find [OF assms(1), of now srv cfg mac seg taken a] assms(2) obtain v where
    v: "find (\<lambda>v. usable now cfg mac seg taken srv (be_bytes32 v)) (pool_addrs a z) = Some v"
    and i: "i = be_bytes32 v"
    by (auto split: option.splits)
  from v have "v \<in> set (pool_addrs a z)" "usable now cfg mac seg taken srv (be_bytes32 v)"
    by (auto simp: find_Some_iff)
  with i show ?thesis by (intro that) (auto simp: set_pool_addrs)
qed

lemma scan_pool_Inl:
  assumes "z \<noteq> - 1" "scan_pool now cfg mac seg taken (be_bytes32 a) (be_bytes32 z) srv = Some (Inl e, srv')"
  shows "e = PoolExhausted \<and> (\<forall>v. a \<le> v \<and> v \<le> z \<longrightarrow> \<not> usable now cfg mac seg taken srv (be_bytes32 v))"
proof -
  from scan_pool_find [OF assms(1), of now srv cfg mac seg taken a] assms(2)
  have "e = PoolExhausted"
    "find (\<lambda>v. usable now cfg mac seg taken srv (be_bytes32 v)) (pool_addrs a z) = None"
    by (auto split: option.splits)
  then show ?thesis by (auto simp: find_None_iff set_pool_addrs)
qed

section \<open>Dynamic allocation\<close>

text \<open>What the code checks of an address it is asked for: everything but the gateway.\<close>

definition free_addr ::
  "int \<Rightarrow> store \<Rightarrow> string \<Rightarrow> string list \<Rightarrow> dhcp_server \<Rightarrow> ip \<Rightarrow> bool" where
  "free_addr now cfg mac taken srv i \<longleftrightarrow> \<not> ip_in_use (ip_string i) mac cfg \<and>
     ip_string i \<notin> set taken \<and> \<not> quarantined now srv (ip_string i)"

lemma usable_free: "usable now cfg mac seg taken srv i \<longleftrightarrow>
    free_addr now cfg mac taken srv i \<and> ip_string i \<noteq> seg_address seg"
  by (auto simp: usable_def free_addr_def)

text \<open>The pool of a server's segment, as numbers.\<close>

definition pool_of :: "dhcp_server \<Rightarrow> store \<Rightarrow> (u32 \<times> u32) option" where
  "pool_of srv cfg =
     (case parse_pool_range (srv_segment_id srv) cfg of
        Inl _ \<Rightarrow> None
      | Inr (s, e) \<Rightarrow>
          (case be_uint32 s of None \<Rightarrow> None
           | Some a \<Rightarrow> (case be_uint32 e of None \<Rightarrow> None | Some z \<Rightarrow> Some (a, z))))"

lemma pool_of_range:
  assumes "pool_of srv cfg = Some (a, z)"
  shows "parse_pool_range (srv_segment_id srv) cfg = Inr (be_bytes32 a, be_bytes32 z)"
proof -
  from assms obtain s e where r: "parse_pool_range (srv_segment_id srv) cfg = Inr (s, e)"
    and "be_uint32 s = Some a" "be_uint32 e = Some z"
    by (auto simp: pool_of_def split: sum.splits option.splits)
  moreover from r have "length s = 4" "length e = 4"
    by (auto simp: parse_pool_range_def Let_def length_to4 split: option.splits if_splits)
  ultimately have "s = be_bytes32 a" "e = be_bytes32 z"
    by (metis be_uint32_len4 option.inject)+
  with r show ?thesis by simp
qed

lemma pool_of_equiv: "srv_equiv now s t \<Longrightarrow> pool_of s cfg = pool_of t cfg"
  by (simp add: pool_of_def srv_equiv_def)

text \<open>
  The contract of dynamic allocation: it always ends, with an address of the pool that
  nobody else holds, uses or declined, or with \<^const>\<open>PoolExhausted\<close> and then no address
  of the pool is usable.
\<close>

definition dynamic_ok ::
  "dhcp_env \<Rightarrow> store \<Rightarrow> dhcp_server \<Rightarrow> string \<Rightarrow> lan_segment \<Rightarrow> u32 \<Rightarrow> u32 \<Rightarrow> dhcp_error + ip \<Rightarrow> bool"
  where
  "dynamic_ok env cfg srv mac seg a z res \<longleftrightarrow>
     (let taken = arp_taken_ips env (seg_interface seg) mac in
      case res of
        Inr i \<Rightarrow> (\<exists>v. i = be_bytes32 v \<and> a \<le> v \<and> v \<le> z) \<and>
                 free_addr (env_now env) cfg mac taken srv i
      | Inl e \<Rightarrow> e = PoolExhausted \<and>
          (\<forall>v. a \<le> v \<and> v \<le> z \<longrightarrow> \<not> usable (env_now env) cfg mac seg taken srv (be_bytes32 v)))"

lemma allocate_from_pool_ok:
  assumes "pool_of srv cfg = Some (a, z)" "z \<noteq> - 1"
    and "taken = arp_taken_ips env (seg_interface seg) mac"
  shows "\<exists>res srv'. allocate_from_pool env cfg mac seg taken srv = Some (res, srv') \<and>
    srv_equiv (env_now env) srv' srv \<and> dynamic_ok env cfg srv mac seg a z res"
proof -
  obtain res srv' where e: "srv_equiv (env_now env) srv' srv"
    and s: "scan_pool (env_now env) cfg mac seg taken (be_bytes32 a) (be_bytes32 z) srv = Some (res, srv')"
    using scan_pool_find [OF assms(2)] by blast
  have "dynamic_ok env cfg srv mac seg a z res"
  proof (cases res)
    case (Inl x)
    with s scan_pool_Inl [OF assms(2)] show ?thesis by (auto simp: dynamic_ok_def assms(3) Let_def)
  next
    case (Inr i)
    with s have "scan_pool (env_now env) cfg mac seg taken (be_bytes32 a) (be_bytes32 z) srv =
      Some (Inr i, srv')" by simp
    then obtain v where "i = be_bytes32 v" "a \<le> v" "v \<le> z"
      "usable (env_now env) cfg mac seg taken srv i"
      by (rule scan_pool_Inr [OF assms(2)])
    with Inr show ?thesis by (auto simp: dynamic_ok_def assms(3) Let_def usable_free)
  qed
  with e s show ?thesis
    by (simp add: allocate_from_pool_def pool_of_range [OF assms(1)])
qed

lemma in_pool_bytes:
  assumes "pool_of srv cfg = Some (a, z)"
  shows "in_pool srv cfg (be_bytes32 v) = Some (a \<le> v \<and> v \<le> z)"
  by (simp add: in_pool_def pool_of_range [OF assms])

lemma dynamic_ok_equiv:
  assumes "srv_equiv (env_now env) s t"
  shows "dynamic_ok env cfg s mac seg a z res = dynamic_ok env cfg t mac seg a z res"
proof -
  have "quarantined (env_now env) s = quarantined (env_now env) t"
    using assms by (simp add: srv_equiv_def)
  then show ?thesis
    by (simp add: dynamic_ok_def free_addr_def usable_def Let_def cong: sum.case_cong)
qed

lemma allocate_dynamic_ok:
  assumes "segment srv cfg = Inr seg" "pool_of srv cfg = Some (a, z)" "z \<noteq> - 1"
    and "requested = [] \<or> length requested = 4"
  shows "\<exists>res srv'. allocate_dynamic env cfg srv mac requested = Some (res, srv') \<and>
    srv_equiv (env_now env) srv' srv \<and> dynamic_ok env cfg srv mac seg a z res"
proof -
  define taken where "taken = arp_taken_ips env (seg_interface seg) mac"
  note pool = allocate_from_pool_ok [OF _ assms(3) taken_def]
  show ?thesis
  proof (cases "requested = []")
    case True
    with pool [OF assms(2)] show ?thesis
      by (simp add: allocate_dynamic_def assms(1) taken_def)
  next
    case False
    with assms(4) obtain v where v: "requested = be_bytes32 v" by (metis be_uint32_len4)
    obtain d srv1 where d: "is_declined (env_now env) (ip_string requested) srv = (d, srv1)"
      by fastforce
    note r = is_declined_result [OF d]
    have p1: "pool_of srv1 cfg = Some (a, z)" using r assms(2) by (metis pool_of_equiv)
    have from1: "\<exists>res srv'. allocate_from_pool env cfg mac seg taken srv1 = Some (res, srv') \<and>
        srv_equiv (env_now env) srv' srv \<and> dynamic_ok env cfg srv mac seg a z res"
      using pool [OF p1] r by (metis dynamic_ok_equiv srv_equiv_trans)
    define c where "c \<longleftrightarrow> (a \<le> v \<and> v \<le> z) \<and> \<not> ip_in_use (ip_string requested) mac cfg \<and>
        ip_string requested \<notin> set taken"
    have eq: "allocate_dynamic env cfg srv mac requested =
        (if c then if d then allocate_from_pool env cfg mac seg taken srv1
                   else Some (Inr requested, srv1)
         else allocate_from_pool env cfg mac seg taken srv)"
      using False in_pool_bytes [OF assms(2), of v]
      by (simp add: allocate_dynamic_def assms(1) taken_def Let_def c_def d v [symmetric])
    have "dynamic_ok env cfg srv mac seg a z (Inr requested)" if c "\<not> d"
      using that r v by (auto simp: dynamic_ok_def c_def free_addr_def taken_def)
    then show ?thesis
      using eq from1 pool [OF assms(2)] r by (cases c; cases d) auto
  qed
qed

section \<open>The segment of a server\<close>

text \<open>A server stays with its segment.\<close>

lemma candidate_ok_id: "srv_segment_id (snd (candidate_ok now cfg mac seg taken c srv)) = srv_segment_id srv"
  by (auto simp: candidate_ok_def is_declined_def split: option.split)

lemma scan_pool_segment_id:
  assumes "scan_pool now cfg mac seg taken i stop srv = Some r"
  shows "srv_segment_id (snd r) = srv_segment_id srv"
proof (rule scan_pool.raw_induct [OF _ assms, where P = "\<lambda>now cfg mac seg taken i stop srv r.
    srv_segment_id (snd r) = srv_segment_id srv"], goal_cases)
  case (1 scan now cfg mac seg taken i stop srv r)
  obtain ok srv1 where c: "candidate_ok now cfg mac seg taken (ip_string i) srv = (ok, srv1)" by fastforce
  then have "srv_segment_id srv1 = srv_segment_id srv"
    using candidate_ok_id [of now cfg mac seg taken "ip_string i" srv] by simp
  with 1(2) c show ?case by (auto split: option.splits if_splits dest: 1(1))
qed

lemma allocate_segment_id:
  assumes "allocate env cfg srv mac r = Some (res, srv')"
  shows "srv_segment_id srv' = srv_segment_id srv"
proof -
  have d: "srv_segment_id (snd (is_declined n i s)) = srv_segment_id s" for n i s
    by (simp add: is_declined_def split: option.split)
  have p: "srv_segment_id (snd x) = srv_segment_id s" if "allocate_from_pool env cfg mac seg taken s = Some x" for seg taken s x
    using that by (auto simp: allocate_from_pool_def split: sum.splits dest: scan_pool_segment_id)
  obtain b s1 where i: "is_declined (env_now env) (ip_string r) srv = (b, s1)" by fastforce
  then have "srv_segment_id s1 = srv_segment_id srv" using d by (metis snd_conv)
  with i p assms show ?thesis
    by (fastforce simp: allocate_def allocate_dynamic_def Let_def split: option.splits sum.splits if_splits)
qed

lemma serve_segment_id:
  assumes "serve env cfg srv b = Some (cfg', srv', out)"
  shows "srv_segment_id srv' = srv_segment_id srv"
  using assms
  by (auto simp: serve_def handle_def handle_discover_def handle_request_def handle_decline_def
      dest!: allocate_segment_id split: sum.splits option.splits if_splits prod.splits)

end
