(* ===== verification/Dhcp_Safety.thy ===== *)
theory Dhcp_Safety
  imports Dhcp_Alloc
begin

text \<open>
  What the DHCP servers guarantee together: one address book shared by one server per
  segment, a step relation of packets and operator actions, and the invariant that no
  address is held by two clients. The safety half of the allocator needs no assumption on
  the pool; it is proved for every answer the scan gives.
\<close>

section \<open>Every answer of the allocator is free\<close>

lemma ip_lte_to4: "ip_lte a b = Some r \<Longrightarrow> to4 a \<noteq> []"
  by (auto simp: ip_lte_def be_uint32_None split: option.splits)

definition scan_outcome ::
  "int \<Rightarrow> store \<Rightarrow> string \<Rightarrow> lan_segment \<Rightarrow> string list \<Rightarrow> dhcp_server
   \<Rightarrow> (dhcp_error + ip) \<times> dhcp_server \<Rightarrow> bool" where
  "scan_outcome now cfg mac seg taken srv y \<longleftrightarrow> srv_equiv now (snd y) srv \<and>
     (\<forall>j. fst y = Inr j \<longrightarrow> usable now cfg mac seg taken srv j \<and> to4 j \<noteq> [])"

lemma scan_pool_safe:
  assumes "scan_pool now cfg mac seg taken i stop srv = Some y"
  shows "scan_outcome now cfg mac seg taken srv y"
proof (rule scan_pool.raw_induct [where P = "\<lambda>now cfg mac seg taken i stop srv y.
    scan_outcome now cfg mac seg taken srv y", OF _ assms])
  fix f now cfg mac seg taken i stop srv y
  assume ih: "\<And>now cfg mac seg taken i stop srv y. f now cfg mac seg taken i stop srv = Some y
      \<Longrightarrow> scan_outcome now cfg mac seg taken srv y"
    and e: "(case ip_lte i stop of None \<Rightarrow> Some (Inl Panic, srv)
      | Some le \<Rightarrow> if \<not> le then Some (Inl PoolExhausted, srv)
          else (case candidate_ok now cfg mac seg taken (ip_string i) srv of (ok, srv') \<Rightarrow>
            if ok then Some (Inr i, srv')
            else (case next_ip i of None \<Rightarrow> Some (Inl Panic, srv')
              | Some i' \<Rightarrow> f now cfg mac seg taken i' stop srv'))) = Some y"
  obtain ok srv1 where c: "candidate_ok now cfg mac seg taken (ip_string i) srv = (ok, srv1)"
    by fastforce
  note r = candidate_ok_result [OF c]
  have step: "scan_outcome now cfg mac seg taken srv y"
    if "f now cfg mac seg taken i' stop srv1 = Some y" for i'
    using ih [OF that] r
    by (auto simp: scan_outcome_def usable_equiv [of now srv1 srv] intro: srv_equiv_trans)
  show "scan_outcome now cfg mac seg taken srv y"
    using e c r step ip_lte_to4 [of i stop]
    by (auto simp: scan_outcome_def split: option.splits if_splits)
qed

lemma allocate_from_pool_safe:
  "allocate_from_pool env cfg mac seg taken srv = Some y \<Longrightarrow>
   scan_outcome (env_now env) cfg mac seg taken srv y"
  by (auto simp: allocate_from_pool_def scan_outcome_def split: sum.splits
      dest: scan_pool_safe [unfolded scan_outcome_def])

text \<open>What every answer of dynamic allocation satisfies.\<close>

definition dynamic_answer ::
  "dhcp_env \<Rightarrow> store \<Rightarrow> string \<Rightarrow> dhcp_server \<Rightarrow> (dhcp_error + ip) \<times> dhcp_server \<Rightarrow> bool" where
  "dynamic_answer env cfg mac srv y \<longleftrightarrow> srv_equiv (env_now env) (snd y) srv \<and>
     (\<forall>i. fst y = Inr i \<longrightarrow> to4 i \<noteq> [] \<and> (\<exists>seg. segment srv cfg = Inr seg \<and>
        free_addr (env_now env) cfg mac (arp_taken_ips env (seg_interface seg) mac) srv i))"

lemma in_pool_to4: "in_pool srv cfg i = Some True \<Longrightarrow> to4 i \<noteq> []"
  by (auto simp: in_pool_def ip_lte_def be_uint32_None split: sum.splits option.splits if_splits)

lemma allocate_dynamic_safe:
  assumes "allocate_dynamic env cfg srv mac requested = Some y"
  shows "dynamic_answer env cfg mac srv y"
proof (cases "segment srv cfg")
  case (Inl e)
  with assms show ?thesis by (auto simp: allocate_dynamic_def dynamic_answer_def)
next
  case (Inr seg)
  obtain d srv1 where d: "is_declined (env_now env) (ip_string requested) srv = (d, srv1)"
    by fastforce
  note r = is_declined_result [OF d]
  define taken where "taken = arp_taken_ips env (seg_interface seg) mac"
  have q: "quarantined (env_now env) srv1 = quarantined (env_now env) srv"
    using r by (simp add: srv_equiv_def)
  have pool: "dynamic_answer env cfg mac srv y"
    if "allocate_from_pool env cfg mac seg taken s = Some y" "s = srv \<or> s = srv1" for s
    using allocate_from_pool_safe [OF that(1)] that(2) r q Inr
    by (auto simp: scan_outcome_def dynamic_answer_def usable_free free_addr_def taken_def
        intro: srv_equiv_trans)
  show ?thesis
    using assms Inr d r in_pool_to4 [of srv cfg requested]
    by (auto simp: allocate_dynamic_def Let_def taken_def [symmetric] split: if_splits option.splits
        intro: pool) (auto simp: dynamic_answer_def free_addr_def taken_def)
qed

text \<open>What every answer of the allocator, dynamic or not, satisfies.\<close>

definition alloc_answer ::
  "dhcp_env \<Rightarrow> store \<Rightarrow> string \<Rightarrow> dhcp_server \<Rightarrow> (dhcp_error + ip) \<times> dhcp_server \<Rightarrow> bool" where
  "alloc_answer env cfg mac srv y \<longleftrightarrow> srv_equiv (env_now env) (snd y) srv \<and>
     (\<forall>i. fst y = Inr i \<longrightarrow> \<not> ip_in_use (ip_string i) mac cfg \<and> to4 i \<noteq> [])"

lemma dynamic_answer_alloc: "dynamic_answer env cfg mac srv y \<Longrightarrow> alloc_answer env cfg mac srv y"
  by (auto simp: dynamic_answer_def alloc_answer_def free_addr_def)

section \<open>A well-formed address book\<close>

text \<open>Addresses as the server writes them: the text of an IPv4 address.\<close>

definition canonical :: "string \<Rightarrow> bool" where
  "canonical i \<longleftrightarrow> to4 (parse_ip i) \<noteq> [] \<and> ip_string (parse_ip i) = i"

definition book_ok :: "store \<Rightarrow> bool" where
  "book_ok s \<longleftrightarrow> addresses_exclusive s \<and> (\<forall>(m, i) \<in> holders s. canonical i)"

lemma ip_string_to4:
  assumes "to4 i \<noteq> []"
  shows "ip_string i = dotted (to4 i)"
proof -
  have "length i = 4 \<or> length i = 16" using assms by (auto simp: to4_def split: if_splits)
  with assms show ?thesis by (auto simp: ip_string_def)
qed

lemma canonical_ip_string: "to4 i \<noteq> [] \<Longrightarrow> canonical (ip_string i)"
  by (metis canonical_def to4_parse_ip_string ip_string_to4)

lemma reserved_ip_held: "reserved_ip cfg srv mac = Some i \<Longrightarrow> (mac, i) \<in> holders cfg"
  by (auto simp: reserved_ip_def reservation_for_mac_def holders_def
      dest: find_by_key find_by_in split: option.splits if_splits)

lemma leased_ip_held: "leased_ip env cfg srv mac r = Some i \<Longrightarrow> (mac, i) \<in> holders cfg"
  by (auto simp: leased_ip_def lease_for_mac_def holders_def
      dest: find_by_key find_by_in split: option.splits if_splits)

lemma allocate_safe:
  assumes "book_ok cfg" "allocate env cfg srv mac requested = Some y"
  shows "alloc_answer env cfg mac srv y"
proof -
  have held: "alloc_answer env cfg mac srv (Inr (parse_ip i), srv)" if "(mac, i) \<in> holders cfg" for i
    using assms(1) that holder_free [OF _ that]
    by (auto simp: book_ok_def alloc_answer_def canonical_def)
  show ?thesis
    using assms(2) by (auto simp: allocate_def split: option.splits
        intro: held dynamic_answer_alloc [OF allocate_dynamic_safe] dest!: reserved_ip_held leased_ip_held)
qed

lemma upsert_lease_book_ok:
  assumes "book_ok cfg" "\<not> ip_in_use (lease_ip l) (lease_mac l) cfg" "canonical (lease_ip l)"
  shows "book_ok (upsert_lease l cfg)"
proof -
  have "addresses_exclusive (upsert_lease l cfg)"
    using assms by (intro lease_keeps_exclusive) (auto simp: book_ok_def)
  moreover have "canonical i" if "(m, i) \<in> holders (upsert_lease l cfg)" for m i
    using that assms(1,3) subsetD [OF holders_upsert_lease that] by (auto simp: book_ok_def)
  ultimately show ?thesis by (auto simp: book_ok_def)
qed

section \<open>Handlers keep the address book\<close>

lemma handle_request_cases:
  assumes "handle_request env cfg srv pkt = Some (cfg', srv', out)"
  obtains (silent) "cfg' = cfg" "out = []"
  | (nak) "cfg' = cfg" "out = send_nak srv' cfg pkt"
  | (ack) i b where "allocate env cfg srv (mac_string (p_chaddr pkt)) (want_ip pkt) = Some (Inr i, srv')"
      "want_ip pkt = [] \<or> ip_equal i (want_ip pkt)" "build_offer_or_ack srv' cfg pkt i ACK = Inr b"
      "cfg' = upsert_lease (granted_lease env cfg srv' pkt i) cfg" "out = send srv' cfg b"
proof (cases "other_server srv cfg pkt")
  case True
  with assms show ?thesis by (intro silent) (simp_all add: handle_request_def)
next
  case False
  let ?a = "allocate env cfg srv (mac_string (p_chaddr pkt)) (want_ip pkt)"
  from assms False obtain x s where a: "?a = Some (x, s)"
    by (cases ?a) (auto simp: handle_request_def)
  show ?thesis
  proof (cases x)
    case (Inl e)
    with assms False a show ?thesis by (intro nak) (auto simp: handle_request_def)
  next
    case (Inr i)
    show ?thesis
    proof (cases "want_ip pkt \<noteq> [] \<and> \<not> ip_equal i (want_ip pkt)")
      case True
      with assms False a Inr show ?thesis by (intro nak) (auto simp: handle_request_def)
    next
      case want: False
      show ?thesis
      proof (cases "build_offer_or_ack s cfg pkt i ACK")
        case (Inl e)
        with assms False a Inr want show ?thesis
          by (intro silent) (auto simp: handle_request_def)
      next
        case b: (Inr b)
        with assms False a Inr want have "s = srv'" "out = send srv' cfg b"
          "cfg' = upsert_lease (granted_lease env cfg srv' pkt i) cfg"
          by (auto simp: handle_request_def)
        with a b Inr want show ?thesis by (intro ack) auto
      qed
    qed
  qed
qed

lemma handle_discover_sent:
  assumes "handle_discover env cfg srv pkt = Some (srv', out)" "out \<noteq> []"
  obtains i b where
    "allocate env cfg srv (mac_string (p_chaddr pkt)) (p_requested_ip pkt) = Some (Inr i, srv')"
    "build_offer_or_ack srv' cfg pkt i Offer = Inr b" "out = send srv' cfg b"
proof -
  let ?a = "allocate env cfg srv (mac_string (p_chaddr pkt)) (p_requested_ip pkt)"
  from assms obtain i s where a: "?a = Some (Inr i, s)"
    by (cases ?a) (auto simp: handle_discover_def split: sum.splits)
  show ?thesis
  proof (cases "build_offer_or_ack s cfg pkt i Offer")
    case (Inl e)
    with assms a show ?thesis by (simp add: handle_discover_def)
  next
    case (Inr b)
    with assms a have "s = srv'" "out = send srv' cfg b" by (auto simp: handle_discover_def)
    with a Inr show ?thesis by (intro that) auto
  qed
qed

lemma handle_request_book_ok:
  assumes "handle_request env cfg srv pkt = Some (cfg', srv', out)" "book_ok cfg"
  shows "book_ok cfg'"
  using assms(1)
proof (cases rule: handle_request_cases)
  case (ack i b)
  have "alloc_answer env cfg (mac_string (p_chaddr pkt)) srv (Inr i, srv')"
    by (rule allocate_safe [OF assms(2) ack(1)])
  then have "\<not> ip_in_use (ip_string i) (mac_string (p_chaddr pkt)) cfg" "to4 i \<noteq> []"
    by (auto simp: alloc_answer_def)
  then show ?thesis
    unfolding ack(4)
    by (intro upsert_lease_book_ok [OF assms(2)]) (simp_all add: granted_lease_def canonical_ip_string)
qed (use assms(2) in auto)

lemma handle_book_ok:
  "handle env cfg srv pkt = Some (cfg', srv', out) \<Longrightarrow> book_ok cfg \<Longrightarrow> book_ok cfg'"
  by (auto simp: handle_def split: if_splits option.splits intro: handle_request_book_ok)

lemma serve_book_ok:
  "serve env cfg srv b = Some (cfg', srv', out) \<Longrightarrow> book_ok cfg \<Longrightarrow> book_ok cfg'"
  by (auto simp: serve_def split: sum.splits intro: handle_book_ok)

section \<open>The network of servers\<close>

text \<open>
  The servers of all segments run against one store. \<open>Reserve\<close> is an operator's
  reservation of a free address; the store itself does not check (see
  \<open>reservation_can_collide\<close>).
\<close>

record network =
  net_cfg :: store
  net_servers :: "string \<rightharpoonup> dhcp_server"

datatype net_event =
    Receive string dhcp_env "byte list"
  | DropLease io string | DropReservation io string
  | Reserve io reservation
  | Persist io
  | Restart string

inductive net_step :: "network \<Rightarrow> net_event \<Rightarrow> network \<Rightarrow> bool" where
  receive: "net_servers n g = Some srv \<Longrightarrow> serve env (net_cfg n) srv b = Some (cfg', srv', out) \<Longrightarrow>
    net_step n (Receive g env b) (n\<lparr>net_cfg := cfg', net_servers := (net_servers n)(g \<mapsto> srv')\<rparr>)"
| drop_lease: "net_step n (DropLease io m) (n\<lparr>net_cfg := fst (remove_lease io m (net_cfg n))\<rparr>)"
| drop_reservation:
    "net_step n (DropReservation io m) (n\<lparr>net_cfg := fst (remove_reservation io m (net_cfg n))\<rparr>)"
| reserve: "canonical (res_ip r) \<Longrightarrow> \<not> ip_in_use (res_ip r) (res_mac r) (net_cfg n) \<Longrightarrow>
    net_step n (Reserve io r) (n\<lparr>net_cfg := fst (add_reservation io r (net_cfg n))\<rparr>)"
| persist: "net_step n (Persist io) (n\<lparr>net_cfg := fst (flush io (net_cfg n))\<rparr>)"
| restart: "net_step n (Restart g) (n\<lparr>net_servers := (net_servers n)(g \<mapsto> new_server g)\<rparr>)"

inductive net_run :: "network \<Rightarrow> net_event list \<Rightarrow> network \<Rightarrow> bool" where
  run_nil: "net_run n [] n"
| run_cons: "net_step n e n' \<Longrightarrow> net_run n' es n'' \<Longrightarrow> net_run n (e # es) n''"

inductive_simps net_run_simps [simp]: "net_run n [] n'" "net_run n (e # es) n''"
inductive_simps receive_simps: "net_step n (Receive g env b) n'"

lemma book_ok_subset: "book_ok s \<Longrightarrow> holders t \<subseteq> holders s \<Longrightarrow> book_ok t"
  by (auto simp: book_ok_def intro: exclusive_subset)

lemma holders_flush: "holders (fst (flush io s)) = holders s"
  by (simp add: holders_def)

lemma add_reservation_book_ok:
  assumes "book_ok s" "\<not> ip_in_use (res_ip r) (res_mac r) s" "canonical (res_ip r)"
  shows "book_ok (fst (add_reservation io r s))"
proof -
  have "canonical i" if "(m, i) \<in> holders (fst (add_reservation io r s))" for m i
    using assms(1,3) subsetD [OF holders_add_reservation that] by (auto simp: book_ok_def)
  with assms show ?thesis by (auto simp: book_ok_def intro: reservation_keeps_exclusive)
qed

lemma net_step_book_ok: "net_step n e n' \<Longrightarrow> book_ok (net_cfg n) \<Longrightarrow> book_ok (net_cfg n')"
  by (induction rule: net_step.induct)
     (auto intro: serve_book_ok add_reservation_book_ok
        book_ok_subset [OF _ holders_remove_lease] book_ok_subset [OF _ holders_remove_reservation]
        book_ok_subset [OF _ equalityD1 [OF holders_flush]])

lemma net_run_book_ok: "net_run n es n' \<Longrightarrow> book_ok (net_cfg n) \<Longrightarrow> book_ok (net_cfg n')"
  by (induction rule: net_run.induct) (auto intro: net_step_book_ok)

end
