(* ===== verification/Dhcp_Claims.thy ===== *)
theory Dhcp_Claims
  imports Dhcp_Safety
begin

text \<open>
  The properties of the DHCP component, each with the concrete run that shows its
  hypotheses can hold. The example is the fresh installation (\<open>defaultData\<close>) with one
  client, whose datagrams are written out byte by byte.
\<close>

section \<open>The example network\<close>

definition ex_cfg :: store where
  "ex_cfg = new_store (default_data (Some [0, 0, 0, 0, 0, 1])) None"

definition ex_seg :: string where
  "ex_seg = ''seg-000000000001''"

definition ex_env :: dhcp_env where
  "ex_env = \<lparr>env_now = 1000000000000, env_arp = Some []\<rparr>"

definition ex_pkt :: "byte \<Rightarrow> ip \<Rightarrow> packet" where
  "ex_pkt t i = \<lparr>p_op = 1, p_htype = 1, p_hlen = 6, p_xid = [9, 9, 9, 9], p_secs = 0, p_flags = 0,
     p_ciaddr = [0, 0, 0, 0], p_yiaddr = [0, 0, 0, 0], p_siaddr = [0, 0, 0, 0],
     p_giaddr = [0, 0, 0, 0], p_chaddr = [2, 0, 0, 0, 0, 170], p_message_type = t,
     p_requested_ip = i, p_hostname = [], p_server_id = []\<rparr>"

definition ex_request :: "byte list" where
  "ex_request = [1, 1, 6, 0, 9, 9, 9, 9] @ replicate 20 0 @ [2, 0, 0, 0, 0, 170] @ replicate 202 0
     @ magic_cookie @ [53, 1, 3, 50, 4, 192, 168, 2, 10, 255]"

definition ex_ip :: ip where
  "ex_ip = [192, 168, 2, 10]"

lemma ex_book_ok: "book_ok ex_cfg"
  by (simp add: book_ok_def addresses_exclusive_def holders_def ex_cfg_def new_store_def default_data_def)

lemma ex_wf: "wf_request (ex_pkt t i)"
  by (simp add: wf_request_def ex_pkt_def)

lemma ex_segment: "segment (new_server ex_seg) ex_cfg = Inr (hd (lan_segments (dat ex_cfg)))"
  by code_simp

lemma ex_pool: "pool_of (new_server ex_seg) ex_cfg = Some (3232236042, 3232236286)"
  by code_simp

lemma ex_requests: "map_option (\<lambda>(c, s, out). (map lease_ip (leases (dat c)), length out))
    (handle_request ex_env ex_cfg (new_server ex_seg) (ex_pkt Request ex_ip)) = Some ([''192.168.2.10''], 1)"
  by code_simp

section \<open>Addresses have one holder\<close>


lemma ex_serve: "map_option (\<lambda>(c, s, out). map lease_ip (leases (dat c)))
    (serve ex_env ex_cfg (new_server ex_seg) ex_request) = Some [''192.168.2.10'']"
  by code_simp


section \<open>Dynamic allocation meets its specification\<close>



text \<open>C14: The scan of the pool returns the first usable address of the range, from the
  low end to the high end inclusive, and \<^const>\<open>PoolExhausted\<close> when there is none.\<close>

theorem scan_is_first_usable:
  assumes "z \<noteq> - 1"
  shows "map_option fst
     (scan_pool now cfg mac seg taken (be_bytes32 a) (be_bytes32 z) srv) =
     Some (case find (\<lambda>v. usable now cfg mac seg taken srv (be_bytes32 v)) (pool_addrs a z) of
             None \<Rightarrow> Inl PoolExhausted | Some v \<Rightarrow> Inr (be_bytes32 v))"
  using scan_pool_find [OF assms] by fastforce

theorem scan_is_first_usable_witness:
  "map_option fst (scan_pool 0 ex_cfg ''m'' (hd (lan_segments (dat ex_cfg))) []
     (be_bytes32 3232236042) (be_bytes32 3232236286) (new_server ex_seg)) =
     Some (case find (\<lambda>v. usable 0 ex_cfg ''m'' (hd (lan_segments (dat ex_cfg))) []
             (new_server ex_seg) (be_bytes32 v)) (pool_addrs 3232236042 3232236286) of
             None \<Rightarrow> Inl PoolExhausted | Some v \<Rightarrow> Inr (be_bytes32 v))"
  by (rule scan_is_first_usable) simp

section \<open>What a client sees\<close>

lemma send_parts: "(d, b) \<in> set (send srv cfg b') \<Longrightarrow> b = b'"
  by (auto simp: send_def split: sum.splits)

lemma send_nak_parse:
  assumes "wf_request pkt" "(d, b) \<in> set (send_nak srv cfg pkt)"
  shows "\<exists>p. parse_packet b = Inr p \<and> p_message_type p = NAK \<and> p_yiaddr p = [0, 0, 0, 0]"
  using assms parse_build_reply [OF assms(1)]
  by (auto simp: send_nak_def expected_reply_def pad4_def to4_def dest!: send_parts split: sum.splits)

lemma build_offer_or_ack_parse:
  assumes "wf_request pkt" "build_offer_or_ack srv cfg pkt i mt = Inr b"
  shows "\<exists>p. parse_packet b = Inr p \<and> p_message_type p = mt \<and> p_xid p = p_xid pkt \<and>
     p_yiaddr p = pad4 (to4 i)"
  using assms parse_build_reply [OF assms(1)]
  by (auto simp: build_offer_or_ack_def expected_reply_def split: sum.splits)

lemma build_offer_or_ack_send:
  "build_offer_or_ack srv cfg pkt i mt = Inr b \<Longrightarrow> \<exists>d. send srv cfg b = [(d, b)]"
  by (auto simp: build_offer_or_ack_def send_def split: sum.splits)

lemma dat_upsert_lease: "lease_for_mac (lease_mac l) (upsert_lease l s) = Some l"
  by (simp add: lease_for_mac_def upsert_lease_def)

text \<open>What an acknowledgement says.\<close>

lemma acknowledged:
  assumes "wf_request pkt" "book_ok cfg" "handle_request env cfg srv pkt = Some (cfg', srv', [(d, b)])"
    and "parse_packet b = Inr p" "p_message_type p = ACK"
  obtains i where "allocate env cfg srv (mac_string (p_chaddr pkt)) (want_ip pkt) = Some (Inr i, srv')" "to4 i \<noteq> []"
    "p_yiaddr p = to4 i" "cfg' = upsert_lease (granted_lease env cfg srv' pkt i) cfg"
    "\<exists>g. segment srv' cfg = Inr g" "srv_segment_id srv' = srv_segment_id srv"
  using assms(3)
proof (cases rule: handle_request_cases)
  case nak
  then have "(d, b) \<in> set (send_nak srv' cfg pkt)" by (metis list.set_intros(1))
  from send_nak_parse [OF assms(1) this] assms(4,5) show ?thesis by auto
next
  case (ack i b')
  have i: "to4 i \<noteq> []" using allocate_safe [OF assms(2) ack(1)] by (simp add: alloc_answer_def)
  have "b = b'" using build_offer_or_ack_send [OF ack(3)] ack(5) by auto
  then have y: "p_yiaddr p = to4 i"
    using build_offer_or_ack_parse [OF assms(1) ack(3)] assms(4) i by (auto simp: pad4_def)
  have g: "\<exists>g. segment srv' cfg = Inr g" using ack(3) by (auto simp: build_offer_or_ack_def split: sum.splits)
  show ?thesis by (rule that [OF ack(1) i y ack(4) g allocate_segment_id [OF ack(1)]])
qed simp

text \<open>C9: A REQUEST is answered in one of two ways. Either nothing changes and every
  datagram sent parses as a NAK without an address; or exactly one datagram is sent, it
  parses as an ACK with the client's transaction id, its address is the one the client asked
  for (if it named one) and nobody else's, and that address is recorded as the client's lease.\<close>

theorem request_outcome:
  assumes "wf_request pkt" "book_ok cfg" "handle_request env cfg srv pkt = Some (cfg', srv', out)"
  shows "(cfg' = cfg \<and> (\<forall>(d, b) \<in> set out.
      \<exists>p. parse_packet b = Inr p \<and> p_message_type p = NAK \<and> p_yiaddr p = [0, 0, 0, 0])) \<or>
    (\<exists>d b p l. out = [(d, b)] \<and> parse_packet b = Inr p \<and> p_message_type p = ACK \<and>
      p_xid p = p_xid pkt \<and> (want_ip pkt \<noteq> [] \<longrightarrow> ip_equal (p_yiaddr p) (want_ip pkt)) \<and>
      lease_for_mac (mac_string (p_chaddr pkt)) cfg' = Some l \<and>
      lease_ip l = ip_string (p_yiaddr p) \<and>
      \<not> ip_in_use (lease_ip l) (mac_string (p_chaddr pkt)) cfg)"
  using assms(3)
proof (cases rule: handle_request_cases)
  case nak
  then show ?thesis using send_nak_parse [OF assms(1)] by blast
next
  case (ack i b)
  from allocate_safe [OF assms(2) ack(1)] have i: "to4 i \<noteq> []"
    "\<not> ip_in_use (ip_string i) (mac_string (p_chaddr pkt)) cfg"
    by (auto simp: alloc_answer_def)
  from build_offer_or_ack_parse [OF assms(1) ack(3)] obtain p where
    p: "parse_packet b = Inr p" "p_message_type p = ACK" "p_xid p = p_xid pkt" "p_yiaddr p = to4 i"
    using i by (auto simp: pad4_def)
  obtain d where "out = [(d, b)]" using build_offer_or_ack_send [OF ack(3)] ack(5) by auto
  moreover have "want_ip pkt \<noteq> [] \<longrightarrow> ip_equal (to4 i) (want_ip pkt)"
    using ack(2) i by (auto simp: ip_equal_to4)
  moreover have "ip_string (to4 i) = ip_string i"
    using i by (simp add: ip_string_to4)
  moreover have "lease_for_mac (mac_string (p_chaddr pkt)) cfg' = Some (granted_lease env cfg srv' pkt i)"
    using dat_upsert_lease [of "granted_lease env cfg srv' pkt i"]
    by (simp add: ack(4) granted_lease_def)
  ultimately show ?thesis using p i by (auto simp: granted_lease_def)
qed auto

theorem request_outcome_witness:
  "\<exists>cfg' srv' out. handle_request ex_env ex_cfg (new_server ex_seg) (ex_pkt Request ex_ip) =
      Some (cfg', srv', out) \<and> leases (dat cfg') \<noteq> leases (dat ex_cfg) \<and>
    (\<exists>d b p l. out = [(d, b)] \<and> parse_packet b = Inr p \<and> p_message_type p = ACK \<and>
      p_xid p = [9, 9, 9, 9] \<and> ip_equal (p_yiaddr p) ex_ip \<and>
      lease_for_mac ''02:00:00:00:00:aa'' cfg' = Some l \<and> lease_ip l = ip_string (p_yiaddr p))"
proof -
  obtain c s out where e: "handle_request ex_env ex_cfg (new_server ex_seg) (ex_pkt Request ex_ip) =
      Some (c, s, out)" and l: "map lease_ip (leases (dat c)) = [''192.168.2.10'']"
    using ex_requests by auto
  have "leases (dat ex_cfg) = []" by (simp add: ex_cfg_def new_store_def default_data_def)
  with l have ne: "leases (dat c) \<noteq> leases (dat ex_cfg)" by auto
  moreover have "want_ip (ex_pkt Request ex_ip) = ex_ip" "ex_ip \<noteq> []"
    by (simp_all add: want_ip_def ex_pkt_def ex_ip_def)
  moreover have "mac_string (p_chaddr (ex_pkt Request ex_ip)) = ''02:00:00:00:00:aa''"
    "p_xid (ex_pkt Request ex_ip) = [9, 9, 9, 9]"
    by code_simp+
  ultimately show ?thesis
    using e request_outcome [OF ex_wf ex_book_ok e] by auto
qed

text \<open>C13: An OFFER parses as an OFFER for the client's transaction, of an address nobody
  else holds, and its options carry the segment's mask, the gateway as router and DNS
  server, and the configured lease time; it goes to the segment's broadcast address.\<close>

theorem offer_outcome:
  assumes "wf_request pkt" "book_ok cfg" "handle_discover env cfg srv pkt = Some (srv', (d, b) # out)"
    and "segment srv cfg = Inr seg" "to4 (parse_ip (seg_address seg)) = gw" "gw \<noteq> []"
    and "to4 (parse_ip (seg_subnet_mask seg)) = sm" "sm \<noteq> []"
  shows "\<exists>p. parse_packet b = Inr p \<and> out = [] \<and> p_message_type p = Offer \<and> p_xid p = p_xid pkt \<and>
     p_server_id p = gw \<and> \<not> ip_in_use (ip_string (p_yiaddr p)) (mac_string (p_chaddr pkt)) cfg \<and>
     d = directed_broadcast gw sm \<and>
     option_value opt_subnet_mask (drop 240 b) = Some sm \<and>
     option_value opt_router (drop 240 b) = Some gw \<and>
     option_value opt_dns_server (drop 240 b) = Some gw \<and>
     option_value opt_lease_time (drop 240 b) = Some (be_bytes32 (word_of_int (lease_seconds (dat cfg))))"
proof -
  obtain i b' where a: "allocate env cfg srv (mac_string (p_chaddr pkt)) (p_requested_ip pkt) = Some (Inr i, srv')"
    and b': "build_offer_or_ack srv' cfg pkt i Offer = Inr b'" "(d, b) # out = send srv' cfg b'"
    using handle_discover_sent [OF assms(3)] by auto
  have "b = b'" using b'(2) by (auto intro: send_parts [of d b srv' cfg b'] simp: b'(2) [symmetric])
  with b' have o: "build_offer_or_ack srv' cfg pkt i Offer = Inr b" "(d, b) # out = send srv' cfg b"
    by simp_all
  have i: "to4 i \<noteq> []" "\<not> ip_in_use (ip_string i) (mac_string (p_chaddr pkt)) cfg"
    "srv_segment_id srv' = srv_segment_id srv"
    using allocate_safe [OF assms(2) a] by (auto simp: alloc_answer_def srv_equiv_def)
  have s: "segment srv' cfg = Inr seg" using assms(4) i by (auto simp: segment_def split: option.splits)
  have ne: "parse_ip (seg_address seg) \<noteq> []" "parse_ip (seg_subnet_mask seg) \<noteq> []"
    using assms(5-8) by (auto simp: to4_def)
  have "ip_string (to4 i) = ip_string i" using i by (simp add: ip_string_to4)
  moreover have "d = directed_broadcast gw sm"
    using o(2) s assms(5-8) by (auto simp: send_def directed_broadcast_def)
  ultimately show ?thesis
    using o s assms(5-8) i ne parse_build_reply [OF assms(1)] drop_build_reply [OF assms(1)]
    by (auto simp: build_offer_or_ack_def option_value_reply expected_reply_def pad4_def send_def)
qed

theorem offer_outcome_witness:
  "\<exists>d b p. parse_packet b = Inr p \<and> p_message_type p = Offer \<and> p_xid p = [9, 9, 9, 9] \<and>
     p_server_id p = [192, 168, 2, 1] \<and>
     d = directed_broadcast [192, 168, 2, 1] [255, 255, 255, 0] \<and>
     option_value opt_router (drop 240 b) = Some [192, 168, 2, 1]"
proof -
  have "map_option (\<lambda>(s, out). length out)
      (handle_discover ex_env ex_cfg (new_server ex_seg) (ex_pkt Discover [])) = Some 1"
    by code_simp
  then obtain s d b where
    o: "handle_discover ex_env ex_cfg (new_server ex_seg) (ex_pkt Discover []) = Some (s, (d, b) # [])"
    by (auto simp: length_Suc_conv)
  have "to4 (parse_ip (seg_address (hd (lan_segments (dat ex_cfg))))) = [192, 168, 2, 1]"
    "to4 (parse_ip (seg_subnet_mask (hd (lan_segments (dat ex_cfg))))) = [255, 255, 255, 0]"
    by code_simp+
  from offer_outcome [OF ex_wf ex_book_ok o ex_segment this(1) _ this(2)] show ?thesis
    by (auto simp: ex_pkt_def)
qed

section \<open>DECLINE\<close>

text \<open>C16: An address a client has declined is not given out by dynamic allocation, to any
  client, until the quarantine of ten minutes has passed.\<close>

theorem declined_not_allocated:
  assumes "\<not> other_server srv cfg pkt" "p_requested_ip pkt \<noteq> []"
    and "allocate_dynamic env' cfg' (handle_decline env cfg srv pkt) mac r = Some (Inr i, srv')"
    and "env_now env' \<le> env_now env + decline_quarantine"
  shows "ip_string i \<noteq> ip_string (p_requested_ip pkt)"
proof
  assume e: "ip_string i = ip_string (p_requested_ip pkt)"
  have "\<not> quarantined (env_now env') (handle_decline env cfg srv pkt) (ip_string i)"
    using allocate_dynamic_safe [OF assms(3)] by (auto simp: dynamic_answer_def free_addr_def)
  with assms e show False by (simp add: handle_decline_def quarantined_def)
qed

theorem declined_not_allocated_witness:
  "\<exists>i srv'. allocate_dynamic ex_env ex_cfg
       (handle_decline ex_env ex_cfg (new_server ex_seg) (ex_pkt Decline ex_ip)) ''m'' ex_ip =
     Some (Inr i, srv') \<and> ip_string i \<noteq> ip_string ex_ip"
proof -
  have "map_option fst (allocate_dynamic ex_env ex_cfg
       (handle_decline ex_env ex_cfg (new_server ex_seg) (ex_pkt Decline ex_ip)) ''m'' ex_ip) =
     Some (Inr [192, 168, 2, 11])"
    by code_simp
  then obtain s where s: "allocate_dynamic ex_env ex_cfg
       (handle_decline ex_env ex_cfg (new_server ex_seg) (ex_pkt Decline ex_ip)) ''m'' ex_ip =
     Some (Inr [192, 168, 2, 11], s)" by auto
  have "ip_string [192, 168, 2, 11] \<noteq> ip_string (p_requested_ip (ex_pkt Decline ex_ip))"
    by (rule declined_not_allocated [OF _ _ s])
      (simp_all add: other_server_def ex_pkt_def ex_ip_def decline_quarantine_def)
  with s show ?thesis by (auto simp: ex_pkt_def)
qed

text \<open>C19: The quarantine does not cover the client's own lease: a client that declines the
  address it has just been leased is given the same address again, as often as it asks
  (the comments on \<open>handleDecline\<close> promise that the address leaves the pool).\<close>

theorem declined_lease_given_back:
  assumes "reserved_ip cfg srv mac = None" "leased_ip env cfg srv mac r = Some i"
  shows "allocate env cfg (handle_decline env' cfg srv pkt) mac r =
    Some (Inr (parse_ip i), handle_decline env' cfg srv pkt)"
proof -
  have "srv_segment_id (handle_decline env' cfg srv pkt) = srv_segment_id srv"
    by (simp add: handle_decline_def)
  then have "reserved_ip cfg (handle_decline env' cfg srv pkt) mac = None"
    "leased_ip env cfg (handle_decline env' cfg srv pkt) mac r = Some i"
    using assms by (auto simp: reserved_ip_def leased_ip_def split: option.splits if_splits)
  then show ?thesis by (simp add: allocate_def)
qed

definition ex_lease :: lease where
  "ex_lease = \<lparr>lease_mac = ''02:00:00:00:00:aa'', lease_ip = ''192.168.2.10'',
     lease_hostname = ''(unknown)'', lease_expires_at = 2000, lease_segment_id = ex_seg\<rparr>"

theorem declined_lease_given_back_witness:
  "allocate ex_env (upsert_lease ex_lease ex_cfg)
     (handle_decline ex_env (upsert_lease ex_lease ex_cfg) (new_server ex_seg) (ex_pkt Decline ex_ip))
     ''02:00:00:00:00:aa'' [] =
   Some (Inr (v4_in_v6_prefix @ ex_ip),
     handle_decline ex_env (upsert_lease ex_lease ex_cfg) (new_server ex_seg) (ex_pkt Decline ex_ip))"
proof -
  have p: "parse_ip ''192.168.2.10'' = v4_in_v6_prefix @ ex_ip" by code_simp
  have "reserved_ip (upsert_lease ex_lease ex_cfg) (new_server ex_seg) ''02:00:00:00:00:aa'' = None"
    "leased_ip ex_env (upsert_lease ex_lease ex_cfg) (new_server ex_seg) ''02:00:00:00:00:aa'' [] =
      Some ''192.168.2.10''"
    by code_simp+
  from declined_lease_given_back [OF this] show ?thesis by (simp only: p)
qed

section \<open>Edges of the pool\<close>

text \<open>The rule that the gateway's own address is never handed out holds for the scan
  only: a client that asks for an address in the pool gets it although it is the gateway's.\<close>

theorem gateway_given_on_request:
  assumes "segment srv cfg = Inr seg" "gw = to4 (parse_ip (seg_address seg))"
    and "in_pool srv cfg gw = Some True"
    and "free_addr (env_now env) cfg mac (arp_taken_ips env (seg_interface seg) mac) srv gw"
  shows "map_option fst (allocate_dynamic env cfg srv mac gw) = Some (Inr gw)"
proof -
  obtain d s where d: "is_declined (env_now env) (ip_string gw) srv = (d, s)" by fastforce
  have "gw \<noteq> []" using in_pool_to4 [OF assms(3)] by (auto simp: to4_def)
  with is_declined_result [OF d] d assms show ?thesis
    by (simp add: allocate_dynamic_def free_addr_def Let_def)
qed

definition ex_wide :: store where
  "ex_wide = edit (\<lambda>d. d\<lparr>lan_segments := map (\<lambda>g. g\<lparr>seg_pool_start := ''192.168.2.1''\<rparr>) (lan_segments d)\<rparr>)
     ex_cfg"

theorem gateway_given_on_request_witness:
  "map_option fst (allocate_dynamic ex_env ex_wide (new_server ex_seg) ''m'' [192, 168, 2, 1]) =
   Some (Inr [192, 168, 2, 1])"
proof (rule gateway_given_on_request)
  show "segment (new_server ex_seg) ex_wide = Inr (hd (lan_segments (dat ex_wide)))" by code_simp
  show "[192, 168, 2, 1] = to4 (parse_ip (seg_address (hd (lan_segments (dat ex_wide)))))" by code_simp
  show "in_pool (new_server ex_seg) ex_wide [192, 168, 2, 1] = Some True" by code_simp
  show "free_addr (env_now ex_env) ex_wide ''m''
     (arp_taken_ips ex_env (seg_interface (hd (lan_segments (dat ex_wide)))) ''m'')
     (new_server ex_seg) [192, 168, 2, 1]" by code_simp
qed

text \<open>A pool that ends at 255.255.255.255 has no end for the scan: when its last
  address is taken the counter wraps around, and the client is given 0.0.0.0.\<close>

theorem scan_wraps_around:
  assumes "\<not> usable now cfg mac seg taken srv (be_bytes32 (- 1))"
    and "usable now cfg mac seg taken srv (be_bytes32 0)"
  shows "map_option fst
     (scan_pool now cfg mac seg taken (be_bytes32 (- 1)) (be_bytes32 (- 1)) srv) = Some (Inr (be_bytes32 0))"
proof -
  obtain ok s where c: "candidate_ok now cfg mac seg taken (ip_string (be_bytes32 (- 1))) srv = (ok, s)"
    by fastforce
  obtain ok' s' where c': "candidate_ok now cfg mac seg taken (ip_string (be_bytes32 0)) s = (ok', s')"
    by fastforce
  from candidate_ok_result [OF c] assms(1) have "\<not> ok" "srv_equiv now s srv" by auto
  with candidate_ok_result [OF c'] assms(2) have "ok'" by (simp add: usable_equiv)
  have "scan_pool now cfg mac seg taken (be_bytes32 (- 1)) (be_bytes32 (- 1)) srv =
      scan_pool now cfg mac seg taken (be_bytes32 0) (be_bytes32 (- 1)) s"
    using c \<open>\<not> ok\<close> by (subst scan_pool.simps) simp
  also have "\<dots> = Some (Inr (be_bytes32 0), s')"
    using c' \<open>ok'\<close> by (subst scan_pool.simps) simp
  finally show ?thesis by simp
qed

theorem scan_wraps_around_witness:
  "map_option fst (scan_pool 0 ex_cfg ''m'' (hd (lan_segments (dat ex_cfg))) [''255.255.255.255'']
     (be_bytes32 (- 1)) (be_bytes32 (- 1)) (new_server ex_seg)) = Some (Inr (be_bytes32 0))"
proof (rule scan_wraps_around)
  show "\<not> usable 0 ex_cfg ''m'' (hd (lan_segments (dat ex_cfg))) [''255.255.255.255'']
     (new_server ex_seg) (be_bytes32 (- 1))" by code_simp
  show "usable 0 ex_cfg ''m'' (hd (lan_segments (dat ex_cfg))) [''255.255.255.255'']
     (new_server ex_seg) (be_bytes32 0)" by code_simp
qed

section \<open>The handlers return\<close>

lemma allocate_returns:
  assumes "segment srv cfg = Inr seg" "pool_of srv cfg = Some (a, z)" "z \<noteq> - 1"
    and "r = [] \<or> length r = 4"
  shows "\<exists>res srv'. allocate env cfg srv mac r = Some (res, srv') \<and> res \<noteq> Inl Panic"
proof -
  obtain res srv' where d: "allocate_dynamic env cfg srv mac r = Some (res, srv')"
    and ok: "dynamic_ok env cfg srv mac seg a z res"
    using allocate_dynamic_ok [OF assms] by blast
  have "res \<noteq> Inl Panic" using ok by (auto simp: dynamic_ok_def Let_def)
  with d show ?thesis by (auto simp: allocate_def split: option.splits)
qed

text \<open>A server without a segment, or whose pool does not parse, reports an error.\<close>

lemma pool_of_None: "pool_of srv cfg = None \<Longrightarrow> \<exists>e. parse_pool_range (srv_segment_id srv) cfg = Inl e"
proof (rule ccontr)
  assume n: "pool_of srv cfg = None" "\<nexists>e. parse_pool_range (srv_segment_id srv) cfg = Inl e"
  then obtain a z where r: "parse_pool_range (srv_segment_id srv) cfg = Inr (a, z)"
    by (cases "parse_pool_range (srv_segment_id srv) cfg") auto
  then have "length a = 4" "length z = 4"
    by (auto simp: parse_pool_range_def Let_def length_to4 split: option.splits if_splits)
  then have "be_uint32 a \<noteq> None" "be_uint32 z \<noteq> None" by (simp_all add: be_uint32_None)
  with n(1) r show False by (auto simp: pool_of_def split: option.splits)
qed

lemma allocate_total:
  assumes "\<forall>a z. pool_of srv cfg = Some (a, z) \<longrightarrow> z \<noteq> - 1" "r = [] \<or> length r = 4"
  shows "\<exists>res srv'. allocate env cfg srv mac r = Some (res, srv') \<and> res \<noteq> Inl Panic"
proof (cases "segment srv cfg")
  case (Inl e)
  then have "e \<noteq> Panic" by (auto simp: segment_def split: option.splits)
  with Inl show ?thesis by (auto simp: allocate_def allocate_dynamic_def split: option.split)
next
  case (Inr seg)
  show ?thesis
  proof (cases "pool_of srv cfg")
    case None
    with pool_of_None obtain e where "parse_pool_range (srv_segment_id srv) cfg = Inl e" by blast
    with Inr show ?thesis
      by (auto simp: allocate_def allocate_dynamic_def in_pool_def allocate_from_pool_def Let_def split: option.split)
  next
    case (Some p)
    then obtain a z where p: "pool_of srv cfg = Some (a, z)" by (cases p) auto
    with assms(1) have "z \<noteq> - 1" by blast
    from allocate_returns [OF Inr p this assms(2)] show ?thesis by blast
  qed
qed

lemma handle_returns:
  assumes "\<forall>a z. pool_of srv cfg = Some (a, z) \<longrightarrow> z \<noteq> - 1"
    and "options_ok pkt" "length (p_ciaddr pkt) = 4"
  shows "handle env cfg srv pkt \<noteq> None"
proof -
  have l: "p_requested_ip pkt = [] \<or> length (p_requested_ip pkt) = 4"
    "want_ip pkt = [] \<or> length (want_ip pkt) = 4"
    using assms(2,3) by (auto simp: options_ok_def want_ip_def)
  obtain x s where "allocate env cfg srv (mac_string (p_chaddr pkt)) (p_requested_ip pkt) = Some (x, s)"
    using allocate_total [OF assms(1) l(1), of env "mac_string (p_chaddr pkt)"] by auto
  then have d: "handle_discover env cfg srv pkt \<noteq> None"
    by (simp add: handle_discover_def split: sum.split)
  obtain y t where "allocate env cfg srv (mac_string (p_chaddr pkt)) (want_ip pkt) = Some (y, t)"
    using allocate_total [OF assms(1) l(2), of env "mac_string (p_chaddr pkt)"] by auto
  then have "handle_request env cfg srv pkt \<noteq> None"
    by (simp add: handle_request_def split: sum.split)
  with d show ?thesis by (auto simp: handle_def)
qed

lemma serve_total:
  assumes "\<forall>a z. pool_of srv cfg = Some (a, z) \<longrightarrow> z \<noteq> - 1"
  shows "serve env cfg srv b \<noteq> None"
proof (cases "parse_packet (take 1500 b)")
  case (Inr p)
  have "handle env cfg srv p \<noteq> None"
    using handle_returns [OF assms] parse_packet_wf [OF Inr] by blast
  with Inr show ?thesis by (simp add: serve_def)
qed (simp add: serve_def)



section \<open>Where replies go\<close>

text \<open>The address a reply is broadcast to is in the segment's network, and all its
  host bits are one.\<close>

theorem broadcast_address:
  assumes "to4 i \<noteq> []" "to4 m \<noteq> []"
  shows "ip_mask (directed_broadcast i m) (to4 m) = ip_mask (to4 i) (to4 m) \<and>
    map2 (OR) (directed_broadcast i m) (to4 m) = [255, 255, 255, 255]"
proof -
  obtain a b c d where i: "to4 i = [a, b, c, d]" by (rule length4_cases [OF length_to4 [OF assms(1)]])
  obtain e f g h where m: "to4 m = [e, f, g, h]" by (rule length4_cases [OF length_to4 [OF assms(2)]])
  have 1: "(x OR NOT y) AND y = x AND y" for x y :: byte
    by (rule bit_word_eqI) (auto simp: bit_and_iff bit_or_iff bit_not_iff)
  have "(x OR NOT y) OR y = - 1" for x y :: byte
    by (rule bit_word_eqI) (auto simp: bit_or_iff bit_not_iff)
  moreover have "(255 :: byte) = - 1" by simp
  ultimately have 2: "(x OR NOT y) OR y = 255" for x y :: byte by (simp only:)
  have b: "directed_broadcast i m = [a OR NOT e, b OR NOT f, c OR NOT g, d OR NOT h]"
    by (simp add: directed_broadcast_def i m)
  have "ip_mask [w, x, y, z] [e, f, g, h] = [w AND e, x AND f, y AND g, z AND h]" for w x y z
    by (simp add: ip_mask_def)
  then show ?thesis unfolding b i m by (simp only: 1 2 list.map zip_Cons_Cons zip_Nil prod.case)
qed

theorem broadcast_address_witness:
  "ip_mask (directed_broadcast [192, 168, 2, 1] [255, 255, 255, 0]) (to4 [255, 255, 255, 0]) =
    ip_mask (to4 [192, 168, 2, 1]) (to4 [255, 255, 255, 0]) \<and>
   map2 (OR) (directed_broadcast [192, 168, 2, 1] [255, 255, 255, 0]) (to4 [255, 255, 255, 0]) =
    [255, 255, 255, 255]"
  by (rule broadcast_address) (simp_all add: to4_def)

section \<open>Packets\<close>



section \<open>Reservations are not checked\<close>

text \<open>Adding a reservation does not look at who holds its address: a reservation of an
  address that another client has leased leaves the address with two holders.\<close>

lemma reservation_can_collide:
  assumes "lease_for_mac m s = Some l" "res_mac r \<noteq> m" "res_ip r = lease_ip l"
  shows "\<not> addresses_exclusive (fst (add_reservation io r s))"
proof -
  let ?s = "fst (add_reservation io r s)"
  have "l \<in> set (leases (dat s))" "lease_mac l = m"
    using assms(1) by (auto simp: lease_for_mac_def dest: find_by_in find_by_key)
  then have "(m, lease_ip l) \<in> holders ?s"
    by (auto simp: holders_def add_reservation_def)
  moreover have "find_by res_mac (res_mac r) (reservations (dat ?s)) = Some r"
    by (simp add: add_reservation_def)
  then have "(res_mac r, lease_ip l) \<in> holders ?s"
    using assms(3) by (auto simp: holders_def dest!: find_by_in)
  ultimately show ?thesis using assms(2) by (auto simp: addresses_exclusive_def)
qed

end
