(* ===== verification/Dns_Cache.thy ===== *)
theory Dns_Cache
  imports Go_Net "HOL-Library.Mapping"
begin

text \<open>
  The cache of the recursive resolver, \<open>internal/dnsserver/cache.go\<close>. Times and durations
  are nanoseconds; a 32-bit number of seconds is below \<open>2 ^ 63\<close> nanoseconds, so the
  conversion in \<open>set\<close> does not overflow. The interface \<open>answer_cache\<close> says what the
  resolver relies on; under it a cache is the log of what was stored.
\<close>

record cache_entry =
  ce_ips :: "ip list"
  ce_expires_at :: int

record recursive_cache =
  rc_entries :: "(string, cache_entry) mapping"
  rc_hits :: nat
  rc_misses :: nat

definition new_recursive_cache :: recursive_cache where
  "new_recursive_cache = \<lparr>rc_entries = Mapping.empty, rc_hits = 0, rc_misses = 0\<rparr>"

definition cache_get :: "int \<Rightarrow> string \<Rightarrow> recursive_cache \<Rightarrow> ip list option \<times> recursive_cache" where
  "cache_get now key c =
     (case Mapping.lookup (rc_entries c) key of
        None \<Rightarrow> (None, c\<lparr>rc_misses := rc_misses c + 1\<rparr>)
      | Some e \<Rightarrow>
          if ce_expires_at e < now then (None, c\<lparr>rc_misses := rc_misses c + 1\<rparr>)
          else (Some (ce_ips e), c\<lparr>rc_hits := rc_hits c + 1\<rparr>))"

definition cache_stats :: "recursive_cache \<Rightarrow> nat \<times> nat \<times> nat" where
  "cache_stats c = (Mapping.size (rc_entries c), rc_hits c, rc_misses c)"

definition second :: int where "second = 1000000000"

definition max_ttl :: int where "max_ttl = 6 * 3600 * second"

definition ttl_duration :: "u32 \<Rightarrow> int" where
  "ttl_duration ttl =
     (let ttl = (if ttl = 0 then 30 else ttl); d = int (unat ttl) * second
      in if max_ttl < d then max_ttl else d)"

definition cache_set :: "int \<Rightarrow> string \<Rightarrow> ip list \<Rightarrow> u32 \<Rightarrow> recursive_cache \<Rightarrow> recursive_cache" where
  "cache_set now key ips ttl c =
     c\<lparr>rc_entries := Mapping.update key
         \<lparr>ce_ips = ips, ce_expires_at = now + ttl_duration ttl\<rparr> (rc_entries c)\<rparr>"

section \<open>The interface\<close>

locale answer_cache =
  fixes lookup :: "int \<Rightarrow> 'k \<Rightarrow> 'c \<Rightarrow> 'v option"
    and put :: "int \<Rightarrow> 'k \<Rightarrow> 'v \<Rightarrow> 't \<Rightarrow> 'c \<Rightarrow> 'c"
    and touch :: "int \<Rightarrow> 'k \<Rightarrow> 'c \<Rightarrow> 'c"
    and fresh :: 'c
    and life :: "'t \<Rightarrow> int"
  assumes lookup_fresh: "lookup now k fresh = None"
    and lookup_touch: "lookup now k (touch t k' c) = lookup now k c"
    and lookup_put: "lookup now k (put t k' v d c) =
      (if k = k' then (if now \<le> t + life d then Some v else None) else lookup now k c)"
begin

text \<open>A log entry is a lookup (\<^const>\<open>None\<close>) or a value stored with its lifetime.\<close>

definition perform :: "int \<times> 'k \<times> ('v \<times> 't) option \<Rightarrow> 'c \<Rightarrow> 'c" where
  "perform op c = (case op of (t, k, None) \<Rightarrow> touch t k c | (t, k, Some (v, d)) \<Rightarrow> put t k v d c)"

definition last_put :: "'k \<Rightarrow> (int \<times> 'k \<times> ('v \<times> 't) option) list \<Rightarrow> (int \<times> 'v \<times> 't) option" where
  "last_put k ops = (case find (\<lambda>(t, k', x). k' = k \<and> x \<noteq> None) (rev ops) of
     Some (t, _, Some (v, d)) \<Rightarrow> Some (t, v, d) | _ \<Rightarrow> None)"

lemma last_put_snoc:
  "last_put k (ops @ [(t, k', x)]) =
     (case x of Some (v, d) \<Rightarrow> if k' = k then Some (t, v, d) else last_put k ops
      | None \<Rightarrow> last_put k ops)"
  by (auto simp: last_put_def split: option.split)

lemma lookup_log:
  "lookup now k (fold perform ops fresh) =
     (case last_put k ops of
        Some (t, v, d) \<Rightarrow> if now \<le> t + life d then Some v else None | None \<Rightarrow> None)"
proof (induction ops rule: rev_induct)
  case Nil
  then show ?case by (simp add: lookup_fresh last_put_def)
next
  case (snoc op ops)
  obtain t k' x where op: "op = (t, k', x)" by (cases op)
  show ?case
    using snoc.IH
    by (cases x) (auto simp: op last_put_snoc perform_def lookup_touch lookup_put split: prod.split)
qed

end

lemma lookup_get [simp]: "rc_entries (snd (cache_get now k c)) = rc_entries c"
  by (simp add: cache_get_def split: option.split)

lemma cache_get_entries:
  "fst (cache_get now k c) =
     (case Mapping.lookup (rc_entries c) k of None \<Rightarrow> None
      | Some e \<Rightarrow> if ce_expires_at e < now then None else Some (ce_ips e))"
  by (simp add: cache_get_def split: option.split)

interpretation rcache: answer_cache
  "\<lambda>now k c. fst (cache_get now k c)" cache_set "\<lambda>now k c. snd (cache_get now k c)"
  new_recursive_cache ttl_duration
proof
  show "fst (cache_get now k new_recursive_cache) = None" for now k
    by (simp add: cache_get_entries new_recursive_cache_def lookup_empty)
  show "fst (cache_get now k (snd (cache_get t k' c))) = fst (cache_get now k c)" for now k t k' c
    by (simp add: cache_get_entries)
  show "fst (cache_get now k (cache_set t k' v d c)) =
      (if k = k' then (if now \<le> t + ttl_duration d then Some v else None) else fst (cache_get now k c))"
    for now k t k' v d c
    by (simp add: cache_get_entries cache_set_def lookup_update' not_less)
qed

lemma ttl_duration_bounds: "0 < ttl_duration ttl" "ttl_duration ttl \<le> max_ttl"
proof -
  have "0 < unat (if ttl = 0 then 30 else ttl)" by (simp add: unat_gt_0)
  then have "0 < int (unat (if ttl = 0 then 30 else ttl))" by (simp only: of_nat_0_less_iff)
  then show "0 < ttl_duration ttl" "ttl_duration ttl \<le> max_ttl"
    unfolding ttl_duration_def Let_def by (auto simp: second_def max_ttl_def)
qed

lemma ttl_no_overflow: "int (unat (ttl :: u32)) * second < 2 ^ 63"
proof -
  have "int (unat ttl) < 2 ^ 32" using unsigned_less [of ttl, where ?'a = int] by simp
  then show ?thesis by (simp add: second_def)
qed

end
