(* ===== verification/Dns_Message.thy ===== *)
theory Dns_Message
  imports Go_Net
begin

text \<open>
  DNS messages: \<open>parseQuestion\<close>, \<open>readName\<close> and \<open>buildAResponse\<close> of
  \<open>internal/dnsserver/server.go\<close>; the records \<open>rr\<close> and \<open>dnsMessage\<close>,
  \<open>readNameCompressed\<close>, \<open>readRR\<close>, \<open>parseFullMessage\<close> and \<open>buildIterativeQuery\<close> of
  \<open>resolver.go\<close>. Offsets are natural numbers and every read stands behind the bounds check
  the code makes, so that no slice expression of the code can panic where the model returns
  a value.
\<close>

datatype dns_error =
    MessageTooShort | NoQuestion | TruncatedQuestion
  | NamePastEnd | LabelPastEnd
  | NameOutOfBounds | TruncatedPointer | TooManyJumps | LabelOutOfBounds
  | HeaderOutOfBounds | DataOutOfBounds
  | IOFailed | IdMismatch | AllUnreachable "dns_error option"
  | DepthExceeded string | NoAnswer string | NoGlue string | TooManyHops string

abbreviation (input) type_A :: u16 where "type_A \<equiv> 1"
abbreviation (input) type_NS :: u16 where "type_NS \<equiv> 2"
abbreviation (input) type_CNAME :: u16 where "type_CNAME \<equiv> 5"
abbreviation (input) class_IN :: u16 where "class_IN \<equiv> 1"

text \<open>\<open>string(msg[i:i+n])\<close>.\<close>

definition text_at :: "byte list \<Rightarrow> nat \<Rightarrow> nat \<Rightarrow> string" where
  "text_at msg i n = str_of_bytes (take n (drop i msg))"

section \<open>The question of a query\<close>

function read_name_loop :: "byte list \<Rightarrow> nat \<Rightarrow> string list \<Rightarrow> dns_error + string \<times> nat" where
  "read_name_loop msg i labels =
     (if length msg \<le> i then Inl NamePastEnd
      else if unat (msg ! i) = 0 then Inr (join ''.'' labels, i + 1)
      else if length msg < i + 1 + unat (msg ! i) then Inl LabelPastEnd
      else read_name_loop msg (i + 1 + unat (msg ! i))
             (labels @ [text_at msg (i + 1) (unat (msg ! i))]))"
  by pat_completeness auto
termination
  by (relation "measure (\<lambda>(msg, i, labels). length msg - i)") auto

declare read_name_loop.simps [simp del]

definition read_name :: "byte list \<Rightarrow> nat \<Rightarrow> dns_error + string \<times> nat" where
  "read_name msg offset = read_name_loop msg offset []"

record question =
  q_name :: string
  q_qtype :: u16
  q_qclass :: u16
  q_name_end :: nat

definition parse_question :: "byte list \<Rightarrow> dns_error + question" where
  "parse_question msg =
     (if length msg < 12 then Inl MessageTooShort
      else if u16_at msg 4 = 0 then Inl NoQuestion
      else (case read_name msg 12 of
          Inl e \<Rightarrow> Inl e
        | Inr (name, offset) \<Rightarrow>
            if length msg < offset + 4 then Inl TruncatedQuestion
            else Inr \<lparr>q_name = name, q_qtype = u16_at msg offset, q_qclass = u16_at msg (offset + 2),
                   q_name_end = offset + 4\<rparr>))"

section \<open>Answering with addresses\<close>

definition a_record :: "u32 \<Rightarrow> ip \<Rightarrow> byte list" where
  "a_record ttl i =
     (let ip4 = to4 i in
      if ip4 = [] then []
      else [0xC0, 0x0C] @ [0, 1] @ [0, 1] @ be_bytes32 ttl @ [0, 4] @ ip4)"

definition build_a_response :: "byte list \<Rightarrow> question \<Rightarrow> ip list \<Rightarrow> u32 \<Rightarrow> byte list" where
  "build_a_response query q ips ttl =
     [query ! 0, query ! 1] @ be_bytes16 (push_bit 15 1 OR push_bit 7 1 OR 0) @ [0, 1]
     @ be_bytes16 (of_nat (length ips)) @ [0, 0] @ [0, 0]
     @ take (q_name_end q - 12) (drop 12 query)
     @ concat (map (a_record ttl) ips)"

section \<open>Compressed names\<close>

text \<open>A length byte with its two top bits set is a compression pointer.\<close>

definition is_pointer :: "byte \<Rightarrow> bool" where
  "is_pointer b \<longleftrightarrow> b AND 0xC0 = 0xC0"

definition pointer_target :: "byte \<Rightarrow> byte \<Rightarrow> nat" where
  "pointer_target b c = unat (b AND 0x3F) * 256 + unat c"

text \<open>\<open>maxReferralHops\<close> also bounds the pointers followed, which makes the loop end.\<close>

definition max_referral_hops :: nat where
  "max_referral_hops = 20"

function read_name_c ::
  "byte list \<Rightarrow> nat \<Rightarrow> bool \<Rightarrow> nat \<Rightarrow> nat \<Rightarrow> string list \<Rightarrow> dns_error + string \<times> nat" where
  "read_name_c msg pos jumped jumps nxt labels =
     (if length msg \<le> pos then Inl NameOutOfBounds
      else if unat (msg ! pos) = 0
      then Inr (join ''.'' labels, if jumped then nxt else pos + 1)
      else if is_pointer (msg ! pos) then
        (if length msg \<le> pos + 1 then Inl TruncatedPointer
         else if max_referral_hops < jumps + 1 then Inl TooManyJumps
         else read_name_c msg (pointer_target (msg ! pos) (msg ! (pos + 1))) True (jumps + 1)
                (if jumped then nxt else pos + 2) labels)
      else if length msg < pos + 1 + unat (msg ! pos) then Inl LabelOutOfBounds
      else read_name_c msg (pos + 1 + unat (msg ! pos)) jumped jumps nxt
             (labels @ [text_at msg (pos + 1) (unat (msg ! pos))]))"
  by pat_completeness auto
termination
  by (relation "measures [\<lambda>(msg, pos, jumped, jumps, nxt, labels). max_referral_hops + 1 - jumps,
        \<lambda>(msg, pos, jumped, jumps, nxt, labels). length msg - pos]") auto

declare read_name_c.simps [simp del]

definition read_name_compressed :: "byte list \<Rightarrow> nat \<Rightarrow> dns_error + string \<times> nat" where
  "read_name_compressed msg offset = read_name_c msg offset False 0 0 []"

section \<open>Resource records and whole messages\<close>

record rr =
  rr_name :: string
  rr_type :: u16
  rr_class :: u16
  rr_ttl :: u32
  rr_data :: "byte list"
  rr_data_offset :: nat

definition read_rr :: "byte list \<Rightarrow> nat \<Rightarrow> dns_error + rr \<times> nat" where
  "read_rr msg offset0 =
     (case read_name_compressed msg offset0 of
        Inl e \<Rightarrow> Inl e
      | Inr (name, offset) \<Rightarrow>
          if length msg < offset + 10 then Inl HeaderOutOfBounds
          else (let rdlen = unat (u16_at msg (offset + 8)) in
            if length msg < offset + 10 + rdlen then Inl DataOutOfBounds
            else Inr (\<lparr>rr_name = name, rr_type = u16_at msg offset, rr_class = u16_at msg (offset + 2),
                    rr_ttl = u32_at msg (offset + 4), rr_data = take rdlen (drop (offset + 10) msg),
                    rr_data_offset = offset + 10\<rparr>, offset + 10 + rdlen)))"

fun read_section :: "byte list \<Rightarrow> nat \<Rightarrow> nat \<Rightarrow> rr list \<Rightarrow> dns_error + rr list \<times> nat" where
  "read_section msg 0 offset out = Inr (out, offset)"
| "read_section msg (Suc n) offset out =
     (case read_rr msg offset of
        Inl e \<Rightarrow> Inl e
      | Inr (r, nxt) \<Rightarrow> read_section msg n nxt (out @ [r]))"

text \<open>The questions: the first one is kept, the others are skipped.\<close>

fun read_questions ::
  "byte list \<Rightarrow> nat \<Rightarrow> bool \<Rightarrow> nat \<Rightarrow> string \<times> u16 \<times> u16 \<Rightarrow> dns_error + (string \<times> u16 \<times> u16) \<times> nat" where
  "read_questions msg 0 isfirst offset q = Inr (q, offset)"
| "read_questions msg (Suc n) isfirst offset q =
     (case read_name_compressed msg offset of
        Inl e \<Rightarrow> Inl e
      | Inr (name, nxt) \<Rightarrow>
          if length msg < nxt + 4 then Inl TruncatedQuestion
          else read_questions msg n False (nxt + 4)
                 (if isfirst then (name, u16_at msg nxt, u16_at msg (nxt + 2)) else q))"

record dns_message =
  m_id :: u16
  m_flags :: u16
  m_qname :: string
  m_qtype :: u16
  m_qclass :: u16
  m_answers :: "rr list"
  m_authority :: "rr list"
  m_additional :: "rr list"
  m_raw :: "byte list"

definition parse_full_message :: "byte list \<Rightarrow> dns_error + dns_message" where
  "parse_full_message msg =
     (if length msg < 12 then Inl MessageTooShort
      else (case read_questions msg (unat (u16_at msg 4)) True 12 ([], 0, 0) of
          Inl e \<Rightarrow> Inl e
        | Inr ((qn, qt, qc), o1) \<Rightarrow>
            (case read_section msg (unat (u16_at msg 6)) o1 [] of
               Inl e \<Rightarrow> Inl e
             | Inr (answers, o2) \<Rightarrow>
                 (case read_section msg (unat (u16_at msg 8)) o2 [] of
                    Inl e \<Rightarrow> Inl e
                  | Inr (authority, o3) \<Rightarrow>
                      (case read_section msg (unat (u16_at msg 10)) o3 [] of
                         Inl e \<Rightarrow> Inl e
                       | Inr (additional, o4) \<Rightarrow>
                           Inr \<lparr>m_id = u16_at msg 0, m_flags = u16_at msg 2, m_qname = qn,
                               m_qtype = qt, m_qclass = qc, m_answers = answers,
                               m_authority = authority, m_additional = additional, m_raw = msg\<rparr>)))))"

section \<open>Building a query\<close>

definition encode_label :: "string \<Rightarrow> byte list" where
  "encode_label l = of_nat (length l) # bytes_of_str l"

definition build_iterative_query :: "u16 \<Rightarrow> string \<Rightarrow> u16 \<Rightarrow> byte list" where
  "build_iterative_query i qname qtype =
     be_bytes16 i @ [0, 0] @ [0, 1] @ [0, 0, 0, 0, 0, 0]
     @ concat (map encode_label (filter (\<lambda>l. l \<noteq> '''') (split_on CHR ''.'' (trim_suffix qname ''.''))))
     @ [0] @ be_bytes16 qtype @ [0, 1]"

end
