(* ===== verification/Dns_Wire.thy ===== *)
theory Dns_Wire
  imports Dns_Message
begin

text \<open>
  The readers of \<open>Dns_Message\<close> against encoded names and records: every name made of labels
  of 1 to 191 bytes is read back by both readers, what \<open>readName\<close> accepts is such an
  encoding, the readers stay inside the message, and an address record whose name is a
  pointer to the question is read back.
\<close>

definition encode_name :: "string list \<Rightarrow> byte list" where
  "encode_name ls = concat (map encode_label ls) @ [0]"

definition labels_below :: "nat \<Rightarrow> string list \<Rightarrow> bool" where
  "labels_below n ls \<longleftrightarrow> list_all (\<lambda>l. l \<noteq> '''' \<and> length l < n) ls"

lemma labels_below_simps [simp]:
  "labels_below n []"
  "labels_below n (l # ls) \<longleftrightarrow> l \<noteq> '''' \<and> length l < n \<and> labels_below n ls"
  by (simp_all add: labels_below_def)

lemma labels_below_mono: "labels_below m ls \<Longrightarrow> m \<le> n \<Longrightarrow> labels_below n ls"
  by (auto simp: labels_below_def list_all_iff)

lemma encode_name_simps [simp]:
  "encode_name [] = [0]"
  "encode_name (l # ls) = of_nat (length l) # bytes_of_str l @ encode_name ls"
  by (simp_all add: encode_name_def encode_label_def)

lemma text_at_append: "length p = i \<Longrightarrow> n = length l \<Longrightarrow> text_at (p @ bytes_of_str l @ r) i n = l"
  by (simp add: text_at_def)

lemma pointer_lengths: "n < 192 \<Longrightarrow> \<not> is_pointer (of_nat n)"
proof -
  have "\<forall>n \<in> set [0..<192]. \<not> is_pointer (of_nat n)" by code_simp
  then show "n < 192 \<Longrightarrow> ?thesis" by (simp del: upt_Suc)
qed

lemma read_name_loop_encode:
  "labels_below 256 ls \<Longrightarrow> length pre = i \<Longrightarrow>
   read_name_loop (pre @ encode_name ls @ post) i acc =
     Inr (join ''.'' (acc @ ls), i + length (encode_name ls))"
proof (induction ls arbitrary: pre i acc)
  case Nil
  then show ?case by (subst read_name_loop.simps) (simp add: nth_append)
next
  case (Cons l ls)
  let ?msg = "pre @ encode_name (l # ls) @ post"
  have n: "unat (?msg ! i) = length l" "length l \<noteq> 0"
    using Cons.prems by (auto simp: nth_append unat_of_nat)
  have t: "text_at ?msg (i + 1) (length l) = l"
    using text_at_append [of "pre @ [of_nat (length l)]" "i + 1"] Cons.prems(2) by simp
  have m: "?msg = (pre @ of_nat (length l) # bytes_of_str l) @ encode_name ls @ post" by simp
  have "read_name_loop ?msg i acc = read_name_loop ?msg (i + 1 + length l) (acc @ [l])"
    using n t Cons.prems(2) by (subst read_name_loop.simps) simp
  also have "\<dots> = Inr (join ''.'' ((acc @ [l]) @ ls), i + 1 + length l + length (encode_name ls))"
    unfolding m using Cons.prems by (intro Cons.IH) auto
  finally show ?case by simp
qed

lemma read_name_c_encode:
  "labels_below 192 ls \<Longrightarrow> length pre = i \<Longrightarrow>
   read_name_c (pre @ encode_name ls @ post) i jumped jumps nxt acc =
     Inr (join ''.'' (acc @ ls), if jumped then nxt else i + length (encode_name ls))"
proof (induction ls arbitrary: pre i acc)
  case Nil
  then show ?case by (subst read_name_c.simps) (simp add: nth_append)
next
  case (Cons l ls)
  let ?msg = "pre @ encode_name (l # ls) @ post"
  have n: "?msg ! i = of_nat (length l)" "unat (?msg ! i) = length l" "length l \<noteq> 0"
    using Cons.prems by (auto simp: nth_append unat_of_nat)
  have p: "\<not> is_pointer (?msg ! i)"
    using Cons.prems(1) by (simp only: n(1)) (simp add: pointer_lengths)
  have t: "text_at ?msg (i + 1) (length l) = l"
    using text_at_append [of "pre @ [of_nat (length l)]" "i + 1"] Cons.prems(2) by simp
  have m: "?msg = (pre @ of_nat (length l) # bytes_of_str l) @ encode_name ls @ post" by simp
  have "read_name_c ?msg i jumped jumps nxt acc =
      read_name_c ?msg (i + 1 + length l) jumped jumps nxt (acc @ [l])"
    using n(2,3) p t Cons.prems(2) by (subst read_name_c.simps) simp
  also have "\<dots> = Inr (join ''.'' ((acc @ [l]) @ ls),
      if jumped then nxt else i + 1 + length l + length (encode_name ls))"
    unfolding m using Cons.prems by (intro Cons.IH) auto
  finally show ?case by simp
qed

lemma read_name_encode:
  "labels_below 256 ls \<Longrightarrow> length pre = i \<Longrightarrow>
   read_name (pre @ encode_name ls @ post) i = Inr (join ''.'' ls, i + length (encode_name ls))"
  by (simp add: read_name_def read_name_loop_encode)

lemma read_name_compressed_encode:
  "labels_below 192 ls \<Longrightarrow> length pre = i \<Longrightarrow>
   read_name_compressed (pre @ encode_name ls @ post) i =
     Inr (join ''.'' ls, i + length (encode_name ls))"
  by (simp add: read_name_compressed_def read_name_c_encode)

section \<open>The readers stay inside the message\<close>

lemma read_name_c_next:
  "read_name_c msg pos jumped jumps nxt labels = Inr (n, e) \<Longrightarrow>
   if jumped then e = nxt else pos < e \<and> e \<le> length msg"
proof (induction msg pos jumped jumps nxt labels rule: read_name_c.induct)
  case (1 msg pos jumped jumps nxt labels)
  show ?case
    using 1 read_name_c.simps [of msg pos jumped jumps nxt labels]
    by (simp split: if_splits)
qed

text \<open>The bytes a name of these labels takes.\<close>

definition label_bytes :: "string list \<Rightarrow> nat" where
  "label_bytes ls = (\<Sum>l\<leftarrow>ls. length l + 1)"

lemma length_join_dot: "length (join ''.'' ls) \<le> label_bytes ls"
  unfolding label_bytes_def by (induction "''.''" ls rule: join.induct) auto

lemma read_name_c_length:
  "read_name_c msg pos jumped jumps nxt labels = Inr (n, e) \<Longrightarrow>
   length n \<le> label_bytes labels + (length msg - pos) + (max_referral_hops - jumps) * length msg"
proof (induction msg pos jumped jumps nxt labels rule: read_name_c.induct)
  case (1 msg pos jumped jumps nxt labels)
  note unf = read_name_c.simps [of msg pos jumped jumps nxt labels]
  show ?case
  proof (cases "unat (msg ! pos) = 0 \<or> length msg \<le> pos")
    case True
    with 1(3) unf have "n = join ''.'' labels" by (auto split: if_splits)
    then show ?thesis using length_join_dot [of labels] by simp
  next
    case False
    show ?thesis
    proof (cases "is_pointer (msg ! pos)")
      case True
      let ?t = "pointer_target (msg ! pos) (msg ! (pos + 1))"
      from 1(3) unf False True have j: "jumps + 1 \<le> max_referral_hops" "pos + 1 < length msg"
        and r: "read_name_c msg ?t True (jumps + 1) (if jumped then nxt else pos + 2) labels = Inr (n, e)"
        by (auto split: if_splits)
      from 1(1) [OF _ _ True _ _ r] False j
      have "length n \<le> label_bytes labels + (length msg - ?t)
          + (max_referral_hops - (jumps + 1)) * length msg" by simp
      also have "\<dots> \<le> label_bytes labels + (1 + (max_referral_hops - (jumps + 1))) * length msg"
        by simp
      also have "1 + (max_referral_hops - (jumps + 1)) = max_referral_hops - jumps" using j by simp
      finally show ?thesis by simp
    next
      case np: False
      let ?k = "unat (msg ! pos)"
      from 1(3) unf False np have b: "pos + 1 + ?k \<le> length msg"
        and r: "read_name_c msg (pos + 1 + ?k) jumped jumps nxt
          (labels @ [text_at msg (pos + 1) ?k]) = Inr (n, e)"
        by (auto split: if_splits)
      have "length (text_at msg (pos + 1) ?k) = ?k" using b by (simp add: text_at_def)
      with 1(2) [OF _ _ np _ r] False b show ?thesis by (simp add: label_bytes_def)
    qed
  qed
qed

lemma read_name_compressed_bounds:
  assumes "read_name_compressed msg i = Inr (n, e)"
  shows "i < e" "e \<le> length msg" "length n \<le> 21 * length msg"
proof -
  note r = assms [unfolded read_name_compressed_def]
  from read_name_c_next [OF r] show "i < e" "e \<le> length msg" by simp_all
  from read_name_c_length [OF r] show "length n \<le> 21 * length msg"
    by (simp add: label_bytes_def max_referral_hops_def)
qed

text \<open>A record lies inside the message and takes at least eleven bytes of it.\<close>

definition rr_inside :: "byte list \<Rightarrow> rr \<Rightarrow> bool" where
  "rr_inside msg r \<longleftrightarrow> rr_data_offset r + length (rr_data r) \<le> length msg \<and>
     rr_data r = take (length (rr_data r)) (drop (rr_data_offset r) msg) \<and>
     length (rr_data r) < 65536 \<and> length (rr_name r) \<le> 21 * length msg"

lemma read_rr_bounds:
  assumes "read_rr msg i = Inr (r, e)"
  shows "rr_inside msg r" "i + 11 + length (rr_data r) \<le> e" "e \<le> length msg"
proof -
  obtain n k where nk: "read_name_compressed msg i = Inr (n, k)"
    using assms by (auto simp: read_rr_def split: sum.splits)
  let ?d = "unat (u16_at msg (k + 8))"
  from assms nk have len: "k + 10 + ?d \<le> length msg" and e: "e = k + 10 + ?d"
    and r: "rr_name r = n" "rr_data r = take ?d (drop (k + 10) msg)" "rr_data_offset r = k + 10"
    by (auto simp: read_rr_def Let_def split: if_splits)
  from r(2) len have l: "length (rr_data r) = ?d" by simp
  have "?d < 65536" using unsigned_less [of "u16_at msg (k + 8)"] by simp
  then show "rr_inside msg r"
    using l r len read_name_compressed_bounds(3) [OF nk] by (simp add: rr_inside_def)
  show "i + 11 + length (rr_data r) \<le> e" using l e read_name_compressed_bounds(1) [OF nk] by simp
  show "e \<le> length msg" using e len by simp
qed

lemma read_section_bounds:
  "read_section msg n i out = Inr (rs, e) \<Longrightarrow> i \<le> length msg \<Longrightarrow> list_all (rr_inside msg) out \<Longrightarrow>
   list_all (rr_inside msg) rs \<and> i + 11 * n \<le> e \<and> e \<le> length msg \<and> length rs = length out + n"
proof (induction msg n i out rule: read_section.induct)
  case (2 msg n i out)
  then obtain r k where rk: "read_rr msg i = Inr (r, k)"
    and s: "read_section msg n k (out @ [r]) = Inr (rs, e)"
    by (auto split: sum.splits)
  note b = read_rr_bounds [OF rk]
  from 2(1) [OF rk refl s] b "2.prems" show ?case by auto
qed auto

lemma read_questions_bounds:
  "read_questions msg n f i q = Inr (q', e) \<Longrightarrow> i \<le> length msg \<Longrightarrow> i + 5 * n \<le> e \<and> e \<le> length msg"
proof (induction msg n f i q rule: read_questions.induct)
  case (2 msg n f i q)
  then obtain name k where rk: "read_name_compressed msg i = Inr (name, k)"
    by (auto split: sum.splits)
  with "2.prems" have le: "k + 4 \<le> length msg"
    and s: "read_questions msg n False (k + 4)
      (if f then (name, u16_at msg k, u16_at msg (k + 2)) else q) = Inr (q', e)"
    by (auto split: if_splits)
  from 2(1) [OF rk refl] s le read_name_compressed_bounds(1) [OF rk] show ?case by auto
qed auto

section \<open>What a query looks like\<close>

lemma read_name_loop_decode:
  "read_name_loop msg i acc = Inr (n, e) \<Longrightarrow>
   \<exists>ls. labels_below 256 ls \<and> n = join ''.'' (acc @ ls) \<and> e = i + length (encode_name ls) \<and>
     e \<le> length msg \<and> take (length (encode_name ls)) (drop i msg) = encode_name ls"
proof (induction msg i acc rule: read_name_loop.induct)
  case (1 msg i acc)
  note unf = read_name_loop.simps [of msg i acc]
  let ?k = "unat (msg ! i)"
  from "1.prems" unf have i: "i < length msg" by (auto split: if_splits)
  then have d: "drop i msg = msg ! i # drop (i + 1) msg" by (simp add: Cons_nth_drop_Suc)
  show ?case
  proof (cases "?k = 0")
    case True
    with "1.prems" unf i have "n = join ''.'' acc" "e = i + 1" by auto
    moreover from True have "msg ! i = 0" by (simp add: unat_eq_0)
    ultimately show ?thesis using d i by (intro exI [of _ "[]"]) simp
  next
    case False
    with "1.prems" unf i have le: "i + 1 + ?k \<le> length msg"
      and r: "read_name_loop msg (i + 1 + ?k) (acc @ [text_at msg (i + 1) ?k]) = Inr (n, e)"
      by (auto split: if_splits)
    let ?l = "text_at msg (i + 1) ?k"
    have ll: "length ?l = ?k" using le by (simp add: text_at_def)
    have k: "?k < 256" using unsigned_less [of "msg ! i"] by simp
    obtain ls where ls: "labels_below 256 ls" "n = join ''.'' ((acc @ [?l]) @ ls)"
      "e = i + 1 + ?k + length (encode_name ls)" "e \<le> length msg"
      "take (length (encode_name ls)) (drop (i + 1 + ?k) msg) = encode_name ls"
      using "1.IH" [OF _ False _ r] i le by auto
    have "drop (i + 1) msg = bytes_of_str ?l @ drop (i + 1 + ?k) msg"
      using append_take_drop_id [of ?k "drop (i + 1) msg"] by (simp add: text_at_def add.commute)
    then have "drop i msg = of_nat (length ?l) # bytes_of_str ?l @ drop (i + 1 + ?k) msg"
      using d ll by simp
    then have "take (length (encode_name (?l # ls))) (drop i msg) = encode_name (?l # ls)"
      using ls(5) by simp
    moreover have "?l \<noteq> ''''" using ll False by auto
    ultimately show ?thesis using ls ll k by (intro exI [of _ "?l # ls"]) auto
  qed
qed

text \<open>A query: a twelve-byte header that announces a question, the question, anything else.\<close>

definition wire_query :: "byte list \<Rightarrow> string list \<Rightarrow> u16 \<Rightarrow> u16 \<Rightarrow> bool" where
  "wire_query msg ls t c \<longleftrightarrow> (\<exists>h rest. length h = 12 \<and> u16_at h 4 \<noteq> 0 \<and>
     msg = h @ encode_name ls @ be_bytes16 t @ be_bytes16 c @ rest)"

definition the_question :: "string list \<Rightarrow> u16 \<Rightarrow> u16 \<Rightarrow> question" where
  "the_question ls t c = \<lparr>q_name = join ''.'' ls, q_qtype = t, q_qclass = c,
     q_name_end = 12 + length (encode_name ls) + 4\<rparr>"

lemma u16_at_prefix: "i + 2 \<le> length h \<Longrightarrow> u16_at (h @ r) i = u16_at h i"
proof -
  assume le: "i + 2 \<le> length h"
  then have "drop i h = h ! i # h ! (i + 1) # drop (i + 2) h"
    by (simp add: Cons_nth_drop_Suc)
  with le show ?thesis by (simp add: u16_at_def)
qed

lemma u16_at_mid:
  "length p = i \<Longrightarrow> u16_at (p @ be_bytes16 v @ r) i = v"
  "length p + 2 = i \<Longrightarrow> u16_at (p @ be_bytes16 u @ be_bytes16 v @ r) i = v"
proof -
  show "length p = i \<Longrightarrow> u16_at (p @ be_bytes16 v @ r) i = v" by simp
  have "u16_at ((p @ be_bytes16 u) @ be_bytes16 v @ r) i = v" if "length p + 2 = i"
    using that by (intro u16_at_append) simp
  then show "length p + 2 = i \<Longrightarrow> u16_at (p @ be_bytes16 u @ be_bytes16 v @ r) i = v" by simp
qed

lemma parse_question_wire:
  assumes "wire_query msg ls t c" "labels_below 256 ls"
  shows "parse_question msg = Inr (the_question ls t c)"
proof -
  obtain h rest where h: "length h = 12" "u16_at h 4 \<noteq> 0"
    and m: "msg = h @ encode_name ls @ be_bytes16 t @ be_bytes16 c @ rest"
    using assms(1) by (auto simp: wire_query_def)
  have "u16_at msg 4 = u16_at h 4" unfolding m using h(1) by (intro u16_at_prefix) simp
  moreover have "read_name msg 12 = Inr (join ''.'' ls, 12 + length (encode_name ls))"
    unfolding m using assms(2) h(1) by (rule read_name_encode)
  moreover have "u16_at msg (12 + length (encode_name ls)) = t"
    "u16_at msg (12 + length (encode_name ls) + 2) = c"
    using u16_at_mid(1) [of "h @ encode_name ls" _ t] u16_at_mid(2) [of "h @ encode_name ls" _ t c] h(1)
    by (simp_all add: m)
  moreover have "12 + length (encode_name ls) + 4 \<le> length msg" "\<not> length msg < 12"
    using h(1) by (simp_all add: m)
  ultimately show ?thesis using h(2) by (simp add: parse_question_def the_question_def)
qed

lemma be_bytes16_uint16:
  assumes "be_uint16 b = Some v" "length b = 2" shows "be_bytes16 v = b"
proof -
  obtain x y where b: "b = [x, y]" using assms(2) by (auto simp: length_Suc_conv numeral_2_eq_2)
  with assms(1) have v: "v = push_bit 8 (ucast x) OR ucast y" by simp
  have "ucast (drop_bit 8 v) = x"
    unfolding v by (rule bit_word_eqI) (auto simp: bit_simps dest: bit_imp_le_length)
  moreover have "ucast v = y"
    unfolding v by (rule bit_word_eqI) (auto simp: bit_simps)
  ultimately show ?thesis by (simp add: be_bytes16_def b)
qed

lemma be_bytes16_at: "i + 2 \<le> length m \<Longrightarrow> be_bytes16 (u16_at m i) = take 2 (drop i m)"
proof -
  assume le: "i + 2 \<le> length m"
  then have d: "drop i m = m ! i # m ! (i + 1) # drop (i + 2) m" by (simp add: Cons_nth_drop_Suc)
  have "be_uint16 (take 2 (drop i m)) = Some (u16_at m i)" by (simp add: d u16_at_def)
  then show ?thesis using le by (intro be_bytes16_uint16) auto
qed

lemma parse_question_decode:
  assumes "parse_question msg = Inr q"
  obtains ls t c where "wire_query msg ls t c" "labels_below 256 ls" "q = the_question ls t c"
proof -
  from assms have l: "12 \<le> length msg" and z: "u16_at msg 4 \<noteq> 0"
    by (auto simp: parse_question_def split: if_splits)
  with assms obtain n k where r: "read_name msg 12 = Inr (n, k)"
    by (auto simp: parse_question_def split: sum.splits)
  with assms l z have k: "k + 4 \<le> length msg"
    and q: "q = \<lparr>q_name = n, q_qtype = u16_at msg k, q_qclass = u16_at msg (k + 2), q_name_end = k + 4\<rparr>"
    by (auto simp: parse_question_def split: if_splits)
  from r obtain ls where ls: "labels_below 256 ls" "n = join ''.'' ls" "k = 12 + length (encode_name ls)"
    "take (length (encode_name ls)) (drop 12 msg) = encode_name ls"
    unfolding read_name_def by (auto dest: read_name_loop_decode)
  let ?n = "length (encode_name ls)"
  have "msg = take 12 msg @ take ?n (drop 12 msg) @ take 2 (drop k msg) @ take 2 (drop (k + 2) msg)
      @ drop (k + 4) msg"
  proof -
    have "drop 12 msg = take ?n (drop 12 msg) @ drop k msg"
      using append_take_drop_id [of ?n "drop 12 msg"] by (simp add: ls(3) add.commute)
    moreover have "drop k msg = take 2 (drop k msg) @ take 2 (drop (k + 2) msg) @ drop (k + 4) msg"
    proof -
      have two: "drop j msg = take 2 (drop j msg) @ drop (j + 2) msg" for j
        using append_take_drop_id [of 2 "drop j msg"] by simp
      have "k + 2 + 2 = k + 4" by simp
      with two [of k] two [of "k + 2"] show ?thesis by metis
    qed
    ultimately show ?thesis by (metis append_take_drop_id)
  qed
  then have "msg = take 12 msg @ encode_name ls @ be_bytes16 (u16_at msg k)
      @ be_bytes16 (u16_at msg (k + 2)) @ drop (k + 4) msg"
    using k by (simp add: be_bytes16_at ls(4))
  moreover have "u16_at (take 12 msg) 4 \<noteq> 0"
    using u16_at_prefix [of 4 "take 12 msg" "drop 12 msg"] l z by simp
  ultimately have "wire_query msg ls (u16_at msg k) (u16_at msg (k + 2))"
    unfolding wire_query_def using l
    by (intro exI [of _ "take 12 msg"] exI [of _ "drop (k + 4) msg"]) simp
  with ls(1) q ls(2,3) show thesis by (intro that) (auto simp: the_question_def)
qed

end
