(* ===== verification/Dns_Trip.thy ===== *)
theory Dns_Trip
  imports Dns_Wire
begin

text \<open>
  Round trips: a query built by \<open>buildIterativeQuery\<close> is read back by \<open>parseFullMessage\<close>,
  and so is an answer built by \<open>buildAResponse\<close>, exactly when all its addresses are IPv4.
\<close>

definition header :: "u16 \<Rightarrow> u16 \<Rightarrow> u16 \<Rightarrow> u16 \<Rightarrow> u16 \<Rightarrow> u16 \<Rightarrow> byte list" where
  "header i f qd an ns ar =
     be_bytes16 i @ be_bytes16 f @ be_bytes16 qd @ be_bytes16 an @ be_bytes16 ns @ be_bytes16 ar"

lemma length_header [simp]: "length (header i f qd an ns ar) = 12"
  by (simp add: header_def)

lemma u16_at_shift: "u16_at (p @ r) (length p + k) = u16_at r k"
  by (simp add: u16_at_def)

lemma u32_at_shift: "u32_at (p @ r) (length p + k) = u32_at r k"
  by (simp add: u32_at_def)

lemma u16_at_bytes:
  "u16_at (be_bytes16 v @ r) 0 = v"
  "2 \<le> k \<Longrightarrow> u16_at (be_bytes16 v @ r) k = u16_at r (k - 2)"
  using u16_at_shift [of "be_bytes16 v" r "k - 2"] by (simp_all add: u16_at_def)

lemma header_fields [simp]:
  "u16_at (header i f qd an ns ar @ r) 0 = i"
  "u16_at (header i f qd an ns ar @ r) 2 = f"
  "u16_at (header i f qd an ns ar @ r) 4 = qd"
  "u16_at (header i f qd an ns ar @ r) 6 = an"
  "u16_at (header i f qd an ns ar @ r) 8 = ns"
  "u16_at (header i f qd an ns ar @ r) 10 = ar"
  by (simp_all add: header_def u16_at_bytes)

lemma be_bytes16_lits: "be_bytes16 0 = [0, 0]" "be_bytes16 1 = [0, 1]"
  by (simp_all add: be_bytes16_def)

text \<open>One question, read by \<open>parseFullMessage\<close>.\<close>

lemma read_one_question:
  assumes "labels_below 192 ls" "length h = 12"
    "msg = h @ encode_name ls @ be_bytes16 t @ be_bytes16 c @ r"
  shows "read_questions msg 1 True 12 q =
    Inr ((join ''.'' ls, t, c), 12 + length (encode_name ls) + 4)"
proof -
  let ?k = "12 + length (encode_name ls)"
  have "read_name_compressed msg 12 = Inr (join ''.'' ls, ?k)"
    unfolding assms(3) using assms(1,2) by (rule read_name_compressed_encode)
  moreover have "u16_at msg ?k = t" "u16_at msg (?k + 2) = c"
    using u16_at_mid(1) [of "h @ encode_name ls" _ t] u16_at_mid(2) [of "h @ encode_name ls" _ t c]
    by (simp_all add: assms(2,3))
  moreover have "?k + 4 \<le> length msg" by (simp add: assms(2,3))
  ultimately show ?thesis by (simp add: numeral_eq_Suc)
qed

section \<open>Queries\<close>

definition dns_label :: "string \<Rightarrow> bool" where
  "dns_label l \<longleftrightarrow> l \<noteq> '''' \<and> length l < 192 \<and> CHR ''.'' \<notin> set l"

lemma dns_labels: "list_all dns_label ls \<Longrightarrow> labels_below 192 ls"
  by (auto simp: labels_below_def dns_label_def list_all_iff)

lemma query_labels:
  assumes "list_all dns_label ls"
  shows "filter (\<lambda>l. l \<noteq> '''') (split_on CHR ''.'' (trim_suffix (join ''.'' ls @ ''.'') ''.'')) = ls"
proof (cases "ls = []")
  case False
  have "\<forall>l \<in> set ls. CHR ''.'' \<notin> set l" using assms by (auto simp: list_all_iff dns_label_def)
  then have "split_on CHR ''.'' (join ''.'' ls) = ls" using False by (intro split_on_join)
  moreover have "filter (\<lambda>l. l \<noteq> '''') ls = ls"
    using assms by (auto simp: list_all_iff dns_label_def intro: filter_True)
  ultimately show ?thesis by simp
qed (use trim_suffix_append [of "[]" "''.''"] in simp)

lemma query_bytes:
  assumes "list_all dns_label ls"
  shows "build_iterative_query i (join ''.'' ls @ ''.'') t =
    header i 0 1 0 0 0 @ encode_name ls @ be_bytes16 t @ be_bytes16 1 @ []"
  unfolding build_iterative_query_def query_labels [OF assms]
  by (simp add: header_def be_bytes16_lits encode_name_def)

lemma parse_query:
  fixes i t :: u16
  assumes "list_all dns_label ls"
  defines "msg \<equiv> build_iterative_query i (join ''.'' ls @ ''.'') t"
  shows "parse_full_message msg = Inr \<lparr>m_id = i, m_flags = 0, m_qname = join ''.'' ls, m_qtype = t,
      m_qclass = class_IN, m_answers = [], m_authority = [], m_additional = [], m_raw = msg\<rparr>"
proof -
  note b = query_bytes [OF assms(1), of i t, folded msg_def]
  have "read_questions msg 1 True 12 ([], 0, 0) =
      Inr ((join ''.'' ls, t, class_IN), 12 + length (encode_name ls) + 4)"
    using dns_labels [OF assms(1)] length_header b by (rule read_one_question)
  moreover have "\<not> length msg < 12" by (simp add: b)
  ultimately show ?thesis by (simp add: parse_full_message_def b)
qed

section \<open>Answers\<close>

type_synonym answer_fields = "string \<times> u16 \<times> u16 \<times> u32 \<times> byte list"

definition answer_view :: "rr \<Rightarrow> answer_fields" where
  "answer_view r = (rr_name r, rr_type r, rr_class r, rr_ttl r, rr_data r)"

lemma length_a_record: "to4 i \<noteq> [] \<Longrightarrow> length (a_record ttl i) = 16"
  by (simp add: a_record_def length_to4)

lemma read_pointer:
  assumes "msg = pre @ 0xC0 # 0x0C # r" "read_name_c msg 12 True 1 (length pre + 2) [] = Inr (n, length pre + 2)"
  shows "read_name_compressed msg (length pre) = Inr (n, length pre + 2)"
proof -
  have nth: "msg ! length pre = 0xC0" "msg ! (length pre + 1) = 0x0C" "length pre + 2 \<le> length msg"
    by (simp_all add: assms(1) nth_append)
  have "is_pointer 0xC0" "pointer_target 0xC0 0x0C = 12" "unat (0xC0 :: byte) \<noteq> 0" by code_simp+
  with nth assms(2) show ?thesis
    unfolding read_name_compressed_def
    by (subst read_name_c.simps) (simp add: max_referral_hops_def)
qed

lemma read_rr_a:
  assumes "msg = pre @ a_record ttl i @ post" "to4 i \<noteq> []"
    "read_name_c msg 12 True 1 (length pre + 2) [] = Inr (n, length pre + 2)"
  shows "\<exists>r. read_rr msg (length pre) = Inr (r, length pre + 16) \<and>
    answer_view r = (n, type_A, class_IN, ttl, to4 i)"
proof -
  let ?t = "[0, 1, 0, 1] @ be_bytes32 ttl @ [0, 4] @ to4 i @ post"
  have m: "msg = pre @ 0xC0 # 0x0C # ?t"
    using assms(2) by (simp add: assms(1) a_record_def)
  define k where "k = length pre + 2"
  note name = read_pointer [OF m assms(3), folded k_def]
  have sh: "u16_at msg (k + j) = u16_at ?t j" "u32_at msg (k + j) = u32_at ?t j" for j
    unfolding k_def m using u16_at_shift [of "pre @ [0xC0, 0x0C]" ?t j]
      u32_at_shift [of "pre @ [0xC0, 0x0C]" ?t j] by simp_all
  have "u16_at msg k = 1" using sh(1) [of 0] by (simp add: u16_at_def)
  moreover have "u16_at msg (k + 2) = 1" using sh(1) [of 2] by (simp add: u16_at_def)
  moreover have "u32_at msg (k + 4) = ttl" using sh(2) [of 4] by (simp add: u32_at_def)
  moreover have "u16_at msg (k + 8) = 4"
  proof -
    have "u16_at (([0, 1, 0, 1] @ be_bytes32 ttl) @ be_bytes16 4 @ to4 i @ post) 8 = 4"
      by (intro u16_at_append) simp
    moreover have "be_bytes16 4 = [0, 4]" by code_simp
    ultimately show ?thesis using sh(1) [of 8] by simp
  qed
  moreover have "length msg = k + 14 + length post" "take 4 (drop (k + 10) msg) = to4 i"
    using assms(2) by (simp_all add: m k_def length_to4)
  moreover have "length pre + 16 = k + 14" "unat (4 :: u16) = 4" by (simp_all add: k_def)
  ultimately show ?thesis using name by (simp add: read_rr_def answer_view_def Let_def)
qed

lemma read_section_a:
  assumes "list_all (\<lambda>i. to4 i \<noteq> []) ips" "msg = pre @ concat (map (a_record ttl) ips) @ post"
    "\<And>k. read_name_c msg 12 True 1 k [] = Inr (n, k)"
  shows "\<exists>rs. read_section msg (length ips) (length pre) out = Inr (out @ rs, length pre + 16 * length ips) \<and>
    map answer_view rs = map (\<lambda>i. (n, type_A, class_IN, ttl, to4 i)) ips"
  using assms(1,2)
proof (induction ips arbitrary: pre out)
  case (Cons i ips)
  then have "msg = pre @ a_record ttl i @ concat (map (a_record ttl) ips) @ post" "to4 i \<noteq> []"
    by simp_all
  from read_rr_a [OF this assms(3)] obtain r where r:
    "read_rr msg (length pre) = Inr (r, length pre + 16)"
    "answer_view r = (n, type_A, class_IN, ttl, to4 i)" by blast
  have p: "length (pre @ a_record ttl i) = length pre + 16"
    using Cons.prems by (simp add: length_a_record)
  have "\<exists>rs. read_section msg (length ips) (length (pre @ a_record ttl i)) (out @ [r]) =
      Inr ((out @ [r]) @ rs, length (pre @ a_record ttl i) + 16 * length ips) \<and>
      map answer_view rs = map (\<lambda>i. (n, type_A, class_IN, ttl, to4 i)) ips"
    using Cons.prems by (intro Cons.IH) simp_all
  then obtain rs where "read_section msg (length ips) (length pre + 16) (out @ [r]) =
      Inr ((out @ [r]) @ rs, length pre + 16 + 16 * length ips)"
    "map answer_view rs = map (\<lambda>i. (n, type_A, class_IN, ttl, to4 i)) ips"
    unfolding p by blast
  with r show ?case by (intro exI [of _ "r # rs"]) simp
qed simp

definition plain_flags :: u16 where
  "plain_flags = push_bit 15 1 OR push_bit 7 1 OR 0"

lemma answer_bytes:
  assumes "wire_query query ls t c"
  shows "build_a_response query (the_question ls t c) ips ttl =
    header (u16_at query 0) plain_flags 1 (of_nat (length ips)) 0 0 @
    encode_name ls @ be_bytes16 t @ be_bytes16 c @ concat (map (a_record ttl) ips)"
proof -
  obtain h rest where h: "length h = 12"
    and m: "query = h @ encode_name ls @ be_bytes16 t @ be_bytes16 c @ rest"
    using assms by (auto simp: wire_query_def)
  have "take (q_name_end (the_question ls t c) - 12) (drop 12 query) =
      encode_name ls @ be_bytes16 t @ be_bytes16 c"
    by (simp add: m h the_question_def)
  moreover have "[query ! 0, query ! 1] = be_bytes16 (u16_at query 0)"
  proof -
    have "be_bytes16 (u16_at query 0) = take 2 query"
      using be_bytes16_at [of 0 query] by (simp add: m h)
    also have "\<dots> = [query ! 0, query ! 1]"
      by (simp add: m h take_Suc_conv_app_nth nth_append numeral_2_eq_2)
    finally show ?thesis by simp
  qed
  ultimately show ?thesis
    by (simp add: build_a_response_def header_def be_bytes16_lits plain_flags_def)
qed

lemma read_rr_end: "read_rr msg (length msg) = Inl NameOutOfBounds"
  by (simp add: read_rr_def read_name_compressed_def read_name_c.simps [of msg "length msg"])

lemma read_section_add:
  "read_section msg (m + n) i out =
     (case read_section msg m i out of Inl e \<Rightarrow> Inl e | Inr (rs, k) \<Rightarrow> read_section msg n k rs)"
  by (induction m arbitrary: i out) (auto split: sum.split)

lemma skipped_records:
  "concat (map (a_record ttl) ips) = concat (map (a_record ttl) (filter (\<lambda>i. to4 i \<noteq> []) ips))"
  by (induction ips) (auto simp: a_record_def)

text \<open>The records of the response to a query, whatever number of them the header announces.\<close>

lemma response_sections:
  fixes ttl :: u32 and ips :: "ip list"
  assumes "wire_query query ls t c" "labels_below 192 ls"
  defines "msg \<equiv> build_a_response query (the_question ls t c) ips ttl"
  defines "good \<equiv> filter (\<lambda>i. to4 i \<noteq> []) ips"
  shows "\<exists>rs. read_questions msg 1 True 12 ([], 0, 0) =
      Inr ((join ''.'' ls, t, c), 12 + length (encode_name ls) + 4) \<and>
    read_section msg (length good) (12 + length (encode_name ls) + 4) [] = Inr (rs, length msg) \<and>
    map answer_view rs = map (\<lambda>i. (join ''.'' ls, type_A, class_IN, ttl, to4 i)) good"
proof -
  let ?h = "header (u16_at query 0) plain_flags 1 (of_nat (length ips)) 0 0"
  let ?pre = "?h @ encode_name ls @ be_bytes16 t @ be_bytes16 c"
  have m: "msg = ?h @ encode_name ls @ be_bytes16 t @ be_bytes16 c @ concat (map (a_record ttl) ips)"
    unfolding msg_def by (rule answer_bytes [OF assms(1)])
  then have m2: "msg = ?pre @ concat (map (a_record ttl) good) @ []"
    by (simp add: good_def skipped_records [symmetric])
  have lp: "length ?pre = 12 + length (encode_name ls) + 4" by simp
  have q: "read_questions msg 1 True 12 ([], 0, 0) =
      Inr ((join ''.'' ls, t, c), 12 + length (encode_name ls) + 4)"
    using assms(2) length_header m by (rule read_one_question)
  have "read_name_c msg 12 True 1 k [] = Inr (join ''.'' ls, k)" for k
    unfolding m using assms(2) length_header by (subst read_name_c_encode) simp_all
  from read_section_a [OF _ m2 this, of "[]"] obtain rs where rs:
    "read_section msg (length good) (length ?pre) [] = Inr (rs, length ?pre + 16 * length good)"
    "map answer_view rs = map (\<lambda>i. (join ''.'' ls, type_A, class_IN, ttl, to4 i)) good"
    by (auto simp: good_def list_all_iff)
  have "length (concat (map (a_record ttl) good)) = 16 * length good"
    unfolding good_def by (induction ips) (simp_all add: length_a_record)
  then have "length msg = length ?pre + 16 * length good" unfolding m2 by simp
  with q rs show ?thesis unfolding lp by auto
qed

lemma parse_answer:
  fixes ttl :: u32 and ips :: "ip list"
  assumes "wire_query query ls t c" "labels_below 192 ls" "length ips < 65536"
  defines "msg \<equiv> build_a_response query (the_question ls t c) ips ttl"
  shows "if list_all (\<lambda>i. to4 i \<noteq> []) ips
    then \<exists>rs. parse_full_message msg = Inr \<lparr>m_id = u16_at query 0, m_flags = plain_flags,
        m_qname = join ''.'' ls, m_qtype = t, m_qclass = c, m_answers = rs, m_authority = [],
        m_additional = [], m_raw = msg\<rparr> \<and>
      map answer_view rs = map (\<lambda>i. (join ''.'' ls, type_A, class_IN, ttl, to4 i)) ips
    else parse_full_message msg = Inl NameOutOfBounds"
proof -
  let ?good = "filter (\<lambda>i. to4 i \<noteq> []) ips"
  have m: "msg = header (u16_at query 0) plain_flags 1 (of_nat (length ips)) 0 0 @
    encode_name ls @ be_bytes16 t @ be_bytes16 c @ concat (map (a_record ttl) ips)"
    unfolding msg_def by (rule answer_bytes [OF assms(1)])
  have n: "unat (u16_at msg 6) = length ips" "unat (u16_at msg 4) = 1" "\<not> length msg < 12"
    "u16_at msg 0 = u16_at query 0" "u16_at msg 2 = plain_flags" "u16_at msg 8 = 0" "u16_at msg 10 = 0"
    using assms(3) by (simp_all add: m unat_of_nat)
  obtain rs where q: "read_questions msg 1 True 12 ([], 0, 0) =
      Inr ((join ''.'' ls, t, c), 12 + length (encode_name ls) + 4)"
    and s: "read_section msg (length ?good) (12 + length (encode_name ls) + 4) [] = Inr (rs, length msg)"
    and v: "map answer_view rs = map (\<lambda>i. (join ''.'' ls, type_A, class_IN, ttl, to4 i)) ?good"
    using response_sections [OF assms(1,2), of ips ttl] unfolding msg_def by blast
  show ?thesis
  proof (cases "list_all (\<lambda>i. to4 i \<noteq> []) ips")
    case True
    then have "?good = ips" by (auto simp: list_all_iff intro: filter_True)
    with q s v n True show ?thesis by (simp add: parse_full_message_def)
  next
    case False
    then have "length ?good < length ips"
      by (auto simp: list_all_iff intro: length_filter_less)
    then obtain k where k: "length ips = length ?good + Suc k" by (metis less_iff_Suc_add add_Suc_right)
    have "read_section msg (length ips) (12 + length (encode_name ls) + 4) [] = Inl NameOutOfBounds"
      unfolding k read_section_add s by (simp add: read_rr_end)
    with q n False show ?thesis by (simp add: parse_full_message_def)
  qed
qed

end
