(* ===== verification/Dns_Resolver.thy ===== *)
theory Dns_Resolver
  imports Dns_Trip
begin

text \<open>
  The recursive resolver, \<open>internal/dnsserver/resolver.go\<close>: \<open>queryServers\<close>,
  \<open>resolveIterativeFrom\<close>, \<open>resolveIterative\<close> and the root hints. What the outside world
  does is a parameter that threads its own state \<open>'w\<close>: one UDP exchange (the datagram read
  back, or \<^const>\<open>None\<close> when dialling, writing or reading fails or times out), the random
  message id, the order in which Go iterates over a map, and the clock (in nanoseconds).
\<close>

record 'w outside =
  exchange :: "'w \<Rightarrow> string \<Rightarrow> byte list \<Rightarrow> byte list option \<times> 'w"
  random16 :: "'w \<Rightarrow> u16 \<times> 'w"
  range_order :: "'w \<Rightarrow> string list \<Rightarrow> string list \<times> 'w"
  clock :: "'w \<Rightarrow> int"

fun ask_servers ::
  "'w outside \<Rightarrow> u16 \<Rightarrow> byte list \<Rightarrow> string list \<Rightarrow> dns_error option \<Rightarrow> 'w \<Rightarrow> (dns_error + dns_message) \<times> 'w" where
  "ask_servers out i query [] lasterr w = (Inl (AllUnreachable lasterr), w)"
| "ask_servers out i query (srv # rest) lasterr w =
     (case exchange out w srv query of
        (None, w') \<Rightarrow> ask_servers out i query rest (Some IOFailed) w'
      | (Some b, w') \<Rightarrow>
          (case parse_full_message (take 4096 b) of
             Inl e \<Rightarrow> ask_servers out i query rest (Some e) w'
           | Inr m \<Rightarrow>
               if m_id m \<noteq> i then ask_servers out i query rest (Some IdMismatch) w'
               else (Inr m, w')))"

definition query_servers ::
  "'w outside \<Rightarrow> string list \<Rightarrow> string \<Rightarrow> u16 \<Rightarrow> 'w \<Rightarrow> (dns_error + dns_message) \<times> 'w" where
  "query_servers out servers qname qtype w =
     (case random16 out w of (i, w') \<Rightarrow>
        ask_servers out i (build_iterative_query i qname qtype) servers None w')"

record resolved_answer =
  ra_ips :: "ip list"
  ra_ttl :: u32

section \<open>Reading a response\<close>

text \<open>\<open>strings.EqualFold\<close> on names, up to the final dot.\<close>

definition lower_name :: "string \<Rightarrow> string" where
  "lower_name s = to_lower (trim_suffix s ''.'')"

record answer_scan =
  as_ips :: "ip list"
  as_cname :: string
  as_ttl :: u32

definition scan_answer :: "byte list \<Rightarrow> string \<Rightarrow> rr \<Rightarrow> answer_scan \<Rightarrow> answer_scan" where
  "scan_answer raw current a s =
     (if lower_name (rr_name a) \<noteq> lower_name current then s
      else if rr_type a = type_A then
        (if length (rr_data a) = 4
         then s\<lparr>as_ips := as_ips s @ [rr_data a], as_ttl := min (rr_ttl a) (as_ttl s)\<rparr> else s)
      else if rr_type a = type_CNAME then
        (case read_name_compressed raw (rr_data_offset a) of
           Inl _ \<Rightarrow> s
         | Inr (target, _) \<Rightarrow> s\<lparr>as_cname := target, as_ttl := min (rr_ttl a) (as_ttl s)\<rparr>)
      else s)"

definition scan_answers :: "dns_message \<Rightarrow> string \<Rightarrow> answer_scan" where
  "scan_answers m current =
     fold (scan_answer (m_raw m) current) (m_answers m) \<lparr>as_ips = [], as_cname = '''', as_ttl = - 1\<rparr>"

text \<open>The keys of \<open>nsNames\<close>; the order of the list means nothing.\<close>

definition ns_name :: "byte list \<Rightarrow> rr \<Rightarrow> string option" where
  "ns_name raw a =
     (if rr_type a = type_NS then
        (case read_name_compressed raw (rr_data_offset a) of
           Inl _ \<Rightarrow> None | Inr (name, _) \<Rightarrow> Some (to_lower name))
      else None)"

definition ns_names :: "dns_message \<Rightarrow> string list" where
  "ns_names m = remdups (map the (filter (\<lambda>n. n \<noteq> None) (map (ns_name (m_raw m)) (m_authority m))))"

definition join_host_port :: "string \<Rightarrow> string \<Rightarrow> string" where
  "join_host_port host port =
     (if CHR '':'' \<in> set host then ''['' @ host @ '']:'' @ port else host @ '':'' @ port)"

definition glue_servers :: "dns_message \<Rightarrow> string list" where
  "glue_servers m =
     map (\<lambda>a. join_host_port (ip_string (rr_data a)) ''53'')
       (filter (\<lambda>a. rr_type a = type_A \<and> length (rr_data a) = 4 \<and> lower_name (rr_name a) \<in> set (ns_names m))
         (m_additional m))"

section \<open>Following referrals\<close>

definition max_resolution_depth :: nat where
  "max_resolution_depth = 10"

text \<open>
  \<open>resolve_from\<close> is \<open>resolveIterativeFrom\<close>, \<open>resolve_hops\<close> its loop with the number of hops
  left, \<open>resolve_ns\<close> the loop over the names of a referral without glue; the depth of the
  nested lookups is \<open>d\<close>.
\<close>

function resolve_from ::
  "'w outside \<Rightarrow> string list \<Rightarrow> nat \<Rightarrow> string \<Rightarrow> u16 \<Rightarrow> 'w \<Rightarrow> (dns_error + resolved_answer) \<times> 'w"
and resolve_hops ::
  "'w outside \<Rightarrow> string list \<Rightarrow> nat \<Rightarrow> nat \<Rightarrow> string \<Rightarrow> u16 \<Rightarrow> string \<Rightarrow> string list \<Rightarrow> 'w
    \<Rightarrow> (dns_error + resolved_answer) \<times> 'w"
and resolve_ns ::
  "'w outside \<Rightarrow> string list \<Rightarrow> nat \<Rightarrow> string list \<Rightarrow> 'w \<Rightarrow> string list \<times> 'w" where
  "resolve_from out start 0 qname qtype w = (Inl (DepthExceeded qname), w)"
| "resolve_from out start (Suc d) qname qtype w =
     resolve_hops out start d max_referral_hops qname qtype (lower_name qname @ ''.'') start w"
| "resolve_hops out start d 0 qname qtype current servers w = (Inl (TooManyHops qname), w)"
| "resolve_hops out start d (Suc h) qname qtype current servers w =
     (case query_servers out servers current qtype w of
        (Inl e, w1) \<Rightarrow> (Inl e, w1)
      | (Inr m, w1) \<Rightarrow>
          (let s = scan_answers m current in
           if as_ips s \<noteq> [] then
             (Inr \<lparr>ra_ips = as_ips s, ra_ttl = if as_ttl s = - 1 then 60 else as_ttl s\<rparr>, w1)
           else if as_cname s \<noteq> '''' then
             resolve_hops out start d h qname qtype (lower_name (as_cname s) @ ''.'') start w1
           else if ns_names m = [] then (Inl (NoAnswer current), w1)
           else (case (if glue_servers m \<noteq> [] then (glue_servers m, w1)
                       else (case range_order out w1 (ns_names m) of
                               (names, w2) \<Rightarrow> resolve_ns out start d names w2)) of
                   (nxt, w3) \<Rightarrow>
                     if nxt = [] then (Inl (NoGlue current), w3)
                     else resolve_hops out start d h qname qtype current nxt w3)))"
| "resolve_ns out start d [] w = ([], w)"
| "resolve_ns out start d (n # names) w =
     (case resolve_from out start d n type_A w of
        (Inl _, w') \<Rightarrow> resolve_ns out start d names w'
      | (Inr a, w') \<Rightarrow>
          if ra_ips a = [] then resolve_ns out start d names w'
          else (map (\<lambda>i. join_host_port (ip_string i) ''53'') (ra_ips a), w'))"
  by pat_completeness auto
termination
proof (relation "measures
    [\<lambda>x. case x of Inl (out, start, d, q, t, w) \<Rightarrow> d
        | Inr (Inl (out, start, d, h, q, t, c, ss, w)) \<Rightarrow> d
        | Inr (Inr (out, start, d, ns, w)) \<Rightarrow> d,
     \<lambda>x. case x of Inl _ \<Rightarrow> 0 | Inr (Inl _) \<Rightarrow> 2 | Inr (Inr _) \<Rightarrow> 1,
     \<lambda>x. case x of Inl _ \<Rightarrow> 0
        | Inr (Inl (out, start, d, h, q, t, c, ss, w)) \<Rightarrow> h
        | Inr (Inr (out, start, d, ns, w)) \<Rightarrow> length ns]", goal_cases)
  case 1
  show ?case by (rule wf_measures)
qed (simp_all only: in_measures sum.case prod.case list.size lessI simp_thms, simp_all)

definition root_servers :: "string list" where
  "root_servers = [''198.41.0.4'', ''199.9.14.201'', ''192.33.4.12'', ''199.7.91.13'',
     ''192.203.230.10'', ''192.5.5.241'', ''192.112.36.4'', ''198.97.190.53'', ''192.36.148.17'',
     ''192.58.128.30'', ''193.0.14.129'', ''199.7.83.42'', ''202.12.27.33'']"

definition resolve_iterative ::
  "'w outside \<Rightarrow> string \<Rightarrow> u16 \<Rightarrow> 'w \<Rightarrow> (dns_error + resolved_answer) \<times> 'w" where
  "resolve_iterative out qname qtype w =
     resolve_from out (map (\<lambda>i. join_host_port i ''53'') root_servers) max_resolution_depth qname qtype w"

end
