(* ===== verification/Dns_Server.thy ===== *)
theory Dns_Server
  imports Config Dns_Cache Dns_Resolver
begin

text \<open>
  The DNS server, \<open>internal/dnsserver/server.go\<close>: \<open>lookupLocal\<close>, \<open>forward\<close>,
  \<open>handleRecursive\<close> and \<open>handle\<close>, with the choice of the reply's source address of
  \<open>pktinfo_linux.go\<close>. A handler returns the reply, if it sends one, the cache and the
  state of the outside world. Each query is handled in one step: the goroutines share only
  the cache, whose operations lock it.
\<close>

section \<open>Names the router knows\<close>

definition host_record :: "string \<Rightarrow> string \<Rightarrow> lan_segment \<Rightarrow> config_data \<Rightarrow> string option" where
  "host_record suf name g snap =
     (let host = trim_suffix name suf in
      case find (\<lambda>l. lease_segment_id l = seg_id g \<and> to_lower (lease_hostname l) = host) (leases snap) of
        Some l \<Rightarrow> Some (lease_ip l)
      | None \<Rightarrow>
          (case find (\<lambda>r. res_segment_id r = seg_id g \<and> to_lower (res_hostname r) = host) (reservations snap) of
             Some r \<Rightarrow> Some (res_ip r)
           | None \<Rightarrow> None))"

fun lookup_segments :: "lan_segment list \<Rightarrow> string \<Rightarrow> config_data \<Rightarrow> string option" where
  "lookup_segments [] name snap = None"
| "lookup_segments (g # gs) name snap =
     (let suf = ''.'' @ to_lower (seg_domain g) in
      if \<not> suffix suf name then lookup_segments gs name snap
      else (case host_record suf name g snap of
          Some i \<Rightarrow> Some i | None \<Rightarrow> lookup_segments gs name snap))"

text \<open>An address that does not parse is the nil address, and is answered all the same.\<close>

definition lookup_local :: "config_data \<Rightarrow> string \<Rightarrow> ip option" where
  "lookup_local snap name0 =
     (let name = to_lower (trim_suffix name0 ''.'') in
      case find (\<lambda>r. to_lower (rec_name r) = name) (dns_records snap) of
        Some r \<Rightarrow> Some (parse_ip (rec_ip r))
      | None \<Rightarrow> map_option parse_ip (lookup_segments (lan_segments snap) name snap))"

section \<open>Forwarding\<close>

fun forward_loop :: "'w outside \<Rightarrow> byte list \<Rightarrow> string list \<Rightarrow> 'w \<Rightarrow> byte list option \<times> 'w" where
  "forward_loop out msg [] w = (None, w)"
| "forward_loop out msg (upstream # rest) w =
     (case exchange out w upstream msg of
        (None, w') \<Rightarrow> forward_loop out msg rest w'
      | (Some b, w') \<Rightarrow> (Some (take 512 b), w'))"

definition forward_query :: "'w outside \<Rightarrow> config_data \<Rightarrow> byte list \<Rightarrow> 'w \<Rightarrow> byte list option \<times> 'w" where
  "forward_query out snap msg w = forward_loop out msg (upstream_servers snap) w"

section \<open>Where a query arrived\<close>

text \<open>A control message as the kernel delivers it, decoded.\<close>

record control_message =
  cm_level :: int
  cm_type :: int
  cm_data :: "byte list"

definition pktinfo_len :: nat where "pktinfo_len = 12"

definition ipproto_ip :: int where "ipproto_ip = 0"
definition ip_pktinfo :: int where "ip_pktinfo = 8"

definition local_from_oob :: "control_message list \<Rightarrow> ip" where
  "local_from_oob msgs =
     (case find (\<lambda>m. cm_level m = ipproto_ip \<and> cm_type m = ip_pktinfo \<and>
             pktinfo_len \<le> length (cm_data m) \<and> take 4 (drop 8 (cm_data m)) \<noteq> [0, 0, 0, 0]) msgs of
        Some m \<Rightarrow> v4_in_v6_prefix @ take 4 (drop 8 (cm_data m))
      | None \<Rightarrow> [])"

text \<open>The source address a reply is pinned to (none: the kernel chooses) and its bytes.\<close>

type_synonym dns_reply = "ip \<times> byte list"

definition write_reply :: "byte list \<Rightarrow> ip \<Rightarrow> dns_reply" where
  "write_reply resp local = (to4 local, resp)"

section \<open>Handling a query\<close>

definition cache_key :: "question \<Rightarrow> string" where
  "cache_key q = to_lower (q_name q) @ ''|A''"

definition handle_recursive ::
  "'w outside \<Rightarrow> config_data \<Rightarrow> recursive_cache \<Rightarrow> byte list \<Rightarrow> question \<Rightarrow> ip \<Rightarrow> 'w
    \<Rightarrow> dns_reply option \<times> recursive_cache \<times> 'w" where
  "handle_recursive out snap cache msg q local w =
     (case cache_get (clock out w) (cache_key q) cache of
        (Some ips, cache') \<Rightarrow> (Some (write_reply (build_a_response msg q ips 60) local), cache', w)
      | (None, cache') \<Rightarrow>
          (case resolve_iterative out (q_name q) type_A w of
             (Inl _, w1) \<Rightarrow>
               (case forward_query out snap msg w1 of
                  (None, w2) \<Rightarrow> (None, cache', w2)
                | (Some resp, w2) \<Rightarrow> (Some (write_reply resp local), cache', w2))
           | (Inr a, w1) \<Rightarrow>
               (Some (write_reply (build_a_response msg q (ra_ips a) (ra_ttl a)) local),
                cache_set (clock out w1) (cache_key q) (ra_ips a) (ra_ttl a) cache', w1)))"

definition dns_handle ::
  "'w outside \<Rightarrow> config_data \<Rightarrow> recursive_cache \<Rightarrow> byte list \<Rightarrow> ip \<Rightarrow> 'w
    \<Rightarrow> dns_reply option \<times> recursive_cache \<times> 'w" where
  "dns_handle out snap cache msg local w =
     (case parse_question msg of
        Inl _ \<Rightarrow> (None, cache, w)
      | Inr q \<Rightarrow>
          (case lookup_local snap (q_name q) of
             Some i \<Rightarrow> (Some (write_reply (build_a_response msg q [i] 60) local), cache, w)
           | None \<Rightarrow>
               if dns_mode snap = ''recursive'' \<and> q_qtype q = type_A
               then handle_recursive out snap cache msg q local w
               else (case forward_query out snap msg w of
                   (None, w') \<Rightarrow> (None, cache, w')
                 | (Some resp, w') \<Rightarrow> (Some (write_reply resp local), cache, w'))))"

text \<open>One turn of the read loop in \<open>Run\<close>: a datagram is cut to the buffer of 512 bytes.\<close>

definition dns_serve ::
  "'w outside \<Rightarrow> config_data \<Rightarrow> recursive_cache \<Rightarrow> byte list \<Rightarrow> control_message list \<Rightarrow> 'w
    \<Rightarrow> dns_reply option \<times> recursive_cache \<times> 'w" where
  "dns_serve out snap cache datagram oob w =
     dns_handle out snap cache (take 512 datagram) (local_from_oob oob) w"

end
