(* ===== verification/Dns_Claims.thy ===== *)
theory Dns_Claims
  imports Dns_Server
begin

text \<open>
  Properties of the DNS server: what the message readers accept, answers read back by the
  server's own parser, the cache as a log, the resolver against the chains of referrals it
  follows, and the handler.
\<close>

section \<open>Reading messages\<close>

lemma parse_full_parts:
  assumes "parse_full_message msg = Inr m"
  obtains q o1 o2 o3 o4 where "12 \<le> length msg"
    "read_questions msg (unat (u16_at msg 4)) True 12 ([], 0, 0) = Inr (q, o1)"
    "read_section msg (unat (u16_at msg 6)) o1 [] = Inr (m_answers m, o2)"
    "read_section msg (unat (u16_at msg 8)) o2 [] = Inr (m_authority m, o3)"
    "read_section msg (unat (u16_at msg 10)) o3 [] = Inr (m_additional m, o4)"
    "m_raw m = msg" "m_id m = u16_at msg 0"
  using assms
  by (auto simp: parse_full_message_def not_less split: if_splits sum.splits prod.splits)

lemma parse_full_bounds:
  assumes "parse_full_message msg = Inr m"
  shows "12 + 11 * (length (m_answers m) + length (m_authority m) + length (m_additional m)) \<le> length msg"
    and "list_all (rr_inside msg) (m_answers m @ m_authority m @ m_additional m)"
    and "length (m_answers m) = unat (u16_at msg 6)"
    and "m_raw m = msg"
proof -
  obtain q o1 o2 o3 o4 where l: "12 \<le> length msg"
    and q: "read_questions msg (unat (u16_at msg 4)) True 12 ([], 0, 0) = Inr (q, o1)"
    and a: "read_section msg (unat (u16_at msg 6)) o1 [] = Inr (m_answers m, o2)"
    and n: "read_section msg (unat (u16_at msg 8)) o2 [] = Inr (m_authority m, o3)"
    and x: "read_section msg (unat (u16_at msg 10)) o3 [] = Inr (m_additional m, o4)"
    and raw: "m_raw m = msg"
    using assms by (rule parse_full_parts)
  have 1: "12 \<le> o1 \<and> o1 \<le> length msg" using read_questions_bounds [OF q l] by simp
  note 2 = read_section_bounds [OF a conjunct2 [OF 1]]
  then have o2: "o2 \<le> length msg" by simp
  note 3 = read_section_bounds [OF n o2]
  then have o3: "o3 \<le> length msg" by simp
  note 4 = read_section_bounds [OF x o3]
  from 1 2 3 4 show "12 + 11 * (length (m_answers m) + length (m_authority m) + length (m_additional m)) \<le> length msg"
    by simp
  from 2 3 4 show "list_all (rr_inside msg) (m_answers m @ m_authority m @ m_additional m)" by simp
  from 2 show "length (m_answers m) = unat (u16_at msg 6)" by simp
  from raw show "m_raw m = msg" .
qed

text \<open>C36: A message that parses is never larger in memory than its bytes warrant, whatever its
  counters and its compression pointers say: every record takes at least eleven bytes of it,
  its data is a slice of it, and no name is longer than twenty-one times the message.\<close>

theorem parsed_message_bounds:
  assumes "parse_full_message msg = Inr m"
  shows "12 + 11 * (length (m_answers m) + length (m_authority m) + length (m_additional m)) \<le> length msg \<and>
    (\<forall>r \<in> set (m_answers m @ m_authority m @ m_additional m).
       rr_data_offset r + length (rr_data r) \<le> length msg \<and>
       rr_data r = take (length (rr_data r)) (drop (rr_data_offset r) msg) \<and>
       length (rr_name r) \<le> 21 * length msg)"
  using parse_full_bounds(1,2) [OF assms] by (auto simp: rr_inside_def list_all_iff)

text \<open>A query for \<open>nas.lan\<close> with id 0x1234.\<close>

definition ex_dns_query :: "byte list" where
  "ex_dns_query = [0x12, 0x34, 1, 0, 0, 1, 0, 0, 0, 0, 0, 0, 3, 110, 97, 115, 3, 108, 97, 110, 0,
     0, 1, 0, 1]"

lemma ex_wire: "wire_query ex_dns_query [''nas'', ''lan''] 1 1"
proof -
  have "ex_dns_query = [0x12, 0x34, 1, 0, 0, 1, 0, 0, 0, 0, 0, 0] @ encode_name [''nas'', ''lan'']
      @ be_bytes16 1 @ be_bytes16 1 @ []" by code_simp
  moreover have "u16_at [0x12, 0x34, 1, 0, 0, 1, 0, 0, 0, 0, 0, 0] 4 \<noteq> 0" by code_simp
  ultimately show ?thesis unfolding wire_query_def
    by (intro exI [of _ "[0x12, 0x34, 1, 0, 0, 1, 0, 0, 0, 0, 0, 0]"] exI [of _ "[]"]) simp
qed

lemma ex_labels: "labels_below 64 [''nas'', ''lan'']"
  by simp

theorem parsed_message_bounds_witness:
  "\<exists>m. parse_full_message (build_a_response ex_dns_query (the_question [''nas'', ''lan''] 1 1)
       [[192, 168, 2, 9]] 60) = Inr m \<and> 12 + 11 * length (m_answers m) \<le>
     length (build_a_response ex_dns_query (the_question [''nas'', ''lan''] 1 1) [[192, 168, 2, 9]] 60)"
proof -
  let ?r = "build_a_response ex_dns_query (the_question [''nas'', ''lan''] 1 1) [[192, 168, 2, 9]] 60"
  from parse_answer [OF ex_wire labels_below_mono [OF ex_labels], of "[[192, 168, 2, 9]]" 60]
  obtain m where m: "parse_full_message ?r = Inr m" by auto
  with parsed_message_bounds [OF m] show ?thesis by auto
qed

section \<open>Round trips\<close>

text \<open>C34: A query with labels of 1 to 63 bytes is accepted with its name, type and class, and
  an answer of IPv4 addresses to it is read back by the full parser: the same id and
  question, and one address record per address, in order, with the given lifetime.\<close>

theorem answer_parses_back:
  assumes "wire_query query ls t c" "labels_below 64 ls" "\<forall>i \<in> set ips. to4 i \<noteq> []" "length ips < 65536"
  shows "\<exists>q m. parse_question query = Inr q \<and> q_name q = join ''.'' ls \<and> q_qtype q = t \<and> q_qclass q = c \<and>
    parse_full_message (build_a_response query q ips ttl) = Inr m \<and>
    m_id m = u16_at query 0 \<and> m_flags m = 0x8080 \<and> m_qname m = join ''.'' ls \<and> m_qtype m = t \<and> m_qclass m = c \<and>
    map answer_view (m_answers m) = map (\<lambda>i. (join ''.'' ls, type_A, class_IN, ttl, to4 i)) ips \<and>
    m_authority m = [] \<and> m_additional m = []"
proof -
  have p: "parse_question query = Inr (the_question ls t c)"
    using assms(1) labels_below_mono [OF assms(2)] by (intro parse_question_wire) simp_all
  have "list_all (\<lambda>i. to4 i \<noteq> []) ips" using assms(3) by (simp add: list_all_iff)
  then obtain rs where rs: "parse_full_message (build_a_response query (the_question ls t c) ips ttl) =
      Inr \<lparr>m_id = u16_at query 0, m_flags = plain_flags, m_qname = join ''.'' ls, m_qtype = t, m_qclass = c,
        m_answers = rs, m_authority = [], m_additional = [],
        m_raw = build_a_response query (the_question ls t c) ips ttl\<rparr>"
    "map answer_view rs = map (\<lambda>i. (join ''.'' ls, type_A, class_IN, ttl, to4 i)) ips"
    using parse_answer [OF assms(1) labels_below_mono [OF assms(2)] assms(4), of ttl] by auto
  have "plain_flags = 0x8080" by code_simp
  moreover obtain m where m: "m = \<lparr>m_id = u16_at query 0, m_flags = plain_flags, m_qname = join ''.'' ls,
      m_qtype = t, m_qclass = c, m_answers = rs, m_authority = [], m_additional = [],
      m_raw = build_a_response query (the_question ls t c) ips ttl\<rparr>" by simp
  ultimately show ?thesis
    using p rs by (intro exI [of _ "the_question ls t c"] exI [of _ m]) (simp add: the_question_def)
qed

theorem answer_parses_back_witness:
  "\<exists>q m. parse_question ex_dns_query = Inr q \<and>
     parse_full_message (build_a_response ex_dns_query q [[192, 168, 2, 9]] 60) = Inr m \<and>
     map answer_view (m_answers m) = [(''nas.lan'', 1, 1, 60, [192, 168, 2, 9])]"
proof -
  have "\<forall>i \<in> set [[192, 168, 2, 9] :: ip]. to4 i \<noteq> []" "length [[192, 168, 2, 9] :: ip] < 65536"
    by simp_all
  from answer_parses_back [OF ex_wire ex_labels this, of 60] show ?thesis by auto
qed

end
