(* ===== verification/Dns_Resolution.thy ===== *)
theory Dns_Resolution
  imports Dns_Claims
begin

text \<open>
  The recursive resolver: which replies it accepts, what its answers look like, that it
  answers exactly when a chain of at most twenty referrals leads to one, and how many
  queries a hostile server can make it send. The cache as a log of what was stored.
\<close>

section \<open>The cache\<close>

type_synonym cache_log = "(int \<times> string \<times> (ip list \<times> u32) option) list"

text \<open>A log of lookups (\<^const>\<open>None\<close>) and stored answers, each with its time and key.\<close>

definition run_cache :: "cache_log \<Rightarrow> recursive_cache" where
  "run_cache ops = fold (\<lambda>(t, k, x) c. case x of None \<Rightarrow> snd (cache_get t k c)
     | Some (ips, ttl) \<Rightarrow> cache_set t k ips ttl c) ops new_recursive_cache"

definition last_stored :: "string \<Rightarrow> cache_log \<Rightarrow> (int \<times> ip list \<times> u32) option" where
  "last_stored k ops = fold (\<lambda>(t, k', x) acc. case x of None \<Rightarrow> acc
     | Some (ips, ttl) \<Rightarrow> if k' = k then Some (t, ips, ttl) else acc) ops None"

lemma run_cache_perform: "run_cache ops = fold rcache.perform ops new_recursive_cache"
  unfolding run_cache_def rcache.perform_def [abs_def]
  by (rule arg_cong [of _ _ "\<lambda>f. fold f ops new_recursive_cache"])
     (auto simp: fun_eq_iff split: option.split)

lemma last_stored_put: "last_stored k ops = rcache.last_put k ops"
proof (induction ops rule: rev_induct)
  case Nil
  show ?case by (simp add: last_stored_def rcache.last_put_def)
next
  case (snoc op ops)
  then show ?case
    by (cases op) (simp add: last_stored_def rcache.last_put_snoc split: option.split prod.split)
qed

lemma run_cache_snoc:
  "run_cache (ops @ [(t, k, x)]) = (case x of None \<Rightarrow> snd (cache_get t k (run_cache ops))
     | Some (ips, ttl) \<Rightarrow> cache_set t k ips ttl (run_cache ops))"
  by (simp add: run_cache_def split: option.split prod.split)

lemma run_cache_counts:
  "rc_hits (run_cache ops) + rc_misses (run_cache ops) = length (filter (\<lambda>(t, k, x). x = None) ops)"
proof (induction ops rule: rev_induct)
  case Nil
  show ?case by (simp add: run_cache_def new_recursive_cache_def)
next
  case (snoc op ops)
  have "rc_hits (snd (cache_get t k c)) + rc_misses (snd (cache_get t k c)) =
      Suc (rc_hits c + rc_misses c)" for t k c
    by (simp add: cache_get_def split: option.split)
  with snoc show ?case
    by (cases op) (simp add: run_cache_snoc cache_set_def split: option.split prod.split)
qed

text \<open>C37: Over any sequence of lookups and stored answers, the cache returns what was stored
  last under the key, for its lifetime and no longer: a lifetime of zero counts as thirty
  seconds and none exceeds six hours. Every lookup is counted as a hit or a miss.\<close>

theorem cache_is_a_log:
  "fst (cache_get now k (run_cache ops)) =
     (case last_stored k ops of None \<Rightarrow> None
      | Some (t, ips, ttl) \<Rightarrow> if now \<le> t + ttl_duration ttl then Some ips else None) \<and>
   ttl_duration ttl = min (if ttl = 0 then 30 else int (unat ttl)) (6 * 3600) * 1000000000 \<and>
   fst (snd (cache_stats (run_cache ops))) + snd (snd (cache_stats (run_cache ops))) =
     length (filter (\<lambda>(t, k, x). x = None) ops)"
proof (intro conjI)
  show "fst (cache_get now k (run_cache ops)) =
     (case last_stored k ops of None \<Rightarrow> None
      | Some (t, ips, ttl) \<Rightarrow> if now \<le> t + ttl_duration ttl then Some ips else None)"
    unfolding run_cache_perform last_stored_put by (rule rcache.lookup_log)
  show "ttl_duration ttl = min (if ttl = 0 then 30 else int (unat ttl)) (6 * 3600) * 1000000000"
    by (auto simp: ttl_duration_def second_def max_ttl_def min_def Let_def)
  show "fst (snd (cache_stats (run_cache ops))) + snd (snd (cache_stats (run_cache ops))) =
     length (filter (\<lambda>(t, k, x). x = None) ops)"
    by (simp add: cache_stats_def run_cache_counts)
qed

section \<open>Accepted replies\<close>

lemma ask_servers_Inr:
  "ask_servers out i query servers lasterr w = (Inr m, w') \<Longrightarrow>
   m_id m = i \<and> (\<exists>srv \<in> set servers. \<exists>w1 b. fst (exchange out w1 srv query) = Some b \<and>
     parse_full_message (take 4096 b) = Inr m)"
proof (induction out i query servers lasterr w rule: ask_servers.induct)
  case (2 out i query srv rest lasterr w)
  obtain r w1 where x: "exchange out w srv query = (r, w1)" by (cases "exchange out w srv query")
  show ?case
  proof (cases r)
    case None
    with x 2 show ?thesis by auto
  next
    case (Some b)
    show ?thesis
    proof (cases "parse_full_message (take 4096 b)")
      case (Inl e)
      with x Some "2.prems" "2.IH"(2) [OF x [symmetric] Some Inl] show ?thesis by auto
    next
      case (Inr m')
      show ?thesis
      proof (cases "m_id m' = i")
        case True
        with x Some Inr "2.prems" have "m = m'" by simp
        moreover have "fst (exchange out w srv query) = Some b" using x Some by simp
        ultimately show ?thesis using True Inr by auto
      next
        case False
        with x Some Inr "2.prems" "2.IH"(3) [OF x [symmetric] Some Inr] show ?thesis by auto
      qed
    qed
  qed
qed simp

text \<open>C38: A reply the resolver works with came from one of the servers it asked, in answer to
  this very query, and carries the random id drawn for it.\<close>

theorem accepted_reply:
  assumes "query_servers out servers name t w = (Inr m, w')"
  shows "m_id m = fst (random16 out w) \<and>
    (\<exists>srv \<in> set servers. \<exists>w1 b. fst (exchange out w1 srv (build_iterative_query (m_id m) name t)) = Some b \<and>
       parse_full_message (take 4096 b) = Inr m)"
  using assms by (auto simp: query_servers_def split: prod.splits dest!: ask_servers_Inr)

section \<open>What an answer looks like\<close>

lemma scan_answers_shape:
  "list_all (\<lambda>i. length i = 4) (as_ips (scan_answers m current)) \<and>
   length (as_ips (scan_answers m current)) \<le> length (m_answers m)"
proof -
  have "list_all (\<lambda>i. length i = 4) (as_ips (fold (scan_answer raw current) as s)) \<and>
      length (as_ips (fold (scan_answer raw current) as s)) \<le> length (as_ips s) + length as"
    if "list_all (\<lambda>i. length i = 4) (as_ips s)" for raw as s
    using that
  proof (induction as arbitrary: s)
    case (Cons a as)
    let ?s = "scan_answer raw current a s"
    have "list_all (\<lambda>i. length i = 4) (as_ips ?s)" "length (as_ips ?s) \<le> length (as_ips s) + 1"
      using Cons.prems by (auto simp: scan_answer_def split: sum.split)
    with Cons.IH [of ?s] show ?case by auto
  qed simp
  from this [of "\<lparr>as_ips = [], as_cname = '''', as_ttl = - 1\<rparr>"] show ?thesis
    by (simp add: scan_answers_def)
qed

definition usable_answer :: "resolved_answer \<Rightarrow> bool" where
  "usable_answer a \<longleftrightarrow> ra_ips a \<noteq> [] \<and> length (ra_ips a) < 65536 \<and> (\<forall>i \<in> set (ra_ips a). length i = 4)"

lemma queried_answers:
  assumes "query_servers out servers name t w = (Inr m, w')"
  shows "length (m_answers m) \<le> 371"
proof -
  obtain b where "parse_full_message (take 4096 b) = Inr m"
    using assms by (auto simp: query_servers_def split: prod.splits dest!: ask_servers_Inr)
  from parse_full_bounds(1) [OF this] show ?thesis by simp
qed

lemma resolve_usable:
  "resolve_from out start d q t w = (Inr a, w') \<Longrightarrow> usable_answer a"
  "resolve_hops out start d h q t cur servers w = (Inr a, w') \<Longrightarrow> usable_answer a"
  "resolve_ns out start d ns w = (nxt, w') \<Longrightarrow> True"
proof (induction out start d q t w and out start d h q t cur servers w and out start d ns w
    arbitrary: a w' and a w' rule: resolve_from_resolve_hops_resolve_ns.induct)
  case (4 out start d h q t cur servers w)
  obtain r w1 where qs: "query_servers out servers cur t w = (r, w1)"
    by (cases "query_servers out servers cur t w")
  show ?case
  proof (cases r)
    case (Inl e)
    with qs "4.prems" show ?thesis by simp
  next
    case (Inr m)
    let ?s = "scan_answers m cur"
    note qs' = qs [unfolded Inr]
    show ?thesis
    proof (cases "as_ips ?s = []")
      case False
      with qs' "4.prems" have "ra_ips a = as_ips ?s" by (auto simp: Let_def)
      with False scan_answers_shape [of m cur] queried_answers [OF qs'] show ?thesis
        by (auto simp: usable_answer_def list_all_iff)
    next
      case ips: True
      obtain nxt w3 where ns: "(if glue_servers m \<noteq> [] then (glue_servers m, w1)
          else (case range_order out w1 (ns_names m) of
            (names, w2) \<Rightarrow> resolve_ns out start d names w2)) = (nxt, w3)" by fastforce
      have IH1: "usable_answer a" if "as_cname ?s \<noteq> ''''"
          "resolve_hops out start d h q t (lower_name (as_cname ?s) @ ''.'') start w1 = (Inr a, w')"
        by (rule "4.IH"(1) [OF qs' [symmetric] refl refl _ that]) (simp add: ips)
      have IH2: "usable_answer a" if "as_cname ?s = ''''" "ns_names m \<noteq> []" "nxt \<noteq> []"
          "resolve_hops out start d h q t cur nxt w3 = (Inr a, w')"
        by (rule "4.IH"(3) [OF qs' [symmetric] refl refl _ _ that(2) ns [symmetric] that(3,4)])
           (simp_all add: ips that(1))
      from qs' ips ns "4.prems" IH1 IH2 show ?thesis by (auto simp: Let_def split: if_splits)
    qed
  qed
qed auto

text \<open>The documentation example of a one-server world: it answers every query with one address.\<close>

definition one_answer :: "nat outside" where
  "one_answer = \<lparr>exchange = (\<lambda>w srv q. (Some (build_a_response q
       \<lparr>q_name = [], q_qtype = 1, q_qclass = 1, q_name_end = length q\<rparr> [[10, 0, 0, 1]] 300), Suc w)),
     random16 = (\<lambda>w. (7, w)), range_order = (\<lambda>w ns. (ns, w)), clock = int\<rparr>"

lemma one_answer_query:
  assumes "list_all dns_label ls" "servers \<noteq> []" "length (encode_name ls) \<le> 4000"
  shows "\<exists>m. query_servers one_answer servers (join ''.'' ls @ ''.'') t w = (Inr m, Suc w) \<and>
    map answer_view (m_answers m) = [(join ''.'' ls, 1, 1, 300, [10, 0, 0, 1])]"
proof -
  let ?q = "build_iterative_query 7 (join ''.'' ls @ ''.'') t"
  have q: "?q = header 7 0 1 0 0 0 @ encode_name ls @ be_bytes16 t @ be_bytes16 1 @ []"
    by (rule query_bytes [OF assms(1)])
  have w: "wire_query ?q ls t 1" unfolding wire_query_def
    by (intro exI [of _ "header 7 0 1 0 0 0"] exI [of _ "[]"] conjI q)
       (use header_fields(3) [of 7 0 1 0 0 0 "[]"] in simp_all)
  have e: "q_name_end (the_question ls t 1) = length ?q" by (simp add: q the_question_def)
  then have r: "build_a_response ?q \<lparr>q_name = [], q_qtype = 1, q_qclass = 1, q_name_end = length ?q\<rparr> ips ttl =
      build_a_response ?q (the_question ls t 1) ips ttl" for ips ttl
    by (simp add: build_a_response_def)
  let ?r = "build_a_response ?q (the_question ls t 1) [[10, 0, 0, 1]] 300"
  have "u16_at ?q 0 = 7" unfolding q by (rule header_fields(1))
  with parse_answer [OF w dns_labels [OF assms(1)], of "[[10, 0, 0, 1]]" 300]
  obtain m where m: "parse_full_message ?r = Inr m" "m_id m = 7"
    "map answer_view (m_answers m) = [(join ''.'' ls, 1, 1, 300, [10, 0, 0, 1])]"
    by auto
  have "length ?r \<le> 4096"
    unfolding answer_bytes [OF w] using assms(3) length_a_record [of "[10, 0, 0, 1]" 300] by simp
  with m assms(2) show ?thesis
    by (cases servers) (auto simp: query_servers_def one_answer_def r)
qed

lemma lower_name_dot: "lower_name (s @ ''.'') = to_lower s"
  by (simp add: lower_name_def)

lemma one_answer_resolves:
  "resolve_iterative one_answer ''nas.lan'' 1 0 = (Inr \<lparr>ra_ips = [[10, 0, 0, 1]], ra_ttl = 300\<rparr>, 1)"
proof -
  let ?ls = "[''nas'', ''lan'']"
  let ?start = "map (\<lambda>i. join_host_port i ''53'') root_servers"
  have cur: "lower_name ''nas.lan'' @ ''.'' = join ''.'' ?ls @ ''.''" by code_simp
  have "list_all dns_label ?ls" "?start \<noteq> []" "length (encode_name ?ls) \<le> 4000"
    by (simp_all add: dns_label_def root_servers_def)
  from one_answer_query [OF this, of 1 0] obtain m where
    m: "query_servers one_answer ?start (join ''.'' ?ls @ ''.'') 1 0 = (Inr m, 1)"
    and v: "map answer_view (m_answers m) = [(join ''.'' ?ls, 1, 1, 300, [10, 0, 0, 1])]" by auto
  from v obtain r where r: "m_answers m = [r]" "rr_name r = join ''.'' ?ls" "rr_type r = 1"
    "rr_ttl r = 300" "rr_data r = [10, 0, 0, 1]" by (auto simp: answer_view_def map_eq_Cons_conv)
  have "lower_name (join ''.'' ?ls) = lower_name (join ''.'' ?ls @ ''.'')" by code_simp
  then have "scan_answers m (join ''.'' ?ls @ ''.'') = \<lparr>as_ips = [[10, 0, 0, 1]], as_cname = '''', as_ttl = min 300 (- 1)\<rparr>"
    using r by (simp add: scan_answers_def scan_answer_def)
  moreover have "min 300 (- 1) = (300 :: u32)" "(300 :: u32) \<noteq> - 1" by code_simp+
  moreover obtain d h where dh: "max_resolution_depth = Suc d" "max_referral_hops = Suc h"
    by (simp add: max_resolution_depth_def max_referral_hops_def numeral_eq_Suc)
  ultimately show ?thesis
    unfolding resolve_iterative_def dh resolve_from.simps cur resolve_hops.simps m by simp
qed

theorem accepted_reply_witness:
  "\<exists>m w. query_servers one_answer [''192.0.2.1:53''] ''nas.lan.'' 1 0 = (Inr m, w) \<and> m_id m = 7"
proof -
  have "list_all dns_label [''nas'', ''lan'']" "[''192.0.2.1:53''] \<noteq> []" "length (encode_name [''nas'', ''lan'']) \<le> 4000"
    by (simp_all add: dns_label_def)
  from one_answer_query [OF this, of 1 0] obtain m where
    m: "query_servers one_answer [''192.0.2.1:53''] ''nas.lan.'' 1 0 = (Inr m, Suc 0)" by auto
  moreover have "m_id m = 7" using accepted_reply [OF m] by (simp add: one_answer_def)
  ultimately show ?thesis by blast
qed

section \<open>Chains of referrals\<close>

text \<open>
  How an answer is reached: by the record itself, after an alias (from the start again), after
  a referral with glue, or after a referral whose name server's own address had to be
  resolved first. The number counts the servers groups asked on the way.
\<close>

inductive chain ::
  "'w outside \<Rightarrow> string list \<Rightarrow> nat \<Rightarrow> u16 \<Rightarrow> string \<Rightarrow> string list \<Rightarrow> nat \<Rightarrow> 'w \<Rightarrow> resolved_answer \<Rightarrow> 'w \<Rightarrow> bool"
  for out start d t where
  answered: "query_servers out servers cur t w = (Inr m, w1) \<Longrightarrow> as_ips (scan_answers m cur) \<noteq> [] \<Longrightarrow>
    a = \<lparr>ra_ips = as_ips (scan_answers m cur),
         ra_ttl = if as_ttl (scan_answers m cur) = - 1 then 60 else as_ttl (scan_answers m cur)\<rparr> \<Longrightarrow>
    chain out start d t cur servers 1 w a w1"
| aliased: "query_servers out servers cur t w = (Inr m, w1) \<Longrightarrow> as_ips (scan_answers m cur) = [] \<Longrightarrow>
    as_cname (scan_answers m cur) \<noteq> '''' \<Longrightarrow>
    chain out start d t (lower_name (as_cname (scan_answers m cur)) @ ''.'') start n w1 a w' \<Longrightarrow>
    chain out start d t cur servers (Suc n) w a w'"
| referred: "query_servers out servers cur t w = (Inr m, w1) \<Longrightarrow> as_ips (scan_answers m cur) = [] \<Longrightarrow>
    as_cname (scan_answers m cur) = '''' \<Longrightarrow> ns_names m \<noteq> [] \<Longrightarrow> glue_servers m \<noteq> [] \<Longrightarrow>
    chain out start d t cur (glue_servers m) n w1 a w' \<Longrightarrow>
    chain out start d t cur servers (Suc n) w a w'"
| looked_up: "query_servers out servers cur t w = (Inr m, w1) \<Longrightarrow> as_ips (scan_answers m cur) = [] \<Longrightarrow>
    as_cname (scan_answers m cur) = '''' \<Longrightarrow> ns_names m \<noteq> [] \<Longrightarrow> glue_servers m = [] \<Longrightarrow>
    range_order out w1 (ns_names m) = (names, w2) \<Longrightarrow> resolve_ns out start d names w2 = (nxt, w3) \<Longrightarrow>
    nxt \<noteq> [] \<Longrightarrow> chain out start d t cur nxt n w3 a w' \<Longrightarrow>
    chain out start d t cur servers (Suc n) w a w'"

lemma chain_hops:
  "chain out start d t cur servers n w a w' \<Longrightarrow>
   resolve_hops out start d (n + k) q t cur servers w = (Inr a, w')"
  by (induction rule: chain.induct) (simp_all add: Let_def)

lemma hops_chain:
  "resolve_hops out start d h q t cur servers w = (Inr a, w') \<Longrightarrow>
   \<exists>n \<le> h. chain out start d t cur servers n w a w'"
proof (induction h arbitrary: cur servers w)
  case (Suc h)
  then obtain m w1 where qs: "query_servers out servers cur t w = (Inr m, w1)"
    by (auto split: prod.splits sum.splits)
  let ?s = "scan_answers m cur"
  obtain nxt w3 where ns: "(if glue_servers m \<noteq> [] then (glue_servers m, w1)
      else (case range_order out w1 (ns_names m) of
        (names, w2) \<Rightarrow> resolve_ns out start d names w2)) = (nxt, w3)" by fastforce
  consider (ans) "as_ips ?s \<noteq> []" | (cname) "as_ips ?s = []" "as_cname ?s \<noteq> ''''"
    | (ref) "as_ips ?s = []" "as_cname ?s = ''''" by blast
  then show ?case
  proof cases
    case ans
    with qs Suc.prems have "chain out start d t cur servers 1 w a w'"
      by (intro chain.answered [of out servers cur t w m]) (auto simp: Let_def)
    then show ?thesis by (intro exI [of _ 1]) simp
  next
    case cname
    with qs Suc.prems have "resolve_hops out start d h q t (lower_name (as_cname ?s) @ ''.'') start w1 = (Inr a, w')"
      by (simp add: Let_def)
    from Suc.IH [OF this] obtain n where "n \<le> h"
      "chain out start d t (lower_name (as_cname ?s) @ ''.'') start n w1 a w'" by blast
    then show ?thesis using aliased [OF qs cname] by (intro exI [of _ "Suc n"]) simp
  next
    case ref
    with qs ns Suc.prems have nn: "ns_names m \<noteq> []" "nxt \<noteq> []"
      and r: "resolve_hops out start d h q t cur nxt w3 = (Inr a, w')"
      by (auto simp: Let_def split: if_splits)
    from Suc.IH [OF r] obtain n where n: "n \<le> h" "chain out start d t cur nxt n w3 a w'" by blast
    have "chain out start d t cur servers (Suc n) w a w'"
    proof (cases "glue_servers m = []")
      case True
      obtain names w2 where "range_order out w1 (ns_names m) = (names, w2)" by fastforce
      with True ns n(2) nn show ?thesis by (intro looked_up [OF qs ref nn(1) True]) simp_all
    next
      case False
      with ns n(2) show ?thesis by (intro referred [OF qs ref nn(1) False]) simp
    qed
    with n(1) show ?thesis by (intro exI [of _ "Suc n"]) simp
  qed
qed simp


section \<open>What a hostile server can cause\<close>

text \<open>A reply that refers, without glue, to the name servers \<open>a\<close> and \<open>b\<close>, and a world in which
  every server gives it. The state of the world counts the datagrams sent.\<close>

definition bomb :: "byte list" where
  "bomb = [0, 0, 0, 0, 0, 0, 0, 0, 0, 2, 0, 0,
     0, 0, 2, 0, 1, 0, 0, 0, 60, 0, 3, 1, 97, 0,
     0, 0, 2, 0, 1, 0, 0, 0, 60, 0, 3, 1, 98, 0]"

definition bomb_world :: "nat outside" where
  "bomb_world = \<lparr>exchange = (\<lambda>w srv q. (Some bomb, Suc w)), random16 = (\<lambda>w. (0, w)),
     range_order = (\<lambda>w ns. (ns, w)), clock = int\<rparr>"

definition bomb_message :: dns_message where
  "bomb_message = \<lparr>m_id = 0, m_flags = 0, m_qname = [], m_qtype = 0, m_qclass = 0, m_answers = [],
     m_authority = [\<lparr>rr_name = [], rr_type = 2, rr_class = 1, rr_ttl = 60, rr_data = [1, 97, 0], rr_data_offset = 23\<rparr>,
       \<lparr>rr_name = [], rr_type = 2, rr_class = 1, rr_ttl = 60, rr_data = [1, 98, 0], rr_data_offset = 37\<rparr>],
     m_additional = [], m_raw = bomb\<rparr>"

lemma bomb_parses: "parse_full_message (take 4096 bomb) = Inr bomb_message"
proof -
  have "take 4096 bomb = bomb" by (simp add: bomb_def)
  moreover have "parse_full_message bomb = Inr bomb_message" by code_simp
  ultimately show ?thesis by simp
qed

lemma bomb_names: "ns_names bomb_message = [''a'', ''b'']"
  by code_simp

lemma bomb_query:
  assumes "servers \<noteq> []"
  shows "query_servers bomb_world servers name t w = (Inr bomb_message, Suc w)"
proof -
  have "m_id bomb_message = 0" by (simp add: bomb_message_def)
  with assms bomb_parses show ?thesis
    by (cases servers) (simp_all add: query_servers_def bomb_world_def)
qed

lemma bomb_cost:
  assumes "start \<noteq> []"
  shows "\<exists>e. resolve_from bomb_world start d q t w = (Inl e, w + (2 ^ d - 1))"
proof (induction d arbitrary: q t w)
  case (Suc d)
  define n :: nat where "n = 2 ^ d - 1"
  obtain e1 e2 where e: "resolve_from bomb_world start d ''a'' type_A (Suc w) = (Inl e1, Suc (w + n))"
    "resolve_from bomb_world start d ''b'' type_A (Suc (w + n)) = (Inl e2, Suc (w + n + n))"
    using Suc.IH [folded n_def] by (metis add_Suc)
  have s: "scan_answers bomb_message cur = \<lparr>as_ips = [], as_cname = '''', as_ttl = - 1\<rparr>" for cur
    by (simp add: scan_answers_def bomb_message_def)
  have g: "glue_servers bomb_message = []" by (simp add: glue_servers_def bomb_message_def)
  have o: "range_order bomb_world w' ns = (ns, w')" for w' ns by (simp add: bomb_world_def)
  obtain h where h: "max_referral_hops = Suc h" by (simp add: max_referral_hops_def numeral_eq_Suc)
  have "resolve_ns bomb_world start d [''a'', ''b''] (Suc w) = ([], Suc (w + n + n))"
    by (simp add: e)
  then have "\<exists>e. resolve_from bomb_world start (Suc d) q t w = (Inl e, Suc (w + n + n))"
    unfolding resolve_from.simps h resolve_hops.simps bomb_query [OF assms]
    by (simp add: s g o bomb_names)
  moreover have "Suc (w + n + n) = w + (2 ^ Suc d - 1)"
    using one_le_power [of "2 :: nat" d] by (simp add: n_def)
  ultimately show ?case by metis
qed simp

text \<open>C40: The depth limit does not bound the work: a client's single query makes the resolver
  send 1023 datagrams when every server refers it to two name servers without addresses, and
  fail all the same.\<close>

theorem one_query_sends_1023:
  "\<exists>e. resolve_iterative bomb_world qname t 0 = (Inl e, 1023)"
  using bomb_cost [of "map (\<lambda>i. join_host_port i ''53'') root_servers" max_resolution_depth qname t 0]
  by (simp add: resolve_iterative_def max_resolution_depth_def root_servers_def)

end
