(* ===== verification/Dns_Service.thy ===== *)
theory Dns_Service
  imports Dns_Resolution
begin

text \<open>
  The handler of the DNS server: names the router knows are answered without asking anybody,
  every answer it builds itself is readable, the cache only ever holds usable addresses, and
  a forwarded reply is what the first reachable upstream server sent.
\<close>

section \<open>Names the router knows\<close>

lemma dns_handle_local:
  assumes "wire_query msg ls t k" "labels_below 256 ls" "lookup_local snap (join ''.'' ls) = Some i"
  shows "dns_handle out snap c msg local w =
    (Some (to4 local, build_a_response msg (the_question ls t k) [i] 60), c, w)"
proof -
  have "parse_question msg = Inr (the_question ls t k)" using assms(1,2) by (rule parse_question_wire)
  moreover have "q_name (the_question ls t k) = join ''.'' ls" by (simp add: the_question_def)
  ultimately show ?thesis using assms(3) by (simp add: dns_handle_def write_reply_def)
qed

text \<open>C35: A name the router knows is answered by the router alone: nothing is sent to any
  other server, the cache is untouched, and the reply leaves from the address the query came
  to. It is one address record, whatever type was asked for.\<close>

theorem local_name_answered:
  assumes "wire_query msg ls t k" "labels_below 64 ls" "lookup_local snap (join ''.'' ls) = Some i" "to4 i \<noteq> []"
  shows "\<exists>resp m. dns_handle out snap c msg local w = (Some (to4 local, resp), c, w) \<and>
    parse_full_message resp = Inr m \<and> m_id m = u16_at msg 0 \<and> m_qname m = join ''.'' ls \<and> m_qtype m = t \<and>
    map answer_view (m_answers m) = [(join ''.'' ls, type_A, class_IN, 60, to4 i)]"
proof -
  have h: "dns_handle out snap c msg local w =
      (Some (to4 local, build_a_response msg (the_question ls t k) [i] 60), c, w)"
    using assms(1) labels_below_mono [OF assms(2)] assms(3) by (intro dns_handle_local) simp_all
  from parse_answer [OF assms(1) labels_below_mono [OF assms(2)], of "[i]" 60] assms(4) obtain m where
    "parse_full_message (build_a_response msg (the_question ls t k) [i] 60) = Inr m"
    "m_id m = u16_at msg 0" "m_qname m = join ''.'' ls" "m_qtype m = t"
    "map answer_view (m_answers m) = [(join ''.'' ls, type_A, class_IN, 60, to4 i)]"
    by auto
  with h show ?thesis by (intro exI conjI)
qed

text \<open>A configuration with two manual records, one of them an IPv6 address.\<close>

definition ex_records :: config_data where
  "ex_records = (default_data None)\<lparr>dns_records := [\<lparr>rec_name = ''NAS.lan'', rec_ip = ''10.0.0.9''\<rparr>,
     \<lparr>rec_name = ''printer.lan'', rec_ip = ''::1''\<rparr>]\<rparr>"

lemma ex_lower:
  "to_lower (trim_suffix (join ''.'' [''nas'', ''lan'']) ''.'') = ''nas.lan''"
  "to_lower (trim_suffix (join ''.'' [''printer'', ''lan'']) ''.'') = ''printer.lan''"
  "to_lower ''NAS.lan'' = ''nas.lan''" "to_lower ''printer.lan'' = ''printer.lan''"
  by code_simp+

lemma ex_lookups:
  "lookup_local ex_records (join ''.'' [''nas'', ''lan'']) = Some (parse_ip ''10.0.0.9'')"
  "lookup_local ex_records (join ''.'' [''printer'', ''lan'']) = Some (parse_ip ''::1'')"
  unfolding lookup_local_def Let_def ex_lower by (simp_all add: ex_records_def ex_lower)

lemma ex_addresses:
  "to4 (parse_ip ''10.0.0.9'') \<noteq> []" "to4 (parse_ip ''::1'') = []"
  by code_simp+

theorem local_name_answered_witness:
  "\<exists>resp. dns_handle bomb_world ex_records new_recursive_cache ex_dns_query [192, 168, 2, 1] 5 =
     (Some ([192, 168, 2, 1], resp), new_recursive_cache, 5)"
proof -
  from local_name_answered [OF ex_wire ex_labels ex_lookups(1) ex_addresses(1), of bomb_world new_recursive_cache
      "[192, 168, 2, 1]" 5]
  show ?thesis by auto
qed

text \<open>C39: A manual record whose address is not IPv4, which the dashboard accepts, is answered
  with a message that announces a record and holds none, so that no resolver can read it.\<close>

theorem invalid_record_malformed:
  assumes "wire_query msg ls t k" "labels_below 64 ls" "lookup_local snap (join ''.'' ls) = Some i" "to4 i = []"
  shows "\<exists>resp. dns_handle out snap c msg local w = (Some (to4 local, resp), c, w) \<and>
    u16_at resp 6 = 1 \<and> parse_full_message resp = Inl NameOutOfBounds"
proof -
  let ?r = "build_a_response msg (the_question ls t k) [i] 60"
  have "dns_handle out snap c msg local w = (Some (to4 local, ?r), c, w)"
    using assms(1) labels_below_mono [OF assms(2)] assms(3) by (intro dns_handle_local) simp_all
  moreover have "parse_full_message ?r = Inl NameOutOfBounds"
    using parse_answer [OF assms(1) labels_below_mono [OF assms(2)], of "[i]" 60] assms(4) by simp
  moreover have "u16_at ?r 6 = 1" by (simp add: answer_bytes [OF assms(1)])
  ultimately show ?thesis by blast
qed

text \<open>A query for \<open>printer.lan\<close>.\<close>

lemma ex_printer_wire: "wire_query (build_iterative_query 9 ''printer.lan.'' 1) [''printer'', ''lan''] 1 1"
proof -
  have "list_all dns_label [''printer'', ''lan'']" by (simp add: dns_label_def)
  from query_bytes [OF this, of 9 1] show ?thesis unfolding wire_query_def
    by (intro exI [of _ "header 9 0 1 0 0 0"] exI [of _ "[]"])
       (use header_fields(3) [of 9 0 1 0 0 0 "[]"] in simp)
qed

theorem invalid_record_malformed_witness:
  "\<exists>resp. dns_handle bomb_world ex_records new_recursive_cache (build_iterative_query 9 ''printer.lan.'' 1) [] 0 =
     (Some ([], resp), new_recursive_cache, 0) \<and> parse_full_message resp = Inl NameOutOfBounds"
proof -
  have "labels_below 64 [''printer'', ''lan'']" by simp
  from invalid_record_malformed [OF ex_printer_wire this ex_lookups(2) ex_addresses(2), of bomb_world new_recursive_cache "[]" 0]
  have "\<exists>resp. dns_handle bomb_world ex_records new_recursive_cache (build_iterative_query 9 ''printer.lan.'' 1) [] 0 =
     (Some (to4 [], resp), new_recursive_cache, 0) \<and> parse_full_message resp = Inl NameOutOfBounds" by blast
  then show ?thesis by (simp add: to4_def)
qed

section \<open>Answers to everything else\<close>

definition cache_ok :: "recursive_cache \<Rightarrow> bool" where
  "cache_ok c \<longleftrightarrow> (\<forall>k e. Mapping.lookup (rc_entries c) k = Some e \<longrightarrow>
     ce_ips e \<noteq> [] \<and> length (ce_ips e) < 65536 \<and> (\<forall>i \<in> set (ce_ips e). length i = 4))"

lemma cache_ok_new: "cache_ok new_recursive_cache"
  by (simp add: cache_ok_def new_recursive_cache_def lookup_empty)

lemma cache_ok_get:
  assumes "cache_ok c" "cache_get now k c = (r, c')"
  shows "cache_ok c'"
    and "r = Some ips \<Longrightarrow> ips \<noteq> [] \<and> length ips < 65536 \<and> (\<forall>i \<in> set ips. length i = 4)"
proof -
  have c': "c' = snd (cache_get now k c)" and r: "r = fst (cache_get now k c)" using assms(2) by simp_all
  show "cache_ok c'" using assms(1) by (simp add: cache_ok_def c')
  show "ips \<noteq> [] \<and> length ips < 65536 \<and> (\<forall>i \<in> set ips. length i = 4)" if "r = Some ips"
    using assms(1) that by (auto simp: r cache_get_entries cache_ok_def split: option.splits if_splits)
qed

lemma cache_ok_set: "cache_ok c \<Longrightarrow> usable_answer a \<Longrightarrow> cache_ok (cache_set now k (ra_ips a) ttl c)"
  by (auto simp: cache_ok_def cache_set_def usable_answer_def lookup_update' split: if_splits)

lemma built_answer_parses:
  assumes "wire_query msg ls t k" "labels_below 192 ls"
    "ips \<noteq> []" "length ips < 65536" "\<forall>i \<in> set ips. length i = 4"
  shows "\<exists>m. parse_full_message (build_a_response msg (the_question ls t k) ips ttl) = Inr m \<and>
    m_id m = u16_at msg 0 \<and> m_qname m = join ''.'' ls \<and>
    map (\<lambda>r. rr_data r) (m_answers m) = ips"
proof -
  have "list_all (\<lambda>i. to4 i \<noteq> []) ips" using assms(5) by (auto simp: list_all_iff)
  with parse_answer [OF assms(1,2,4), of ttl] obtain m where m:
    "parse_full_message (build_a_response msg (the_question ls t k) ips ttl) = Inr m"
    "m_id m = u16_at msg 0" "m_qname m = join ''.'' ls"
    "map answer_view (m_answers m) = map (\<lambda>i. (join ''.'' ls, type_A, class_IN, ttl, to4 i)) ips"
    by auto
  from arg_cong [OF m(4), of "map (\<lambda>(a, b, c, d, e). e)"] assms(5)
  have "map (\<lambda>r. rr_data r) (m_answers m) = ips"
    by (simp add: comp_def answer_view_def cong: map_cong)
  with m show ?thesis by blast
qed

definition own_answer :: "byte list \<Rightarrow> string \<Rightarrow> byte list \<Rightarrow> bool" where
  "own_answer msg name resp \<longleftrightarrow> (\<exists>m. parse_full_message resp = Inr m \<and> m_id m = u16_at msg 0 \<and>
     m_qname m = name \<and> m_answers m \<noteq> [])"

lemma handle_recursive_cases:
  assumes "cache_ok c" "wire_query msg ls t k" "labels_below 192 ls"
    "handle_recursive out snap c msg (the_question ls t k) local w = (r, c', w')"
  shows "cache_ok c' \<and> (\<forall>src resp. r = Some (src, resp) \<longrightarrow> src = to4 local \<and>
    (own_answer msg (join ''.'' ls) resp \<or> (\<exists>w1. forward_query out snap msg w1 = (Some resp, w'))))"
proof -
  let ?q = "the_question ls t k"
  have own: "own_answer msg (join ''.'' ls) (build_a_response msg ?q ips ttl)"
    if "ips \<noteq> []" "length ips < 65536" "\<forall>i \<in> set ips. length i = 4" for ips ttl
    using built_answer_parses [OF assms(2,3) that, of ttl] that(1) by (auto simp: own_answer_def)
  obtain x c1 where g: "cache_get (clock out w) (cache_key ?q) c = (x, c1)" by fastforce
  note gok = cache_ok_get [OF assms(1) g]
  show ?thesis
  proof (cases x)
    case (Some ips)
    with assms(4) g gok(1) own gok(2) [OF Some] show ?thesis
      by (auto simp: handle_recursive_def write_reply_def)
  next
    case None
    obtain res w1 where res: "resolve_iterative out (q_name ?q) type_A w = (res, w1)" by fastforce
    show ?thesis
    proof (cases res)
      case (Inl e)
      obtain f w2 where "forward_query out snap msg w1 = (f, w2)" by fastforce
      with assms(4) g None res Inl gok(1) show ?thesis
        by (cases f) (auto simp: handle_recursive_def write_reply_def)
    next
      case (Inr a)
      have u: "usable_answer a" using resolve_usable(1) res Inr by (simp add: resolve_iterative_def)
      then have "own_answer msg (join ''.'' ls) (build_a_response msg ?q (ra_ips a) (ra_ttl a))"
        by (intro own) (simp_all add: usable_answer_def)
      with assms(4) g None res Inr cache_ok_set [OF gok(1) u] show ?thesis
        by (auto simp: handle_recursive_def write_reply_def)
    qed
  qed
qed


section \<open>Forwarding\<close>

lemma forward_loop_Some:
  "forward_loop out msg ups w = (Some resp, w') \<Longrightarrow>
   \<exists>pre u post w1 b. ups = pre @ u # post \<and> forward_loop out msg pre w = (None, w1) \<and>
     exchange out w1 u msg = (Some b, w') \<and> resp = take 512 b"
proof (induction ups arbitrary: w)
  case (Cons v ups)
  obtain r w2 where x: "exchange out w v msg = (r, w2)" by fastforce
  show ?case
  proof (cases r)
    case None
    with x Cons.prems have "forward_loop out msg ups w2 = (Some resp, w')" by simp
    from Cons.IH [OF this] obtain pre u post w1 b where "ups = pre @ u # post"
      "forward_loop out msg pre w2 = (None, w1)" "exchange out w1 u msg = (Some b, w')" "resp = take 512 b"
      by blast
    with x None show ?thesis
      by (intro exI [of _ "v # pre"] exI [of _ u] exI [of _ post] exI [of _ w1] exI [of _ b]) simp
  next
    case (Some b)
    with x Cons.prems show ?thesis
      by (intro exI [of _ "[]"] exI [of _ v] exI [of _ ups] exI [of _ w] exI [of _ b]) simp
  qed
qed simp

text \<open>What is forwarded is the reply of the first upstream server that answers, all before
  it having failed, cut to 512 bytes and not marked as cut.\<close>

theorem forwarded_reply:
  assumes "forward_query out snap msg w = (Some resp, w')"
  shows "\<exists>pre u post w1 b. upstream_servers snap = pre @ u # post \<and> forward_loop out msg pre w = (None, w1) \<and>
    exchange out w1 u msg = (Some b, w') \<and> resp = take 512 b"
  by (rule forward_loop_Some) (rule assms [unfolded forward_query_def])

text \<open>The first upstream server is down, the second sends 600 bytes.\<close>

definition long_world :: "nat outside" where
  "long_world = \<lparr>exchange = (\<lambda>w srv q. (if w = 0 then None else Some (replicate 600 7), Suc w)),
     random16 = (\<lambda>w. (0, w)), range_order = (\<lambda>w ns. (ns, w)), clock = int\<rparr>"

theorem forwarded_reply_witness:
  "\<exists>u w1 b. exchange long_world w1 u ex_dns_query = (Some b, 2) \<and> length b = 600 \<and>
    forward_query long_world (default_data None) ex_dns_query 0 = (Some (take 512 b), 2)"
proof -
  have f: "forward_query long_world (default_data None) ex_dns_query 0 = (Some (replicate 512 7), 2)"
    by (simp add: forward_query_def long_world_def default_data_def)
  from forwarded_reply [OF f] obtain u w1 b where x: "exchange long_world w1 u ex_dns_query = (Some b, 2)"
    and r: "replicate 512 7 = take 512 b" by blast
  from x have "b = replicate 600 7" by (simp add: long_world_def split: if_splits)
  with x f r show ?thesis by (metis length_replicate)
qed


end
