(* ===== verification/Go_Cidr.thy ===== *)
theory Go_Cidr
  imports Go_Net
begin

text \<open>
  \<open>net.CIDRMask\<close>, \<open>net.ParseCIDR\<close> and \<open>IPNet.String\<close>, as the firewall uses them.
\<close>

definition byte_mask :: "nat \<Rightarrow> byte" where
  "byte_mask j = of_nat (256 - 2 ^ (8 - min j 8))"

definition cidr_mask :: "nat \<Rightarrow> nat \<Rightarrow> byte list" where
  "cidr_mask n k = map (\<lambda>i. byte_mask (n - 8 * i)) [0..<k]"

text \<open>\<open>dtoi\<close> over the whole of \<open>s\<close>, with the bound the caller checks.\<close>

definition mask_length :: "string \<Rightarrow> nat \<Rightarrow> nat option" where
  "mask_length s bits =
     (if s \<noteq> [] \<and> list_all is_digit s \<and> dec_value s \<le> bits then Some (dec_value s) else None)"

definition is_v4_text :: "string \<Rightarrow> bool" where
  "is_v4_text s \<longleftrightarrow> (case dropWhile (\<lambda>c. c \<notin> set ''.:%'') s of [] \<Rightarrow> False | c # _ \<Rightarrow> c = CHR ''.'')"

definition parse_cidr :: "string \<Rightarrow> (ip \<times> ip \<times> byte list) option" where
  "parse_cidr s =
     (case cut CHR ''/'' s of (a, m, found) \<Rightarrow>
        let i = parse_ip a; bits = (if is_v4_text a then 32 else 128) in
        if \<not> found \<or> i = [] then None
        else (case mask_length m bits of None \<Rightarrow> None
              | Some n \<Rightarrow> Some (i, ip_mask i (cidr_mask n (bits div 8)), cidr_mask n (bits div 8))))"

definition byte_bits :: "byte \<Rightarrow> bool list" where
  "byte_bits v = map (\<lambda>k. bit v (7 - k)) [0..<8]"

definition simple_mask_length :: "byte list \<Rightarrow> nat option" where
  "simple_mask_length m =
     (let bits = concat (map byte_bits m); n = length (takeWhile id bits)
      in if list_ex id (drop n bits) then None else Some n)"

definition ipnet_string :: "ip \<Rightarrow> byte list \<Rightarrow> string" where
  "ipnet_string i m =
     (let nn = (if to4 i \<noteq> [] then to4 i else i);
          m' = (if length m = 16 \<and> length nn = 4 then drop 12 m else m)
      in if (length nn \<noteq> 4 \<and> length nn \<noteq> 16) \<or> length m' \<noteq> length nn then ''<nil>''
         else (case simple_mask_length m' of
             Some n \<Rightarrow> ip_string nn @ ''/'' @ itoa n
           | None \<Rightarrow> ip_string nn @ ''/'' @ concat (map hex_byte m')))"

section \<open>Printed addresses use few characters\<close>

definition addr_char :: "char \<Rightarrow> bool" where
  "addr_char c \<longleftrightarrow> is_digit c \<or> c \<in> set ''./''"

lemma itoa_addr_char: "c \<in> set (itoa n) \<Longrightarrow> addr_char c"
  using itoa_digits by (auto simp: addr_char_def)

lemma set_join: "set (join sep xs) \<subseteq> set sep \<union> \<Union> (set ` set xs)"
  by (induction sep xs rule: join.induct) auto

lemma dotted_addr_char:
  assumes "c \<in> set (dotted b)" shows "addr_char c"
proof -
  have "c \<in> set ''.'' \<union> \<Union> (set ` set (map (\<lambda>w. itoa (unat w)) b))"
    using assms unfolding dotted_def by (rule subsetD [OF set_join])
  then have "c = CHR ''.'' \<or> (\<exists>w \<in> set b. c \<in> set (itoa (unat w)))" by auto
  then show ?thesis by (auto dest: itoa_addr_char) (simp add: addr_char_def)
qed

lemma ip_string_4: "length b = 4 \<Longrightarrow> ip_string b = dotted b"
  by (auto simp: ip_string_def to4_def)

lemma addr_char_plain: "addr_char c \<Longrightarrow> plain_char c"
  by (auto simp: addr_char_def is_digit_def plain_char_def ascii_space_def)

lemma trim_space_addr: "(\<And>c. c \<in> set s \<Longrightarrow> addr_char c) \<Longrightarrow> trim_space s = s"
  by (rule trim_space_plain) (auto intro: addr_char_plain)

lemma trim_space_digits: "list_all is_digit s \<Longrightarrow> trim_space s = s"
  by (rule trim_space_addr) (auto simp: addr_char_def list_all_iff)

section \<open>Masks\<close>

lemma length_cidr_mask [simp]: "length (cidr_mask n k) = k"
  by (simp add: cidr_mask_def)

lemma cidr_mask_Suc: "cidr_mask n (Suc k) = byte_mask n # cidr_mask (n - 8) k"
proof -
  have "cidr_mask n (Suc k) = byte_mask n # map (\<lambda>i. byte_mask (n - 8 * Suc i)) [0..<k]"
    unfolding cidr_mask_def by (subst map_upt_Suc) simp
  then show ?thesis by (simp add: cidr_mask_def)
qed

lemma drop_cidr_mask: "drop j (cidr_mask n k) = cidr_mask (n - 8 * j) (k - j)"
proof (induction j arbitrary: n k)
  case (Suc j)
  show ?case
  proof (cases k)
    case (Suc k')
    then show ?thesis by (simp add: cidr_mask_Suc Suc.IH)
  qed (simp add: cidr_mask_def)
qed simp

lemma byte_bits_mask: "j \<le> 8 \<Longrightarrow> byte_bits (byte_mask j) = replicate j True @ replicate (8 - j) False"
proof -
  have "\<forall>j \<in> set [0..<9]. byte_bits (byte_mask j) = replicate j True @ replicate (8 - j) False"
    by code_simp
  then show "j \<le> 8 \<Longrightarrow> ?thesis" by (simp del: upt_Suc)
qed

lemma byte_mask_8: "8 \<le> n \<Longrightarrow> byte_mask n = byte_mask 8"
  by (simp add: byte_mask_def)

lemma bits_cidr_mask:
  "n \<le> 8 * k \<Longrightarrow> concat (map byte_bits (cidr_mask n k)) = replicate n True @ replicate (8 * k - n) False"
proof (induction k arbitrary: n)
  case 0
  then show ?case by (simp add: cidr_mask_def)
next
  case (Suc k)
  show ?case
  proof (cases "8 \<le> n")
    case True
    have "replicate 8 True @ replicate (n - 8) True = replicate n True"
      using True by (simp add: replicate_add [symmetric])
    moreover have "8 * k - (n - 8) = 8 * Suc k - n" using True by simp
    ultimately show ?thesis
      using Suc.IH [of "n - 8"] Suc.prems byte_bits_mask [of 8] byte_mask_8 [OF True]
      by (simp add: cidr_mask_Suc)
  next
    case False
    have "replicate (8 - n) False @ replicate (8 * k) False = replicate (8 * Suc k - n) False"
      using False by (simp add: replicate_add [symmetric])
    with False Suc.IH [of "n - 8"] byte_bits_mask [of n] show ?thesis
      by (simp add: cidr_mask_Suc)
  qed
qed

lemma simple_mask_length_cidr:
  assumes "n \<le> 8 * k" shows "simple_mask_length (cidr_mask n k) = Some n"
proof -
  have "takeWhile id (replicate n True @ replicate m False) = replicate n True" for m
    by (induction n) (cases m; simp)+
  then show ?thesis by (simp add: simple_mask_length_def bits_cidr_mask [OF assms] Let_def list_ex_iff)
qed

section \<open>Networks in normal form\<close>

definition network_form :: "string \<Rightarrow> byte list \<Rightarrow> nat \<Rightarrow> bool" where
  "network_form s a l \<longleftrightarrow> length a = 4 \<and> l \<le> 32 \<and> map2 (AND) a (cidr_mask l 4) = a \<and>
     s = dotted a @ ''/'' @ itoa l"

lemma parse_cidr_parts:
  assumes "parse_cidr s = Some (i, net, m)"
  obtains n k where "k = 4 \<or> k = 16" "n \<le> 8 * k" "m = cidr_mask n k" "net = ip_mask i m"
  using assms that [of 4] that [of 16]
  by (auto simp: parse_cidr_def mask_length_def Let_def split: prod.splits option.splits if_splits)

lemma ipnet_string_4:
  assumes "to4 net = a" "length a = 4" "n \<le> 32"
    and "m = cidr_mask n 4 \<or> length m = 16 \<and> drop 12 m = cidr_mask n 4"
  shows "ipnet_string net m = dotted a @ ''/'' @ itoa n"
proof -
  have a: "a \<noteq> []" using assms(2) by auto
  have "simple_mask_length (cidr_mask n 4) = Some n"
    using assms(3) by (intro simple_mask_length_cidr) simp
  with a assms show ?thesis
    by (auto simp: ipnet_string_def Let_def ip_string_4)
qed

lemma ip_mask_16:
  assumes "length i = 16" "length m = 16" shows "ip_mask i m = map2 (AND) i m"
  using assms by (simp add: ip_mask_def)

lemma ip_mask_v4:
  assumes "to4 i \<noteq> []" "length m = 4" shows "ip_mask i m = map2 (AND) (to4 i) m"
  using assms by (auto simp: ip_mask_def to4_def split: if_splits)

lemma exact_network_form:
  assumes "to4 i \<noteq> []" "ip_equal i (ip_mask i m)" "m = cidr_mask n k" "k = 4 \<or> k = 16" "n \<le> 8 * k"
  shows "\<exists>l. network_form (ipnet_string (ip_mask i m) m) (to4 i) l"
proof -
  have e: "to4 i = to4 (ip_mask i m)" using assms(1,2) by (simp add: ip_equal_to4)
  have l4: "length (to4 i) = 4" using assms(1) by (rule length_to4)
  show ?thesis
  proof (cases "k = 4")
    case True
    then have m: "length m = 4" "m = cidr_mask n 4" "n \<le> 32" using assms by auto
    have "to4 (ip_mask i m) = map2 (AND) (to4 i) m"
      using l4 m by (simp add: ip_mask_v4 [OF assms(1)] to4_def)
    with e m l4 show ?thesis
      by (intro exI [of _ n]) (simp add: network_form_def ipnet_string_4 e [symmetric])
  next
    case False
    then have m: "length m = 16" "drop 12 m = cidr_mask (n - 96) 4" "n - 96 \<le> 32"
      using assms by (auto simp: drop_cidr_mask)
    have "map2 (AND) (to4 i) (drop 12 m) = to4 i"
    proof (cases "length i = 16")
      case True
      then have d: "to4 i = drop 12 i" using assms(1) by (auto simp: to4_def split: if_splits)
      have "i = map2 (AND) i m"
        using assms(2) True m(1) by (simp add: ip_mask_16 ip_equal_def)
      then have "drop 12 i = map2 (AND) (drop 12 i) (drop 12 m)"
        by (metis drop_map drop_zip)
      with d show ?thesis by simp
    next
      case False
      then have i: "length i = 4" "to4 i = i" using assms(1) by (auto simp: to4_def split: if_splits)
      show ?thesis
      proof (cases "take 12 m = replicate 12 255")
        case True
        then have "ip_mask i m = map2 (AND) i (drop 12 m)"
          using i m(1) by (simp add: ip_mask_def)
        with e i m show ?thesis by (simp add: to4_def)
      next
        case False
        then have "ip_mask i m = []" using i m(1) by (simp add: ip_mask_def)
        with e l4 show ?thesis by (simp add: to4_def)
      qed
    qed
    with e m l4 show ?thesis
      by (intro exI [of _ "n - 96"]) (simp add: network_form_def ipnet_string_4 e [symmetric])
  qed
qed

lemma network_form_chars: "network_form s a l \<Longrightarrow> c \<in> set s \<Longrightarrow> addr_char c"
  by (auto simp: network_form_def dest: dotted_addr_char itoa_addr_char) (simp add: addr_char_def)

lemma is_v4_text_dotted: "length a = 4 \<Longrightarrow> is_v4_text (dotted a)"
  by (rule dotted_first [of a]) (auto simp: is_v4_text_def)

lemma dotted_no_slash: "CHR ''/'' \<notin> set (dotted a)"
proof
  assume "CHR ''/'' \<in> set (dotted a)"
  then have "CHR ''/'' \<in> set ''.'' \<union> \<Union> (set ` set (map (\<lambda>w. itoa (unat w)) a))"
    unfolding dotted_def by (rule subsetD [OF set_join])
  then show False using itoa_digits by (fastforce simp: is_digit_def)
qed

lemma parse_cidr_network_form:
  assumes "network_form s a l"
  shows "parse_cidr s = Some (v4_in_v6_prefix @ a, a, cidr_mask l 4)"
proof -
  have a: "length a = 4" "l \<le> 32" "map2 (AND) a (cidr_mask l 4) = a" and s: "s = dotted a @ CHR ''/'' # itoa l"
    using assms by (auto simp: network_form_def)
  have "CHR ''/'' \<notin> set (dotted a)" by (rule dotted_no_slash)
  then have cut: "cut CHR ''/'' s = (dotted a, itoa l, True)"
    unfolding s by (rule cut_append_sep)
  have "mask_length (itoa l) 32 = Some l"
    using a(2) itoa_digits by (simp add: mask_length_def list_all_iff)
  moreover have "to4 (v4_in_v6_prefix @ a) = a" "a \<noteq> []"
    using a(1) by (auto simp: to4_def v4_in_v6_prefix_def)
  then have "ip_mask (v4_in_v6_prefix @ a) (cidr_mask l 4) = a"
    using ip_mask_v4 [of "v4_in_v6_prefix @ a" "cidr_mask l 4"] a(3) by simp
  ultimately show ?thesis
    using a by (simp add: parse_cidr_def cut parse_ip_dotted is_v4_text_dotted v4_in_v6_prefix_def)
qed

end
