(* ===== verification/Firewall.thy ===== *)
theory Firewall
  imports Config Go_Cidr
begin

text \<open>
  The nftables firewall, \<open>internal/firewall/firewall.go\<close>: interface patterns, the parsers
  and normalisation of port rules, the rendered rule set line by line, the warnings, the
  inspection of foreign tables, and \<open>Apply\<close>/\<open>Remove\<close> over a parameter for the
  \<open>nft\<close> program. Error values carry what the messages name.
\<close>

datatype fw_error =
    BadPattern string string
  | PatternOverlaps string string string
  | NoDockerInterfaces
  | PortEmpty | BadPort string | RangeBackwards string
  | BadSource string | SourceHostBits string string string
  | BadProtocol string | BadKind
  | BadTarget string | TargetOutside ip | TargetIsRouter ip string | RangeRemap
  | TargetPort fw_error
  | BadWan string | BadSegmentInterface string string | SegmentUsesWan string string | NoSegments
  | InRule string fw_error | DockerSource fw_error
  | NftCheckFailed | NftApplyFailed | NftRemoveFailed

section \<open>Interface names and patterns\<close>

definition in_range :: "nat \<Rightarrow> nat \<Rightarrow> char \<Rightarrow> bool" where
  "in_range lo hi c \<longleftrightarrow> lo \<le> of_char c \<and> of_char c \<le> hi"

definition alnum :: "char \<Rightarrow> bool" where
  "alnum c \<longleftrightarrow> in_range 65 90 c \<or> in_range 97 122 c \<or> in_range 48 57 c"

definition iface_char :: "char \<Rightarrow> bool" where
  "iface_char c \<longleftrightarrow> alnum c \<or> c \<in> set ''_.:-''"

text \<open>The regular expressions \<open>ifaceRe\<close> and \<open>patternRe\<close>.\<close>

definition iface_re :: "string \<Rightarrow> bool" where
  "iface_re s \<longleftrightarrow> 1 \<le> length s \<and> length s \<le> 15 \<and> list_all iface_char s"

definition pattern_re :: "string \<Rightarrow> bool" where
  "pattern_re s \<longleftrightarrow> (let p = trim_suffix s ''*'' in
     1 \<le> length p \<and> length p \<le> 14 \<and> list_all iface_char p)"

definition default_docker_interfaces :: "string list" where
  "default_docker_interfaces = [''docker0'', ''br-*'']"

definition iface_matches :: "string \<Rightarrow> string \<Rightarrow> bool" where
  "iface_matches pat name =
     (if suffix ''*'' pat then prefix (trim_suffix pat ''*'') name else pat = name)"

definition patterns_overlap :: "string \<Rightarrow> string \<Rightarrow> bool" where
  "patterns_overlap a b =
     (let aw = suffix ''*'' a; bw = suffix ''*'' b;
          ap = trim_suffix a ''*''; bp = trim_suffix b ''*''
      in if aw \<and> bw then prefix bp ap \<or> prefix ap bp
         else if aw then prefix ap b
         else if bw then prefix bp a
         else a = b)"

text \<open>A name that must not be matched, and what it is.\<close>

type_synonym reserved_name = "string \<times> string"

definition base_reserved :: "config_data \<Rightarrow> reserved_name list" where
  "base_reserved snap =
     [(trim_space (wan_interface snap), ''the WAN interface''), (''lo'', ''loopback'')]
     @ map (\<lambda>g. (trim_space (seg_interface g), ''a LAN segment'')) (lan_segments snap)"

definition overlapping :: "string \<Rightarrow> reserved_name list \<Rightarrow> reserved_name option" where
  "overlapping pat reserved =
     find (\<lambda>r. fst r \<noteq> '''' \<and> patterns_overlap pat (fst r)) reserved"

fun validate_patterns_loop ::
  "string \<Rightarrow> string list \<Rightarrow> reserved_name list \<Rightarrow> string list \<Rightarrow> fw_error + string list" where
  "validate_patterns_loop kind [] reserved out = Inr out"
| "validate_patterns_loop kind (raw # rest) reserved out =
     (let pat = trim_space raw in
      if pat = '''' \<or> pat \<in> set out then validate_patterns_loop kind rest reserved out
      else if \<not> pattern_re pat then Inl (BadPattern kind raw)
      else (case overlapping pat reserved of
          Some r \<Rightarrow> Inl (PatternOverlaps kind pat (fst r))
        | None \<Rightarrow> validate_patterns_loop kind rest reserved (out @ [pat])))"

definition validate_patterns ::
  "string \<Rightarrow> string list \<Rightarrow> reserved_name list \<Rightarrow> fw_error + string list" where
  "validate_patterns kind ps reserved = validate_patterns_loop kind ps reserved []"

definition effective_docker_patterns :: "config_data \<Rightarrow> string list" where
  "effective_docker_patterns snap =
     filter (\<lambda>p. p \<noteq> '''') (map trim_space
       (if docker_interfaces snap = [] then default_docker_interfaces else docker_interfaces snap))"

definition docker_patterns :: "config_data \<Rightarrow> fw_error + string list" where
  "docker_patterns snap =
     (let reserved = base_reserved snap @
            (if docker_enabled snap
             then map (\<lambda>t. (t, ''a trusted interface''))
                    (filter (\<lambda>t. t \<noteq> '''') (map trim_space (trusted_interfaces snap)))
             else [])
      in case validate_patterns ''docker'' (effective_docker_patterns snap) reserved of
           Inl e \<Rightarrow> Inl e
         | Inr out \<Rightarrow> if out = [] then Inl NoDockerInterfaces else Inr out)"

definition trusted_patterns :: "config_data \<Rightarrow> fw_error + string list" where
  "trusted_patterns snap =
     validate_patterns ''trusted'' (trusted_interfaces snap)
       (base_reserved snap @
        (if docker_enabled snap
         then map (\<lambda>d. (d, ''a Docker bridge'')) (effective_docker_patterns snap) else []))"

definition error_of :: "fw_error + 'a \<Rightarrow> fw_error option" where
  "error_of r = (case r of Inl e \<Rightarrow> Some e | Inr _ \<Rightarrow> None)"

definition validate_trusted :: "config_data \<Rightarrow> fw_error option" where
  "validate_trusted snap = error_of (trusted_patterns snap)"

section \<open>Ports, sources, protocols, comments\<close>

record port_spec =
  lo :: nat
  hi :: nat

definition is_range :: "port_spec \<Rightarrow> bool" where
  "is_range p \<longleftrightarrow> lo p \<noteq> hi p"

definition port_spec_string :: "port_spec \<Rightarrow> string" where
  "port_spec_string p = (if lo p = hi p then itoa (lo p) else itoa (lo p) @ ''-'' @ itoa (hi p))"

definition spec_contains :: "port_spec \<Rightarrow> nat \<Rightarrow> bool" where
  "spec_contains p n \<longleftrightarrow> lo p \<le> n \<and> n \<le> hi p"

text \<open>A number too large for \<open>strconv.Atoi\<close> is also above 65535.\<close>

definition parse_single_port :: "string \<Rightarrow> fw_error + nat" where
  "parse_single_port s0 =
     (let s = trim_space s0 in
      if s = '''' then Inl PortEmpty
      else if \<not> list_all is_digit s then Inl (BadPort s)
      else (let n = dec_value s in if n < 1 \<or> 65535 < n then Inl (BadPort s) else Inr n))"

definition parse_port_spec :: "string \<Rightarrow> fw_error + port_spec" where
  "parse_port_spec s0 =
     (let s = trim_space s0 in
      case cut CHR ''-'' s of (l, h, ranged) \<Rightarrow>
        (case parse_single_port l of
           Inl e \<Rightarrow> Inl e
         | Inr a \<Rightarrow>
             if \<not> ranged then Inr \<lparr>lo = a, hi = a\<rparr>
             else (case parse_single_port h of
                 Inl e \<Rightarrow> Inl e
               | Inr b \<Rightarrow> if b < a then Inl (RangeBackwards s) else Inr \<lparr>lo = a, hi = b\<rparr>)))"

definition parse_source :: "string \<Rightarrow> fw_error + string" where
  "parse_source s0 =
     (let s = trim_space s0 in
      if s = '''' then Inr ''''
      else if CHR ''/'' \<in> set s then
        (case parse_cidr s of
           None \<Rightarrow> Inl (BadSource s)
         | Some (i, net, m) \<Rightarrow>
             if to4 i = [] then Inl (BadSource s)
             else if \<not> ip_equal i net then Inl (SourceHostBits s (ipnet_string net m) (ip_string (to4 i)))
             else Inr (ipnet_string net m))
      else (let i = parse_ip s in
            if i = [] \<or> to4 i = [] then Inl (BadSource s) else Inr (ip_string (to4 i))))"

definition parse_protocols :: "string \<Rightarrow> fw_error + string list" where
  "parse_protocols s =
     (let p = to_lower (trim_space s) in
      if p = ''tcp'' then Inr [''tcp'']
      else if p = ''udp'' then Inr [''udp'']
      else if p = ''both'' then Inr [''tcp'', ''udp'']
      else Inl (BadProtocol s))"

definition comment_char :: "char \<Rightarrow> bool" where
  "comment_char c \<longleftrightarrow> alnum c \<or> c \<in> set '' ._-''"

definition sanitize_comment :: "string \<Rightarrow> string" where
  "sanitize_comment s = trim_space (take 40 (filter comment_char (trim_space s)))"

definition segment_containing :: "lan_segment list \<Rightarrow> ip \<Rightarrow> lan_segment option" where
  "segment_containing segs i =
     (if to4 i = [] then None
      else find (\<lambda>g. let addr = to4 (parse_ip (seg_address g)); m = to4 (parse_ip (seg_subnet_mask g))
                 in addr \<noteq> [] \<and> m \<noteq> [] \<and> ip_equal (ip_mask addr m) (ip_mask (to4 i) m)) segs)"

section \<open>Normalised rules\<close>

record parsed_rule =
  pr_name :: string
  pr_kind :: string
  pr_protos :: "string list"
  pr_port :: port_spec
  pr_to_ip :: ip
  pr_to_port :: "port_spec option"
  pr_source :: string

definition post_nat_port :: "parsed_rule \<Rightarrow> port_spec" where
  "post_nat_port p = (case pr_to_port p of Some t \<Rightarrow> t | None \<Rightarrow> pr_port p)"

definition normalize_target ::
  "port_rule \<Rightarrow> lan_segment list \<Rightarrow> parsed_rule \<Rightarrow> fw_error + parsed_rule" where
  "normalize_target r segs p =
     (let i = parse_ip (trim_space (rule_to_ip r)) in
      if i = [] \<or> to4 i = [] then Inl (BadTarget (rule_to_ip r))
      else (case segment_containing segs (to4 i) of
          None \<Rightarrow> Inl (TargetOutside (to4 i))
        | Some g \<Rightarrow>
            if ip_equal (to4 i) (parse_ip (seg_address g)) then Inl (TargetIsRouter (to4 i) (seg_name g))
            else if trim_space (rule_to_port r) = '''' then Inr (p\<lparr>pr_to_ip := to4 i\<rparr>)
            else if is_range (pr_port p) then Inl RangeRemap
            else (case parse_single_port (rule_to_port r) of
                Inl e \<Rightarrow> Inl (TargetPort e)
              | Inr n \<Rightarrow> Inr (p\<lparr>pr_to_ip := to4 i, pr_to_port := Some \<lparr>lo = n, hi = n\<rparr>\<rparr>))))"

definition normalize :: "port_rule \<Rightarrow> lan_segment list \<Rightarrow> fw_error + parsed_rule" where
  "normalize r segs =
     (let kind = to_lower (trim_space (rule_kind r)) in
      if kind \<noteq> ''forward'' \<and> kind \<noteq> ''input'' then Inl BadKind
      else (case parse_protocols (rule_protocol r) of
          Inl e \<Rightarrow> Inl e
        | Inr protos \<Rightarrow>
            (case parse_port_spec (rule_port r) of
               Inl e \<Rightarrow> Inl e
             | Inr port \<Rightarrow>
                 (case parse_source (rule_source r) of
                    Inl e \<Rightarrow> Inl e
                  | Inr src \<Rightarrow>
                      (let p = \<lparr>pr_name = sanitize_comment (rule_name r), pr_kind = kind,
                            pr_protos = protos, pr_port = port, pr_to_ip = [], pr_to_port = None,
                            pr_source = src\<rparr>
                       in if kind = ''input'' then Inr p else normalize_target r segs p)))))"

definition validate_rule :: "port_rule \<Rightarrow> lan_segment list \<Rightarrow> fw_error option" where
  "validate_rule r segs = error_of (normalize r segs)"

end
