(* ===== verification/Firewall_Render.thy ===== *)
theory Firewall_Render
  imports Firewall
begin

text \<open>
  \<open>Render\<close>, \<open>Warnings\<close>, \<open>parseEnvironment\<close>, \<open>ForeignTables\<close>, \<open>Apply\<close> and
  \<open>Remove\<close>. The rule set is the list of its lines; \<open>render\<close> joins them. The \<open>nft\<close>
  program is a parameter: a function from the standard input and the arguments to success.
\<close>

section \<open>Quoting\<close>

definition dq :: char where
  "dq = CHR 0x22"

definition newline :: char where
  "newline = CHR 0x0A"

definition quoted :: "string \<Rightarrow> string" where
  "quoted s = dq # s @ [dq]"

definition quote_list :: "string list \<Rightarrow> string" where
  "quote_list names = ''{ '' @ join '', '' (map quoted names) @ '' }''"

definition filter_table :: string where "filter_table = ''inet cobweb''"
definition nat_table :: string where "nat_table = ''ip cobweb_nat''"

section \<open>The rules of the configuration\<close>

fun lan_names :: "string \<Rightarrow> lan_segment list \<Rightarrow> string list \<Rightarrow> fw_error + string list" where
  "lan_names wan [] lans = Inr lans"
| "lan_names wan (g # gs) lans =
     (let name = trim_space (seg_interface g) in
      if \<not> iface_re name then Inl (BadSegmentInterface (seg_name g) (seg_interface g))
      else if name = wan then Inl (SegmentUsesWan (seg_name g) wan)
      else lan_names wan gs (if name \<in> set lans then lans else lans @ [name]))"

definition source_match :: "string \<Rightarrow> string" where
  "source_match s = (if s = '''' then '''' else ''ip saddr '' @ s @ '' '')"

definition comment_part :: "string \<Rightarrow> string" where
  "comment_part n = (if n = '''' then '''' else '' comment '' @ quoted n)"

definition input_line :: "string \<Rightarrow> parsed_rule \<Rightarrow> string \<Rightarrow> string" where
  "input_line wan p proto = ''iifname '' @ quoted wan @ '' '' @ source_match (pr_source p) @ proto @
     '' dport '' @ port_spec_string (pr_port p) @ '' accept'' @ comment_part (pr_name p)"

definition forward_line :: "string \<Rightarrow> parsed_rule \<Rightarrow> string \<Rightarrow> string" where
  "forward_line wan p proto = ''iifname '' @ quoted wan @ '' '' @ source_match (pr_source p) @
     ''ip daddr '' @ ip_string (pr_to_ip p) @ '' '' @ proto @ '' dport '' @
     port_spec_string (post_nat_port p) @ '' accept'' @ comment_part (pr_name p)"

definition dnat_line :: "string \<Rightarrow> parsed_rule \<Rightarrow> string \<Rightarrow> string" where
  "dnat_line wan p proto = ''iifname '' @ quoted wan @ '' fib daddr type local '' @
     source_match (pr_source p) @ proto @ '' dport '' @ port_spec_string (pr_port p) @ '' dnat to '' @
     ip_string (pr_to_ip p) @
     (case pr_to_port p of None \<Rightarrow> '''' | Some t \<Rightarrow> '':'' @ port_spec_string t) @
     comment_part (pr_name p)"

text \<open>The three lists of rule lines: input, forward, DNAT.\<close>

record rule_lines =
  input_rules :: "string list"
  forward_rules :: "string list"
  dnat_rules :: "string list"

definition add_rule :: "string \<Rightarrow> parsed_rule \<Rightarrow> rule_lines \<Rightarrow> rule_lines" where
  "add_rule wan p l =
     (if pr_kind p = ''input'' then
        l\<lparr>input_rules := input_rules l @ map (input_line wan p) (pr_protos p)\<rparr>
      else if pr_kind p = ''forward'' then
        l\<lparr>forward_rules := forward_rules l @ map (forward_line wan p) (pr_protos p),
          dnat_rules := dnat_rules l @ map (dnat_line wan p) (pr_protos p)\<rparr>
      else l)"

definition rule_label :: "port_rule \<Rightarrow> string" where
  "rule_label r = (if rule_name r = '''' then rule_id r else rule_name r)"

fun collect_rules ::
  "string \<Rightarrow> lan_segment list \<Rightarrow> port_rule list \<Rightarrow> rule_lines \<Rightarrow> fw_error + rule_lines" where
  "collect_rules wan segs [] l = Inr l"
| "collect_rules wan segs (r # rs) l =
     (if rule_disabled r then collect_rules wan segs rs l
      else (case normalize r segs of
          Inl e \<Rightarrow> Inl (InRule (rule_label r) e)
        | Inr p \<Rightarrow> collect_rules wan segs rs (add_rule wan p l)))"

section \<open>The rule set\<close>

definition input_chain :: "string \<Rightarrow> string list \<Rightarrow> string list \<Rightarrow> string list \<Rightarrow> string list" where
  "input_chain lan_set docker trusted rules =
     [''    chain input {'',
      ''        type filter hook input priority 0; policy drop;'',
      ''        iifname '' @ quoted ''lo'' @ '' accept'',
      ''        ct state established,related accept'',
      ''        ct state invalid drop'',
      ''        # ICMP (1) and ICMPv6 (58): ping, path-MTU discovery, IPv6 neighbor discovery'',
      ''        meta l4proto { 1, 58 } accept'',
      ''        # Everything on a LAN segment may talk to the router itself (DHCP, DNS, dashboard, SSH).'',
      ''        iifname '' @ lan_set @ '' accept'']
     @ map (\<lambda>d. ''        iifname '' @ quoted d @ '' accept comment '' @
         quoted ''docker: containers may talk to the router'') docker
     @ map (\<lambda>t. ''        iifname '' @ quoted t @ '' accept comment '' @
         quoted ''trusted interface: may talk to the router'') trusted
     @ map (\<lambda>r. ''        '' @ r) rules
     @ [''    }'']"

definition docker_forward :: "string \<Rightarrow> string \<Rightarrow> string \<Rightarrow> string \<Rightarrow> string list" where
  "docker_forward wan lan_set src d =
     [''        iifname '' @ quoted d @ '' oifname '' @ quoted d @ '' accept'',
      ''        iifname '' @ quoted d @ '' oifname '' @ lan_set @ '' accept'',
      ''        iifname '' @ quoted d @ '' oifname '' @ quoted wan @ '' accept'',
      ''        iifname '' @ lan_set @ '' oifname '' @ quoted d @ '' ct status dnat accept'',
      ''        iifname '' @ quoted wan @ '' oifname '' @ quoted d @ '' '' @ src @ ''ct status dnat accept'']"

definition trusted_forward :: "string \<Rightarrow> string \<Rightarrow> string list \<Rightarrow> string \<Rightarrow> string list" where
  "trusted_forward wan lan_set docker t =
     [''        iifname '' @ quoted t @ '' oifname '' @ lan_set @ '' accept'',
      ''        iifname '' @ quoted t @ '' oifname '' @ quoted wan @ '' accept'']
     @ map (\<lambda>d. ''        iifname '' @ quoted t @ '' oifname '' @ quoted d @ '' ct status dnat accept'') docker"

definition apostrophe :: string where
  "apostrophe = [CHR 0x27]"

definition docker_comment :: "string list" where
  "docker_comment =
       [''        # Docker: containers reach each other, the LANs and the WAN. Only published (DNAT'' @ apostrophe @ ''d)'',
        ''        # ports are reachable from outside, never a container'' @ apostrophe @ ''s internal address directly.'',
        ''        # Docker'' @ apostrophe @ ''s own tables still enforce their per-network isolation on top of this.'']"

definition trusted_comment :: "string list" where
  "trusted_comment =
       [''        # Trusted interfaces (e.g. a VPN) may reach the LAN segments and go out the WAN. New'',
        ''        # connections can'' @ apostrophe @ ''t be started toward them - only replies, via the rule at the top.'']"

definition forward_chain ::
  "string \<Rightarrow> string \<Rightarrow> string list \<Rightarrow> string \<Rightarrow> string list \<Rightarrow> string list \<Rightarrow> string list" where
  "forward_chain wan lan_set docker src trusted rules =
     [''    chain forward {'',
      ''        type filter hook forward priority 0; policy drop;'',
      ''        ct state established,related accept'',
      ''        ct state invalid drop'',
      ''        # LAN segments route freely between each other and out to the WAN.'',
      ''        iifname '' @ lan_set @ '' oifname '' @ lan_set @ '' accept'',
      ''        iifname '' @ lan_set @ '' oifname '' @ quoted wan @ '' accept'']
     @ (if docker = [] then [] else
       docker_comment
       @ concat (map (docker_forward wan lan_set src) docker))
     @ (if trusted = [] then [] else
       trusted_comment
       @ concat (map (trusted_forward wan lan_set docker) trusted))
     @ map (\<lambda>r. ''        '' @ r) rules
     @ [''    }'', ''}'']"

definition ruleset_lines ::
  "string \<Rightarrow> string list \<Rightarrow> string list \<Rightarrow> string \<Rightarrow> string list \<Rightarrow> rule_lines \<Rightarrow> string list" where
  "ruleset_lines wan lans docker src trusted l =
     [''# Generated by cobweb - edit rules in the dashboard (Settings -> Firewall), not here.'',
      ''# Declaring then deleting each table first makes this safe to apply whether or'',
      ''# not it already exists, and nft applies the whole file as one transaction.'',
      ''table '' @ filter_table, ''delete table '' @ filter_table,
      ''table '' @ nat_table, ''delete table '' @ nat_table,
      '''',
      ''table '' @ filter_table @ '' {'']
     @ input_chain (quote_list lans) docker trusted (input_rules l)
     @ forward_chain wan (quote_list lans) docker src trusted (forward_rules l)
     @ ['''', ''table '' @ nat_table @ '' {'', ''    chain prerouting {'',
        ''        type nat hook prerouting priority -100; policy accept;'']
     @ map (\<lambda>r. ''        '' @ r) (dnat_rules l)
     @ [''    }'', ''    chain postrouting {'',
        ''        type nat hook postrouting priority 100; policy accept;'',
        ''        oifname '' @ quoted wan @ '' masquerade'', ''    }'', ''}'']"

definition docker_part :: "config_data \<Rightarrow> fw_error + string list \<times> string" where
  "docker_part snap =
     (if \<not> docker_enabled snap then Inr ([], '''')
      else (case docker_patterns snap of
          Inl e \<Rightarrow> Inl e
        | Inr docker \<Rightarrow>
            (let src = trim_space (docker_wan_source snap) in
             if src = '''' then Inr (docker, '''')
             else (case parse_source src of
                 Inl e \<Rightarrow> Inl (DockerSource e)
               | Inr parsed \<Rightarrow> Inr (docker, ''ip saddr '' @ parsed @ '' '')))))"

definition render_lines :: "config_data \<Rightarrow> fw_error + string list" where
  "render_lines snap =
     (let wan = trim_space (wan_interface snap) in
      if \<not> iface_re wan then Inl (BadWan (wan_interface snap))
      else (case lan_names wan (lan_segments snap) [] of
          Inl e \<Rightarrow> Inl e
        | Inr lans \<Rightarrow>
            if lans = [] then Inl NoSegments
            else (case docker_part snap of
                Inl e \<Rightarrow> Inl e
              | Inr (docker, src) \<Rightarrow>
                  (case trusted_patterns snap of
                     Inl e \<Rightarrow> Inl e
                   | Inr trusted \<Rightarrow>
                       (case collect_rules wan (lan_segments snap) (port_rules snap)
                           \<lparr>input_rules = [], forward_rules = [], dnat_rules = []\<rparr> of
                          Inl e \<Rightarrow> Inl e
                        | Inr l \<Rightarrow> Inr (ruleset_lines wan lans docker src trusted l))))))"

definition render :: "config_data \<Rightarrow> fw_error + string" where
  "render snap = map_sum id (\<lambda>ls. concat (map (\<lambda>l. l @ [newline]) ls)) (render_lines snap)"

section \<open>Warnings\<close>

text \<open>The three kinds of warnings; the text of a \<open>RuleOpen\<close> names the label.\<close>

datatype warning = NoSshRule | DockerOpen | RuleOpen string

definition allows_ssh :: "port_rule \<Rightarrow> bool" where
  "allows_ssh r \<longleftrightarrow> \<not> rule_disabled r \<and> to_lower (trim_space (rule_kind r)) = ''input'' \<and>
     (case parse_protocols (rule_protocol r) of
        Inl _ \<Rightarrow> False
      | Inr protos \<Rightarrow>
          (case parse_port_spec (rule_port r) of
             Inl _ \<Rightarrow> False
           | Inr port \<Rightarrow> list_ex (\<lambda>p. p = ''tcp'' \<and> spec_contains port 22) protos))"

definition warnings :: "config_data \<Rightarrow> warning list" where
  "warnings snap =
     (if list_ex allows_ssh (port_rules snap) then [] else [NoSshRule])
     @ (if docker_enabled snap \<and> trim_space (docker_wan_source snap) = '''' then [DockerOpen] else [])
     @ map (\<lambda>r. RuleOpen (rule_label r))
         (filter (\<lambda>r. \<not> rule_disabled r \<and> trim_space (rule_source r) = '''') (port_rules snap))"

section \<open>Other firewalls on the machine\<close>

text \<open>The output of \<open>nft list tables\<close>, or \<^const>\<open>None\<close> when nft cannot be run.\<close>

definition foreign_tables :: "string option \<Rightarrow> string list" where
  "foreign_tables out =
     (case out of
        None \<Rightarrow> []
      | Some s \<Rightarrow>
          filter (\<lambda>n. n \<noteq> filter_table \<and> n \<noteq> nat_table)
            (map (\<lambda>l. trim_prefix l ''table '')
              (filter (\<lambda>l. prefix ''table '' l) (map trim_space (split_on newline s)))))"

record nft_chain =
  ch_family :: string
  ch_table :: string
  ch_name :: string
  ch_hook :: string
  ch_policy :: string

record environment =
  forward_drops :: "string list"
  docker_detected :: bool
  docker_forward_drops :: "string list"

definition table_key :: "nft_chain \<Rightarrow> string" where
  "table_key c = ch_family c @ '' '' @ ch_table c"

definition is_ours :: "string \<Rightarrow> bool" where
  "is_ours k \<longleftrightarrow> k = filter_table \<or> k = nat_table"

text \<open>The decoded items of \<open>nft -j list chains\<close> that are not cobweb's own chains; an item
  that is no chain is \<^const>\<open>None\<close>, a document that does not decode has no items.\<close>

definition other_chains :: "nft_chain option list \<Rightarrow> nft_chain list" where
  "other_chains items = filter (\<lambda>c. \<not> is_ours (table_key c)) (map the (filter (\<lambda>i. i \<noteq> None) items))"

definition looks_docker :: "nft_chain \<Rightarrow> bool" where
  "looks_docker c \<longleftrightarrow> prefix ''DOCKER'' (ch_name c) \<or> prefix ''docker'' (to_lower (ch_table c))"

definition parse_environment :: "nft_chain option list option \<Rightarrow> environment" where
  "parse_environment doc =
     (case doc of
        None \<Rightarrow> \<lparr>forward_drops = [], docker_detected = False, docker_forward_drops = []\<rparr>
      | Some items \<Rightarrow>
          (let cs = other_chains items;
               docker_tables = map table_key (filter looks_docker cs);
               drops = filter (\<lambda>c. ch_hook c = ''forward'' \<and> ch_policy c = ''drop'') cs;
               label = (\<lambda>c. table_key c @ '' '' @ ch_name c)
           in \<lparr>forward_drops = map label drops, docker_detected = list_ex looks_docker cs,
               docker_forward_drops = map label (filter (\<lambda>c. table_key c \<in> set docker_tables) drops)\<rparr>))"

definition validate_docker :: "config_data \<Rightarrow> fw_error option" where
  "validate_docker snap =
     (case docker_patterns snap of
        Inl e \<Rightarrow> Some e
      | Inr _ \<Rightarrow>
          (let src = trim_space (docker_wan_source snap) in
           if src = '''' then None
           else (case parse_source src of Inl e \<Rightarrow> Some (DockerSource e) | Inr _ \<Rightarrow> None)))"

section \<open>Applying\<close>

text \<open>
  What cobweb does to the machine: an nft call with its input and arguments, or turning
  IPv4 forwarding on. The parameter \<open>nft\<close> tells whether a call succeeds. The result is
  the actions taken, in order, and the error reported.
\<close>

datatype fw_action = Nft string "string list" | EnableForwarding

definition check_args :: "string list" where "check_args = [''-c'', ''-f'', ''-'']"
definition install_args :: "string list" where "install_args = [''-f'', ''-'']"

definition teardown :: string where
  "teardown = ''table '' @ filter_table @ [newline] @ ''delete table '' @ filter_table @ [newline] @
     ''table '' @ nat_table @ [newline] @ ''delete table '' @ nat_table @ [newline]"

definition remove_fw :: "(string \<Rightarrow> string list \<Rightarrow> bool) \<Rightarrow> fw_action list \<times> fw_error option" where
  "remove_fw nft = ([Nft teardown install_args],
     if nft teardown install_args then None else Some NftRemoveFailed)"

definition apply_fw ::
  "(string \<Rightarrow> string list \<Rightarrow> bool) \<Rightarrow> config_data \<Rightarrow> fw_action list \<times> fw_error option" where
  "apply_fw nft snap =
     (if \<not> firewall_enabled snap then remove_fw nft
      else (case render snap of
          Inl e \<Rightarrow> ([], Some e)
        | Inr t \<Rightarrow>
            if \<not> nft t check_args then ([Nft t check_args], Some NftCheckFailed)
            else if \<not> nft t install_args
            then ([Nft t check_args, Nft t install_args], Some NftApplyFailed)
            else ([Nft t check_args, Nft t install_args, EnableForwarding], None)))"

end
