(* ===== verification/Firewall_Claims.thy ===== *)
theory Firewall_Claims
  imports Firewall_Render
begin

text \<open>
  The properties of the firewall: patterns never reach a reserved interface, parsed values
  are in range and in normal form, nothing of the configuration can escape its place in the
  rule set, and nothing is installed that nft has not checked.
\<close>

section \<open>Patterns\<close>

lemma iface_matches_refl: "iface_matches n n"
  by (auto simp: iface_matches_def trim_suffix_def take_is_prefix)

lemma overlap_iff:
  "patterns_overlap a b \<longleftrightarrow> (\<exists>n. iface_matches a n \<and> iface_matches b n)"
proof -
  have "\<exists>n. prefix x n \<and> prefix y n" if "prefix x y \<or> prefix y x" for x y :: string
    using that by blast
  then show ?thesis
    by (auto simp: patterns_overlap_def iface_matches_def Let_def dest: prefix_same_cases)
qed

text \<open>C30: Two patterns overlap exactly when some interface name matches both.\<close>

theorem overlap_iff_common_name:
  "patterns_overlap a b \<longleftrightarrow> (\<exists>n. iface_matches a n \<and> iface_matches b n)"
  by (rule overlap_iff)

lemma validate_loop_sound:
  "validate_patterns_loop kind ps reserved out = Inr res \<Longrightarrow>
   distinct out \<Longrightarrow>
   distinct res \<and> set res = set out \<union> (trim_space ` set ps - {''''}) \<and>
   (\<forall>p \<in> set res - set out. pattern_re p \<and> overlapping p reserved = None)"
proof (induction kind ps reserved out arbitrary: res rule: validate_patterns_loop.induct)
  case (2 kind raw rest reserved out)
  show ?case
  proof (cases "trim_space raw = '''' \<or> trim_space raw \<in> set out")
    case True
    with 2(1) [OF refl True] 2(3,4) show ?thesis by (auto simp: Let_def)
  next
    case False
    with 2(3) have p: "pattern_re (trim_space raw)" "overlapping (trim_space raw) reserved = None"
      and r: "validate_patterns_loop kind rest reserved (out @ [trim_space raw]) = Inr res"
      by (auto simp: Let_def split: if_splits option.splits)
    have "distinct (out @ [trim_space raw])" using False 2(4) by simp
    from 2(2) [OF refl False _ p(2) r this] p False show ?thesis by auto
  qed
qed auto

lemma validate_patterns_sound:
  assumes "validate_patterns kind ps reserved = Inr res"
  shows "distinct res" "set res = trim_space ` set ps - {''''}" "p \<in> set res \<Longrightarrow> pattern_re p"
    and "p \<in> set res \<Longrightarrow> (r, w) \<in> set reserved \<Longrightarrow> r \<noteq> '''' \<Longrightarrow> iface_matches p n
      \<Longrightarrow> \<not> iface_matches r n"
proof -
  have "validate_patterns_loop kind ps reserved [] = Inr res"
    using assms by (simp add: validate_patterns_def)
  from validate_loop_sound [OF this] have s: "distinct res" "set res = trim_space ` set ps - {''''}"
    "\<And>p. p \<in> set res \<Longrightarrow> pattern_re p \<and> overlapping p reserved = None"
    by auto
  then show "distinct res" "set res = trim_space ` set ps - {''''}"
    "p \<in> set res \<Longrightarrow> pattern_re p" by auto
  assume *: "p \<in> set res" "(r, w) \<in> set reserved" "r \<noteq> ''''" "iface_matches p n"
  with s(3) have "\<not> patterns_overlap p r"
    by (fastforce simp: overlapping_def find_None_iff)
  with * show "\<not> iface_matches r n" unfolding overlap_iff by blast
qed

text \<open>C25: An interface that matches an accepted trusted pattern is not the WAN, not
  loopback and not a LAN segment's; and when Docker is enabled it is no Docker bridge.\<close>

theorem trusted_is_nothing_else:
  assumes "trusted_patterns snap = Inr ts" "t \<in> set ts" "iface_matches t n" "n \<noteq> ''''"
  shows "n \<noteq> trim_space (wan_interface snap) \<and> n \<noteq> ''lo'' \<and>
    n \<notin> (\<lambda>g. trim_space (seg_interface g)) ` set (lan_segments snap) \<and>
    (docker_enabled snap \<longrightarrow> (\<forall>d \<in> set (effective_docker_patterns snap). \<not> iface_matches d n))"
proof -
  let ?dk = "if docker_enabled snap
     then map (\<lambda>d. (d, ''a Docker bridge'')) (effective_docker_patterns snap) else []"
  let ?res = "base_reserved snap @ ?dk"
  have v: "validate_patterns ''trusted'' (trusted_interfaces snap) ?res = Inr ts"
    using assms(1) by (simp add: trusted_patterns_def)
  have free: "n \<noteq> r" if "(r, w) \<in> set ?res" for r w
    using validate_patterns_sound(4) [OF v assms(2) that _ assms(3)] assms(4) iface_matches_refl by auto
  have "\<not> iface_matches d n" if "docker_enabled snap" "d \<in> set (effective_docker_patterns snap)" for d
  proof -
    have "(d, ''a Docker bridge'') \<in> set ?res" "d \<noteq> ''''"
      using that by (auto simp: effective_docker_patterns_def)
    then show ?thesis by (rule validate_patterns_sound(4) [OF v assms(2) _ _ assms(3)])
  qed
  moreover have "n \<noteq> trim_space (seg_interface g)" if "g \<in> set (lan_segments snap)" for g
    by (rule free [of _ "''a LAN segment''"]) (use that in \<open>auto simp: base_reserved_def\<close>)
  moreover have "n \<noteq> trim_space (wan_interface snap)"
    by (rule free [of _ "''the WAN interface''"]) (simp add: base_reserved_def)
  moreover have "n \<noteq> ''lo''"
    by (rule free [of _ "''loopback''"]) (simp add: base_reserved_def)
  ultimately show ?thesis by blast
qed

definition ex_pr1 :: port_rule where
  "ex_pr1 = \<lparr>rule_id = ''rule-1'', rule_name = ''Files; drop'', rule_kind = ''forward'',
     rule_protocol = ''both'', rule_port = ''8000-8010'', rule_to_ip = ''192.168.2.20'',
     rule_to_port = '''', rule_source = ''10.0.0.0/8'', rule_disabled = False\<rparr>"

definition ex_pr2 :: port_rule where
  "ex_pr2 = \<lparr>rule_id = ''rule-2'', rule_name = '''', rule_kind = '' Input'', rule_protocol = ''TCP'',
     rule_port = ''22'', rule_to_ip = '''', rule_to_port = '''', rule_source = '''',
     rule_disabled = False\<rparr>"

definition ex_fw :: config_data where
  "ex_fw = (default_data (Some [0, 0, 0, 0, 0, 1]))\<lparr>trusted_interfaces := [''wg*''], docker_enabled := True,
     firewall_enabled := True, port_rules := [ex_pr1, ex_pr2]\<rparr>"

theorem trusted_is_nothing_else_witness:
  "''wg0'' \<noteq> trim_space (wan_interface ex_fw) \<and>
    filter (\<lambda>d. iface_matches d ''wg0'') (effective_docker_patterns ex_fw) = []"
proof -
  have "trusted_patterns ex_fw = Inr [''wg*'']" by code_simp
  moreover have "iface_matches ''wg*'' ''wg0''" by code_simp
  moreover have "docker_enabled ex_fw" by (simp add: ex_fw_def)
  ultimately show ?thesis using trusted_is_nothing_else [of ex_fw "[''wg*'']" "''wg*''" "''wg0''"]
    by (auto simp: filter_empty_conv)
qed

section \<open>Ports and sources\<close>

definition port_ok :: "port_spec \<Rightarrow> bool" where
  "port_ok p \<longleftrightarrow> 1 \<le> lo p \<and> lo p \<le> hi p \<and> hi p \<le> 65535"

lemma parse_single_port_bounds: "parse_single_port s = Inr n \<Longrightarrow> 1 \<le> n \<and> n \<le> 65535"
  by (auto simp: parse_single_port_def Let_def split: if_splits)

lemma parse_port_spec_ok: "parse_port_spec s = Inr p \<Longrightarrow> port_ok p"
  by (auto simp: parse_port_spec_def port_ok_def Let_def not_less split: prod.splits sum.splits if_splits
      dest!: parse_single_port_bounds)

lemma parse_single_port_itoa: "1 \<le> n \<Longrightarrow> n \<le> 65535 \<Longrightarrow> parse_single_port (itoa n) = Inr n"
  using itoa_digits [of n]
  by (simp add: parse_single_port_def trim_space_digits list_all_iff Let_def)

lemma dash_not_digit: "CHR ''-'' \<notin> set (itoa n)"
  using itoa_digits [of n] by (auto simp: is_digit_def)

lemma parse_port_spec_string:
  assumes "port_ok p" shows "parse_port_spec (port_spec_string p) = Inr p"
proof (cases "lo p = hi p")
  case True
  with assms show ?thesis
    using itoa_digits [of "hi p"]
    by (simp add: parse_port_spec_def port_spec_string_def trim_space_digits list_all_iff
        cut_no_sep dash_not_digit parse_single_port_itoa port_ok_def Let_def)
next
  case False
  let ?s = "itoa (lo p) @ CHR ''-'' # itoa (hi p)"
  have "plain_char c" if "c \<in> set (itoa n)" for c n
    using that itoa_digits [of n] by (auto intro: addr_char_plain simp: addr_char_def)
  then have "plain_char (hd (itoa n)) \<and> plain_char (last (itoa n))" for n
    by (metis hd_in_set last_in_set itoa_nonempty)
  then have "trim_space ?s = ?s"
    by (intro trim_space_plain) (simp add: hd_append)
  with False assms show ?thesis
    by (simp add: parse_port_spec_def port_spec_string_def cut_append_sep dash_not_digit
        parse_single_port_itoa port_ok_def Let_def)
qed

text \<open>A port specification that parses is a range within 1 to 65535, and every such range
  is parsed back from its printed form.\<close>

theorem port_spec_roundtrip:
  "(parse_port_spec s = Inr p \<longrightarrow> port_ok p) \<and>
   (port_ok q \<longrightarrow> parse_port_spec (port_spec_string q) = Inr q)"
  using parse_port_spec_ok parse_port_spec_string by blast

theorem port_spec_roundtrip_witness:
  "port_ok \<lparr>lo = 8000, hi = 8010\<rparr> \<and>
   parse_port_spec (port_spec_string \<lparr>lo = 8000, hi = 8010\<rparr>) = Inr \<lparr>lo = 8000, hi = 8010\<rparr>"
  using port_spec_roundtrip [of _ _ "\<lparr>lo = 8000, hi = 8010\<rparr>"] by (simp add: port_ok_def)

text \<open>The normal forms of a source: nothing, an address, or a network without host bits.\<close>

definition source_form :: "string \<Rightarrow> bool" where
  "source_form s \<longleftrightarrow> s = '''' \<or> (\<exists>a. length a = 4 \<and> s = dotted a) \<or> (\<exists>a l. network_form s a l)"

lemma source_form_chars: "source_form s \<Longrightarrow> c \<in> set s \<Longrightarrow> addr_char c"
  by (auto simp: source_form_def dest: dotted_addr_char network_form_chars)

lemma parse_source_net:
  assumes "parse_cidr u = Some (i, net, m)" "to4 i \<noteq> []" "ip_equal i net"
  shows "source_form (ipnet_string net m)"
proof -
  obtain n k where "k = 4 \<or> k = 16" "n \<le> 8 * k" "m = cidr_mask n k" "net = ip_mask i m"
    using assms(1) by (rule parse_cidr_parts)
  with assms(2,3) obtain l where "network_form (ipnet_string net m) (to4 i) l"
    using exact_network_form by blast
  then show ?thesis by (auto simp: source_form_def)
qed

lemma parse_source_ip: "to4 i \<noteq> [] \<Longrightarrow> source_form (ip_string (to4 i))"
  using length_to4 [of i] by (auto simp: source_form_def ip_string_4)

lemma parse_source_form: "parse_source s = Inr t \<Longrightarrow> source_form t"
  by (auto simp: parse_source_def Let_def source_form_def [of "[]"] split: if_splits option.splits
      intro: parse_source_net parse_source_ip)

lemma source_form_fixed:
  assumes "source_form s" shows "parse_source s = Inr s"
proof -
  have t: "trim_space s = s" by (rule trim_space_addr) (rule source_form_chars [OF assms])
  consider "s = ''''" | a where "length a = 4" "s = dotted a" | a l where "network_form s a l"
    using assms by (auto simp: source_form_def)
  then show ?thesis
  proof cases
    case 2
    then have "s \<noteq> ''''" using t parse_v4_dotted [of a] by auto
    moreover have "CHR ''/'' \<notin> set s" using 2 dotted_no_slash by simp
    moreover have "to4 (v4_in_v6_prefix @ a) = a" "a \<noteq> []"
      using 2(1) by (auto simp: to4_def v4_in_v6_prefix_def)
    ultimately show ?thesis
      using 2 t by (simp add: parse_source_def parse_ip_dotted ip_string_4)
  next
    case (3 a l)
    then have "CHR ''/'' \<in> set s" "s \<noteq> ''''" by (auto simp: network_form_def)
    moreover have a: "to4 (v4_in_v6_prefix @ a) = a" "to4 a = a" "a \<noteq> []" "length a = 4" "l \<le> 32"
      using 3 by (auto simp: network_form_def to4_def v4_in_v6_prefix_def)
    moreover have "ipnet_string a (cidr_mask l 4) = s"
      using 3 a by (simp add: ipnet_string_4 network_form_def)
    ultimately show ?thesis
      using t parse_cidr_network_form [OF 3]
      by (simp add: parse_source_def ip_equal_to4)
  qed (use t in \<open>simp add: parse_source_def\<close>)
qed



section \<open>Normalised rules\<close>

lemma length_trim_space: "length (trim_space s) \<le> length s"
proof -
  have "length (trim_right t) \<le> length t" for t
    using suffix_length_le [OF suffix_strip_front [of _ _ "rev t"]] by (simp add: trim_right_def)
  moreover have "length (trim_left s) \<le> length s"
    using suffix_length_le [OF suffix_strip_front [of _ _ s]] by (simp add: trim_left_def)
  ultimately show ?thesis unfolding trim_space_def by (rule order_trans)
qed

lemma sanitize_comment_ok:
  "list_all comment_char (sanitize_comment s) \<and> length (sanitize_comment s) \<le> 40"
proof
  let ?t = "take 40 (filter comment_char (trim_space s))"
  have "set (sanitize_comment s) \<subseteq> set ?t"
    unfolding sanitize_comment_def by (rule set_trim_space)
  also have "\<dots> \<subseteq> set (filter comment_char (trim_space s))" by (rule set_take_subset)
  finally show "list_all comment_char (sanitize_comment s)" by (auto simp: list_all_iff)
  have "length (sanitize_comment s) \<le> length ?t"
    unfolding sanitize_comment_def by (rule length_trim_space)
  then show "length (sanitize_comment s) \<le> 40" by simp
qed

text \<open>The target of a forward rule: inside a segment, not the router, ports not widened.\<close>

definition target_ok :: "lan_segment list \<Rightarrow> parsed_rule \<Rightarrow> bool" where
  "target_ok segs p \<longleftrightarrow> length (pr_to_ip p) = 4 \<and>
     (\<exists>g \<in> set segs. let addr = to4 (parse_ip (seg_address g)); m = to4 (parse_ip (seg_subnet_mask g)) in
        addr \<noteq> [] \<and> m \<noteq> [] \<and> ip_mask addr m = ip_mask (pr_to_ip p) m \<and> pr_to_ip p \<noteq> addr) \<and>
     (case pr_to_port p of None \<Rightarrow> True | Some t \<Rightarrow> port_ok t \<and> lo t = hi t \<and> \<not> is_range (pr_port p))"

definition rule_ok :: "lan_segment list \<Rightarrow> parsed_rule \<Rightarrow> bool" where
  "rule_ok segs p \<longleftrightarrow> port_ok (pr_port p) \<and> source_form (pr_source p) \<and>
     pr_protos p \<in> {[''tcp''], [''udp''], [''tcp'', ''udp'']} \<and>
     list_all comment_char (pr_name p) \<and> length (pr_name p) \<le> 40 \<and>
     (pr_kind p = ''input'' \<or> pr_kind p = ''forward'' \<and> target_ok segs p)"

lemma ip_mask_len4:
  assumes "length a = 4" "length m = 4"
  shows "length (ip_mask a m) = 4"
  using assms by (simp add: ip_mask_def)

lemma segment_containing_ok:
  assumes "segment_containing segs i = Some g" "length i = 4"
  shows "g \<in> set segs" "to4 (parse_ip (seg_address g)) \<noteq> []" "to4 (parse_ip (seg_subnet_mask g)) \<noteq> []"
    "ip_mask (to4 (parse_ip (seg_address g))) (to4 (parse_ip (seg_subnet_mask g))) =
     ip_mask i (to4 (parse_ip (seg_subnet_mask g)))"
proof -
  define P where "P g \<longleftrightarrow> to4 (parse_ip (seg_address g)) \<noteq> [] \<and> to4 (parse_ip (seg_subnet_mask g)) \<noteq> [] \<and>
     ip_equal (ip_mask (to4 (parse_ip (seg_address g))) (to4 (parse_ip (seg_subnet_mask g))))
       (ip_mask i (to4 (parse_ip (seg_subnet_mask g))))" for g :: lan_segment
  have "to4 i = i" "i \<noteq> []" using assms(2) by (auto simp: to4_def)
  then have "find P segs = Some g"
    using assms(1) unfolding segment_containing_def P_def Let_def by simp
  then have g: "g \<in> set segs" "P g" by (auto simp: find_Some_iff)
  then show "g \<in> set segs" "to4 (parse_ip (seg_address g)) \<noteq> []" "to4 (parse_ip (seg_subnet_mask g)) \<noteq> []"
    by (simp_all add: P_def)
  then have "length (to4 (parse_ip (seg_address g))) = 4" "length (to4 (parse_ip (seg_subnet_mask g))) = 4"
    using length_to4 by blast+
  with g(2) assms(2) show "ip_mask (to4 (parse_ip (seg_address g))) (to4 (parse_ip (seg_subnet_mask g))) =
     ip_mask i (to4 (parse_ip (seg_subnet_mask g)))"
    by (simp add: P_def ip_equal_def ip_mask_len4)
qed

definition same_base :: "parsed_rule \<Rightarrow> parsed_rule \<Rightarrow> bool" where
  "same_base p q \<longleftrightarrow> pr_name p = pr_name q \<and> pr_kind p = pr_kind q \<and> pr_protos p = pr_protos q \<and>
     pr_port p = pr_port q \<and> pr_source p = pr_source q"

lemma normalize_target_ok:
  assumes "normalize_target r segs p0 = Inr p" "pr_to_port p0 = None"
  shows "target_ok segs p \<and> same_base p p0"
proof -
  define i where "i = to4 (parse_ip (trim_space (rule_to_ip r)))"
  from assms(1) have ne: "i \<noteq> []" by (auto simp: normalize_target_def i_def Let_def split: if_splits)
  then have l: "length i = 4" "to4 i = i" unfolding i_def by (simp_all add: length_to4)
  obtain g where g: "segment_containing segs i = Some g" "\<not> ip_equal i (parse_ip (seg_address g))"
    using assms(1) by (auto simp: normalize_target_def i_def Let_def split: if_splits option.splits)
  note s = segment_containing_ok [OF g(1) l(1)]
  have n: "i \<noteq> to4 (parse_ip (seg_address g))"
    using g(2) ne l by (auto simp: ip_equal_to4)
  have seg: "\<exists>g \<in> set segs. let addr = to4 (parse_ip (seg_address g)); m = to4 (parse_ip (seg_subnet_mask g)) in
        addr \<noteq> [] \<and> m \<noteq> [] \<and> ip_mask addr m = ip_mask i m \<and> i \<noteq> addr"
    using s n by (intro bexI [of _ g]) (simp_all add: Let_def)
  have "(p = p0\<lparr>pr_to_ip := i\<rparr>) \<or>
      (\<exists>n. 1 \<le> n \<and> n \<le> 65535 \<and> \<not> is_range (pr_port p0) \<and>
        p = p0\<lparr>pr_to_ip := i, pr_to_port := Some \<lparr>lo = n, hi = n\<rparr>\<rparr>)"
    using assms(1) g by (auto simp: normalize_target_def i_def [symmetric] Let_def
        split: if_splits sum.splits dest!: parse_single_port_bounds)
  then show ?thesis
  proof (elim disjE exE conjE)
    assume "p = p0\<lparr>pr_to_ip := i\<rparr>"
    with seg l assms(2) show ?thesis by (simp add: target_ok_def same_base_def)
  next
    fix n assume "1 \<le> n" "n \<le> 65535" "\<not> is_range (pr_port p0)"
      "p = p0\<lparr>pr_to_ip := i, pr_to_port := Some \<lparr>lo = n, hi = n\<rparr>\<rparr>"
    with seg l show ?thesis by (simp add: target_ok_def same_base_def port_ok_def)
  qed
qed

lemma parse_protocols_ok:
  "parse_protocols s = Inr ps \<Longrightarrow> ps \<in> {[''tcp''], [''udp''], [''tcp'', ''udp'']}"
  by (auto simp: parse_protocols_def Let_def split: if_splits)

lemma normalize_ok:
  assumes "normalize r segs = Inr p" shows "rule_ok segs p"
proof -
  define kind where "kind = to_lower (trim_space (rule_kind r))"
  from assms obtain protos port src where k: "kind = ''forward'' \<or> kind = ''input''"
    and f: "parse_protocols (rule_protocol r) = Inr protos" "parse_port_spec (rule_port r) = Inr port"
      "parse_source (rule_source r) = Inr src"
    by (auto simp: normalize_def kind_def Let_def split: if_splits sum.splits)
  define p0 where "p0 = \<lparr>pr_name = sanitize_comment (rule_name r), pr_kind = kind,
    pr_protos = protos, pr_port = port, pr_to_ip = [], pr_to_port = None, pr_source = src\<rparr>"
  have r: "(if kind = ''input'' then Inr p0 else normalize_target r segs p0) = Inr p"
    using assms k f by (auto simp: normalize_def kind_def [symmetric] p0_def Let_def)
  have base: "port_ok port" "source_form src" "protos \<in> {[''tcp''], [''udp''], [''tcp'', ''udp'']}"
    using f by (auto intro: parse_port_spec_ok parse_source_form dest: parse_protocols_ok)
  show ?thesis
  proof (cases "kind = ''input''")
    case True
    with r base sanitize_comment_ok [of "rule_name r"] show ?thesis
      by (auto simp: rule_ok_def p0_def)
  next
    case False
    with r have t: "normalize_target r segs p0 = Inr p" by simp
    have "pr_to_port p0 = None" by (simp add: p0_def)
    from normalize_target_ok [OF t this] False k base sanitize_comment_ok [of "rule_name r"]
    show ?thesis by (simp add: rule_ok_def same_base_def p0_def)
  qed
qed

text \<open>C27: A rule that passes validation has its ports within 1 to 65535, a source that is no
  wider than written, known protocols and a harmless comment; a forward rule points to an
  address inside one of the segments that is not that segment's router, and a range of ports
  is never remapped.\<close>

theorem validated_rule_ok:
  assumes "validate_rule r segs = None"
  shows "\<exists>p. normalize r segs = Inr p \<and> rule_ok segs p"
  using assms normalize_ok by (auto simp: validate_rule_def error_of_def split: sum.splits)

text \<open>Numbers of four digits are evaluated by the simplifier.\<close>

lemma ex_ports:
  "parse_port_spec ''8000-8010'' = Inr \<lparr>lo = 8000, hi = 8010\<rparr>"
  "parse_port_spec ''22'' = Inr \<lparr>lo = 22, hi = 22\<rparr>"
proof -
  have t: "trim_space ''8000-8010'' = ''8000-8010''" "cut CHR ''-'' ''8000-8010'' = (''8000'', ''8010'', True)"
    "trim_space ''22'' = ''22''" "cut CHR ''-'' ''22'' = (''22'', [], False)"
    by code_simp+
  have "parse_single_port ''8000'' = Inr 8000" "parse_single_port ''8010'' = Inr 8010"
    "parse_single_port ''22'' = Inr 22"
    by (simp_all add: parse_single_port_def trim_space_digits digit_lits dec_value_def Let_def)
  then show "parse_port_spec ''8000-8010'' = Inr \<lparr>lo = 8000, hi = 8010\<rparr>"
    "parse_port_spec ''22'' = Inr \<lparr>lo = 22, hi = 22\<rparr>"
    by (simp_all add: parse_port_spec_def t Let_def)
qed

definition ex_rule1 :: parsed_rule where
  "ex_rule1 = \<lparr>pr_name = ''Files drop'', pr_kind = ''forward'', pr_protos = [''tcp'', ''udp''],
     pr_port = \<lparr>lo = 8000, hi = 8010\<rparr>, pr_to_ip = [192, 168, 2, 20], pr_to_port = None,
     pr_source = ''10.0.0.0/8''\<rparr>"

definition ex_rule2 :: parsed_rule where
  "ex_rule2 = \<lparr>pr_name = [], pr_kind = ''input'', pr_protos = [''tcp''],
     pr_port = \<lparr>lo = 22, hi = 22\<rparr>, pr_to_ip = [], pr_to_port = None, pr_source = []\<rparr>"

lemma ex_normalize:
  "normalize ex_pr1 (lan_segments ex_fw) = Inr ex_rule1"
  "normalize ex_pr2 (lan_segments ex_fw) = Inr ex_rule2"
proof -
  have f: "to_lower (trim_space ''forward'') = ''forward''" "to_lower (trim_space '' Input'') = ''input''"
    "parse_protocols ''both'' = Inr [''tcp'', ''udp'']" "parse_protocols ''TCP'' = Inr [''tcp'']"
    "parse_source ''10.0.0.0/8'' = Inr ''10.0.0.0/8''" "parse_source [] = Inr []"
    "sanitize_comment ''Files; drop'' = ''Files drop''" "sanitize_comment [] = []"
    "to4 (parse_ip (trim_space ''192.168.2.20'')) = [192, 168, 2, 20]" "trim_space [] = []"
    "map_option seg_address (segment_containing (lan_segments ex_fw) [192, 168, 2, 20]) = Some ''192.168.2.1''"
    "ip_equal [192, 168, 2, 20] (parse_ip ''192.168.2.1'') = False"
    by code_simp+
  then obtain g where g: "segment_containing (lan_segments ex_fw) [192, 168, 2, 20] = Some g"
    "seg_address g = ''192.168.2.1''" by auto
  have "parse_ip (trim_space ''192.168.2.20'') \<noteq> []" using f(9) by (auto simp: to4_def)
  then show "normalize ex_pr1 (lan_segments ex_fw) = Inr ex_rule1"
    using f g by (simp add: normalize_def normalize_target_def ex_ports ex_rule1_def ex_pr1_def Let_def
        is_range_def)
  show "normalize ex_pr2 (lan_segments ex_fw) = Inr ex_rule2"
    using f by (simp add: normalize_def ex_ports ex_rule2_def ex_pr2_def Let_def)
qed

theorem validated_rule_ok_witness:
  "\<exists>p. normalize ex_pr1 (lan_segments ex_fw) = Inr p \<and> rule_ok (lan_segments ex_fw) p"
  by (rule validated_rule_ok) (simp only: validate_rule_def ex_normalize error_of_def sum.case)

section \<open>Nothing escapes its place\<close>

text \<open>The characters of the parts of a rule that come from the configuration.\<close>

definition rule_char :: "char \<Rightarrow> bool" where
  "rule_char c \<longleftrightarrow> alnum c \<or> c \<in> set '' ._-:/''"

definition plain_part :: "string \<Rightarrow> bool" where
  "plain_part s \<longleftrightarrow> list_all rule_char s"

lemma plain_append [simp]: "plain_part (a @ b) \<longleftrightarrow> plain_part a \<and> plain_part b"
  by (simp add: plain_part_def)

lemma plain_Cons [simp]: "plain_part (c # s) \<longleftrightarrow> rule_char c \<and> plain_part s"
  by (simp add: plain_part_def)

lemma plain_Nil [simp]: "plain_part []"
  by (simp add: plain_part_def)

lemma rule_char_special: "\<not> rule_char dq" "\<not> rule_char newline"
  by code_simp+

lemma plain_dq: "plain_part s \<Longrightarrow> count_list s dq = 0"
  by (induction s) (auto simp: rule_char_special)

lemma plain_newline: "plain_part s \<Longrightarrow> newline \<notin> set s"
  by (auto simp: plain_part_def list_all_iff rule_char_special)

lemma rule_char_lits [simp]:
  "rule_char CHR ''a''" "rule_char CHR ''b''" "rule_char CHR ''c''" "rule_char CHR ''d''"
  "rule_char CHR ''e''" "rule_char CHR ''f''" "rule_char CHR ''g''" "rule_char CHR ''h''"
  "rule_char CHR ''i''" "rule_char CHR ''j''" "rule_char CHR ''k''" "rule_char CHR ''l''"
  "rule_char CHR ''m''" "rule_char CHR ''n''" "rule_char CHR ''o''" "rule_char CHR ''p''"
  "rule_char CHR ''q''" "rule_char CHR ''r''" "rule_char CHR ''s''" "rule_char CHR ''t''"
  "rule_char CHR ''u''" "rule_char CHR ''v''" "rule_char CHR ''w''" "rule_char CHR ''x''"
  "rule_char CHR ''y''" "rule_char CHR ''z''" "rule_char CHR '' ''" "rule_char CHR ''-''"
  "rule_char CHR '':''"
  by code_simp+

lemma plain_chars:
  "list_all comment_char s \<Longrightarrow> plain_part s" "list_all iface_char s \<Longrightarrow> plain_part s"
  "(\<And>c. c \<in> set s \<Longrightarrow> addr_char c) \<Longrightarrow> plain_part s"
  by (auto simp: plain_part_def list_all_iff rule_char_def comment_char_def iface_char_def
      addr_char_def alnum_def in_range_def is_digit_def)

lemma plain_itoa: "plain_part (itoa n)"
  by (rule plain_chars(3)) (rule itoa_addr_char)

lemma plain_port: "plain_part (port_spec_string p)"
  by (simp add: port_spec_string_def plain_itoa)

lemma plain_ip: "length i = 4 \<Longrightarrow> plain_part (ip_string i)"
  by (rule plain_chars(3)) (auto simp: ip_string_4 dest: dotted_addr_char)

lemma plain_source: "source_form s \<Longrightarrow> plain_part (source_match s)"
  by (simp add: source_match_def plain_chars(3) source_form_chars)

lemma plain_proto: "p \<in> {''tcp'', ''udp''} \<Longrightarrow> plain_part p"
  by auto

text \<open>A rule: plain text with one quoted interface and at most one quoted comment.\<close>

definition clean_line :: "string \<Rightarrow> bool" where
  "clean_line s \<longleftrightarrow> (\<exists>a w b. plain_part a \<and> plain_part w \<and> plain_part b \<and>
     (s = a @ quoted w @ b \<or> (\<exists>n. plain_part n \<and> s = a @ quoted w @ b @ quoted n)))"

lemma clean_lineI:
  assumes "plain_part a" "plain_part w" "plain_part b" "list_all comment_char n"
    and "s = a @ quoted w @ b @ comment_part n"
  shows "clean_line s"
proof (cases "n = []")
  case True
  with assms show ?thesis unfolding clean_line_def comment_part_def by auto
next
  case False
  have "plain_part (b @ '' comment '')" "plain_part n"
    using assms plain_chars(1) by simp_all
  moreover have "s = a @ quoted w @ (b @ '' comment '') @ quoted n"
    using False assms(5) by (simp add: comment_part_def)
  ultimately show ?thesis using assms(1,2) unfolding clean_line_def by blast
qed

definition all_rules :: "rule_lines \<Rightarrow> string list" where
  "all_rules l = input_rules l @ forward_rules l @ dnat_rules l"

lemma rule_ok_lines:
  assumes "rule_ok segs p" "plain_part wan" "proto \<in> set (pr_protos p)"
  shows "clean_line (input_line wan p proto)"
    and "pr_kind p \<noteq> ''input'' \<Longrightarrow> clean_line (forward_line wan p proto)"
    and "pr_kind p \<noteq> ''input'' \<Longrightarrow> clean_line (dnat_line wan p proto)"
proof -
  have parts: "plain_part (source_match (pr_source p))" "plain_part proto" "list_all comment_char (pr_name p)"
    using assms plain_source [of "pr_source p"] plain_proto [of proto] by (auto simp: rule_ok_def)
  note simps = parts plain_port assms(2)
  let ?i = "'' '' @ source_match (pr_source p) @ proto @ '' dport '' @ port_spec_string (pr_port p) @ '' accept''"
  show "clean_line (input_line wan p proto)"
    by (rule clean_lineI [of "''iifname ''" wan ?i "pr_name p"])
       (simp_all add: simps input_line_def)
  assume "pr_kind p \<noteq> ''input''"
  then have ip: "plain_part (ip_string (pr_to_ip p))"
    using assms(1) by (intro plain_ip) (auto simp: rule_ok_def target_ok_def)
  let ?f = "'' '' @ source_match (pr_source p) @ ''ip daddr '' @ ip_string (pr_to_ip p) @ '' '' @ proto @
     '' dport '' @ port_spec_string (post_nat_port p) @ '' accept''"
  show "clean_line (forward_line wan p proto)"
    by (rule clean_lineI [of "''iifname ''" wan ?f "pr_name p"])
       (simp_all add: simps ip forward_line_def)
  let ?d = "'' fib daddr type local '' @ source_match (pr_source p) @ proto @ '' dport '' @
     port_spec_string (pr_port p) @ '' dnat to '' @ ip_string (pr_to_ip p) @
     (case pr_to_port p of None \<Rightarrow> '''' | Some t \<Rightarrow> '':'' @ port_spec_string t)"
  show "clean_line (dnat_line wan p proto)"
    by (rule clean_lineI [of "''iifname ''" wan ?d "pr_name p"])
       (simp_all add: simps ip dnat_line_def split: option.split)
qed

lemma add_rule_clean:
  assumes "rule_ok segs p" "plain_part wan" "\<forall>s \<in> set (all_rules l). clean_line s"
  shows "\<forall>s \<in> set (all_rules (add_rule wan p l)). clean_line s"
  using assms(3) rule_ok_lines [OF assms(1,2)]
  by (auto simp: add_rule_def all_rules_def)

lemma collect_rules_clean:
  "collect_rules wan segs rs l = Inr l' \<Longrightarrow> plain_part wan \<Longrightarrow>
   \<forall>s \<in> set (all_rules l). clean_line s \<Longrightarrow> \<forall>s \<in> set (all_rules l'). clean_line s"
proof (induction wan segs rs l rule: collect_rules.induct)
  case (2 wan segs r rs l)
  then show ?case
    using add_rule_clean [OF normalize_ok] by (auto split: if_splits sum.splits)
qed simp

lemma iface_re_plain: "iface_re s \<Longrightarrow> plain_part s"
  by (simp add: iface_re_def plain_chars(2))

text \<open>C20: Nothing written in a port rule can break out of its place in the rule set: every
  line made from the rules is letters, digits and harmless punctuation, except for one quoted
  interface name and at most one quoted comment, neither of which contains a quote.\<close>

theorem rules_cannot_inject:
  assumes "collect_rules wan segs rs \<lparr>input_rules = [], forward_rules = [], dnat_rules = []\<rparr> = Inr l"
    and "iface_re wan"
  shows "\<forall>s \<in> set (input_rules l @ forward_rules l @ dnat_rules l). clean_line s"
  using collect_rules_clean [OF assms(1) iface_re_plain [OF assms(2)]] by (simp add: all_rules_def)

lemma ex_collect:
  "collect_rules ''wlp2s0'' (lan_segments ex_fw) [ex_pr1, ex_pr2]
     \<lparr>input_rules = [], forward_rules = [], dnat_rules = []\<rparr> =
   Inr (add_rule ''wlp2s0'' ex_rule2 (add_rule ''wlp2s0'' ex_rule1
     \<lparr>input_rules = [], forward_rules = [], dnat_rules = []\<rparr>))"
proof -
  have "\<not> rule_disabled ex_pr1" "\<not> rule_disabled ex_pr2" by (simp_all add: ex_pr1_def ex_pr2_def)
  then show ?thesis by (simp add: ex_normalize)
qed

theorem rules_cannot_inject_witness:
  "clean_line (forward_line ''wlp2s0'' ex_rule1 ''tcp'') \<and>
   clean_line (forward_line ''wlp2s0'' ex_rule1 ''udp'')"
proof -
  have "iface_re ''wlp2s0''" by code_simp
  from rules_cannot_inject [OF ex_collect this] show ?thesis
    by (simp add: add_rule_def ex_rule1_def ex_rule2_def)
qed

section \<open>The whole text\<close>

definition line_ok :: "string \<Rightarrow> bool" where
  "line_ok s \<longleftrightarrow> newline \<notin> set s \<and> even (count_list s dq)"

lemma line_ok_append: "line_ok a \<Longrightarrow> line_ok b \<Longrightarrow> line_ok (a @ b)"
  by (simp add: line_ok_def)

lemma line_ok_Cons: "c \<noteq> newline \<Longrightarrow> c \<noteq> dq \<Longrightarrow> line_ok s \<Longrightarrow> line_ok (c # s)"
  by (auto simp: line_ok_def)

lemma line_ok_plain: "plain_part s \<Longrightarrow> line_ok s"
  by (simp add: line_ok_def plain_dq plain_newline)

lemma line_ok_quoted:
  assumes "line_ok s" shows "line_ok (quoted s)"
proof -
  have "dq \<noteq> newline" by code_simp
  with assms show ?thesis by (simp add: line_ok_def quoted_def)
qed

lemma line_ok_Nil: "line_ok []"
  by (simp add: line_ok_def)

lemma line_ok_join: "line_ok sep \<Longrightarrow> (\<forall>x \<in> set xs. line_ok x) \<Longrightarrow> line_ok (join sep xs)"
  by (induction sep xs rule: join.induct) (auto intro: line_ok_append line_ok_Nil)

lemma clean_line_ok: "clean_line s \<Longrightarrow> line_ok s"
  unfolding clean_line_def
  by (auto intro!: line_ok_append line_ok_quoted intro: line_ok_plain)

text \<open>A literal is checked by evaluation.\<close>

definition literal_ok :: "string \<Rightarrow> bool" where
  "literal_ok s \<longleftrightarrow> list_all (\<lambda>c. c \<noteq> newline \<and> c \<noteq> dq) s"

lemma literal_line_ok: "literal_ok s \<Longrightarrow> line_ok s"
  by (induction s) (auto simp: literal_ok_def line_ok_Nil intro: line_ok_Cons)

lemma line_ok_quote_list: "\<forall>x \<in> set xs. plain_part x \<Longrightarrow> line_ok (quote_list xs)"
proof -
  assume "\<forall>x \<in> set xs. plain_part x"
  then have "line_ok (join '', '' (map quoted xs))"
    by (intro line_ok_join) (auto intro: line_ok_quoted line_ok_plain literal_line_ok simp: literal_ok_def dq_def newline_def)
  then show ?thesis
    unfolding quote_list_def
    by (intro line_ok_append) (auto intro: literal_line_ok simp: literal_ok_def dq_def newline_def)
qed

text \<open>The same as rewrite rules, which walk through a line from the left.\<close>

lemma line_ok_Cons_iff: "c \<noteq> newline \<Longrightarrow> c \<noteq> dq \<Longrightarrow> line_ok (c # s) \<longleftrightarrow> line_ok s"
  by (auto simp: line_ok_def)

lemma line_ok_append_iff: "line_ok a \<Longrightarrow> line_ok (a @ b) \<longleftrightarrow> line_ok b"
  by (simp add: line_ok_def)

lemmas line_simps = line_ok_Cons_iff line_ok_append_iff line_ok_Nil line_ok_quoted dq_def newline_def

lemma input_chain_ok:
  assumes "line_ok ls" "\<forall>d \<in> set docker. line_ok d" "\<forall>t \<in> set trusted. line_ok t"
    "\<forall>r \<in> set rules. line_ok r"
  shows "\<forall>x \<in> set (input_chain ls docker trusted rules). line_ok x"
  using assms by (simp add: input_chain_def line_simps ball_Un)

lemma docker_forward_ok:
  assumes "line_ok ls" "line_ok wan" "line_ok src" "line_ok d"
  shows "\<forall>x \<in> set (docker_forward wan ls src d). line_ok x"
  using assms by (simp add: docker_forward_def line_simps)

lemma trusted_forward_ok:
  assumes "line_ok ls" "line_ok wan" "\<forall>d \<in> set docker. line_ok d" "line_ok t"
  shows "\<forall>x \<in> set (trusted_forward wan ls docker t). line_ok x"
  using assms by (simp add: trusted_forward_def line_simps ball_Un)

lemma comments_ok: "\<forall>x \<in> set docker_comment. line_ok x" "\<forall>x \<in> set trusted_comment. line_ok x"
proof -
  have "list_all literal_ok docker_comment" "list_all literal_ok trusted_comment" by code_simp+
  then show "\<forall>x \<in> set docker_comment. line_ok x" "\<forall>x \<in> set trusted_comment. line_ok x"
    by (auto simp: list_all_iff intro: literal_line_ok)
qed

lemma forward_chain_ok:
  assumes "line_ok ls" "line_ok wan" "line_ok src" "\<forall>d \<in> set docker. line_ok d"
    "\<forall>t \<in> set trusted. line_ok t" "\<forall>r \<in> set rules. line_ok r"
  shows "\<forall>x \<in> set (forward_chain wan ls docker src trusted rules). line_ok x"
proof -
  have d: "line_ok x" if "x \<in> set (concat (map (docker_forward wan ls src) docker))" for x
  proof -
    from that obtain d where "d \<in> set docker" "x \<in> set (docker_forward wan ls src d)" by auto
    with docker_forward_ok [OF assms(1-3), of d] assms(4) show ?thesis by blast
  qed
  have t: "line_ok x" if "x \<in> set (concat (map (trusted_forward wan ls docker) trusted))" for x
  proof -
    from that obtain t where "t \<in> set trusted" "x \<in> set (trusted_forward wan ls docker t)" by auto
    with trusted_forward_ok [OF assms(1,2,4), of t] assms(5) show ?thesis by blast
  qed
  have D: "\<forall>x \<in> set (if docker = [] then [] else docker_comment @ concat (map (docker_forward wan ls src) docker)).
      line_ok x"
    using d comments_ok(1) by (simp add: ball_Un)
  have T: "\<forall>x \<in> set (if trusted = [] then [] else
      trusted_comment @ concat (map (trusted_forward wan ls docker) trusted)). line_ok x"
    using t comments_ok(2) by (simp add: ball_Un)
  have R: "\<forall>x \<in> set (map (\<lambda>r. ''        '' @ r) rules). line_ok x"
    using assms(6) by (simp add: line_simps)
  have L: "\<forall>x \<in> set [''    chain forward {'',
      ''        type filter hook forward priority 0; policy drop;'',
      ''        ct state established,related accept'',
      ''        ct state invalid drop'',
      ''        # LAN segments route freely between each other and out to the WAN.'',
      ''        iifname '' @ ls @ '' oifname '' @ ls @ '' accept'',
      ''        iifname '' @ ls @ '' oifname '' @ quoted wan @ '' accept'']. line_ok x"
    "\<forall>x \<in> set [''    }'', ''}'']. line_ok x"
    using assms(1,2) by (simp_all add: line_simps)
  show ?thesis
    unfolding forward_chain_def set_append [of "[_, _, _, _, _, _, _]"] set_append [of "if _ then _ else _"]
      set_append [of "map _ _"] ball_Un
    by (intro conjI D T R L)
qed

lemma ruleset_lines_ok:
  assumes "\<forall>n \<in> set lans. plain_part n" "line_ok wan" "line_ok src" "\<forall>d \<in> set docker. line_ok d"
    "\<forall>t \<in> set trusted. line_ok t" "\<forall>r \<in> set (all_rules l). line_ok r"
  shows "\<forall>x \<in> set (ruleset_lines wan lans docker src trusted l). line_ok x"
proof -
  have q: "line_ok (quote_list lans)" using assms(1) by (rule line_ok_quote_list)
  have r: "\<forall>r \<in> set (input_rules l). line_ok r" "\<forall>r \<in> set (forward_rules l). line_ok r"
    "\<forall>r \<in> set (dnat_rules l). line_ok r"
    using assms(6) by (auto simp: all_rules_def)
  have "\<forall>x \<in> set (input_chain (quote_list lans) docker trusted (input_rules l)). line_ok x"
    using q r assms by (intro input_chain_ok) auto
  moreover have "\<forall>x \<in> set (forward_chain wan (quote_list lans) docker src trusted (forward_rules l)). line_ok x"
    using q r assms by (intro forward_chain_ok) auto
  ultimately show ?thesis
    using r assms(2) by (simp add: ruleset_lines_def line_simps ball_Un filter_table_def nat_table_def)
qed

lemma pattern_line_ok:
  assumes "pattern_re p" shows "line_ok p"
proof -
  let ?b = "trim_suffix p ''*''"
  have b: "line_ok ?b"
    using assms by (auto simp: pattern_re_def Let_def intro: line_ok_plain plain_chars(2))
  have "p = ?b \<or> p = ?b @ ''*''"
    by (auto simp: trim_suffix_def suffix_def)
  then show ?thesis
  proof
    assume "p = ?b @ ''*''"
    moreover have "line_ok (?b @ ''*'')" using b by (simp add: line_simps)
    ultimately show ?thesis by simp
  qed (use b in simp)
qed

lemma lan_names_ok:
  "lan_names wan gs lans = Inr res \<Longrightarrow> \<forall>n \<in> set lans. iface_re n \<and> n \<noteq> wan \<Longrightarrow>
   \<forall>n \<in> set res. iface_re n \<and> n \<noteq> wan"
proof (induction wan gs lans rule: lan_names.induct)
  case (2 wan g gs lans)
  let ?n = "trim_space (seg_interface g)"
  let ?l = "if ?n \<in> set lans then lans else lans @ [?n]"
  from 2(2) have n: "iface_re ?n" "?n \<noteq> wan" and r: "lan_names wan gs ?l = Inr res"
    by (simp_all add: Let_def split: if_split_asm)
  have l: "\<forall>n \<in> set ?l. iface_re n \<and> n \<noteq> wan" using 2(3) n by simp
  have nn: "\<not> \<not> iface_re ?n" using n(1) by blast
  show ?case by (rule 2(1) [OF refl nn n(2) r l])
qed simp

lemma docker_patterns_ok:
  assumes "docker_patterns snap = Inr ds" "p \<in> set ds" shows "pattern_re p"
proof -
  from assms(1) obtain res where "validate_patterns ''docker'' (effective_docker_patterns snap) res = Inr ds"
    by (auto simp: docker_patterns_def Let_def split: sum.splits if_splits)
  then show ?thesis using assms(2) by (rule validate_patterns_sound(3))
qed

lemma trusted_patterns_ok:
  assumes "trusted_patterns snap = Inr ts" "p \<in> set ts" shows "pattern_re p"
  using assms unfolding trusted_patterns_def by (rule validate_patterns_sound(3))

lemma docker_part_ok:
  assumes "docker_part snap = Inr (docker, src)"
  shows "(\<forall>d \<in> set docker. pattern_re d) \<and> line_ok src"
proof (cases "docker_enabled snap")
  case False
  with assms show ?thesis by (simp add: docker_part_def line_ok_Nil)
next
  case True
  with assms obtain ds where ds: "docker_patterns snap = Inr ds" "docker = ds"
    and src: "src = '''' \<or> (\<exists>u t. parse_source u = Inr t \<and> src = ''ip saddr '' @ t @ '' '')"
    by (auto simp: docker_part_def Let_def split: sum.splits if_splits)
  from src have "line_ok src"
  proof (elim disjE exE conjE)
    fix u t assume "parse_source u = Inr t" and s: "src = ''ip saddr '' @ t @ '' ''"
    then have "line_ok t" by (intro line_ok_plain plain_chars(3)) (auto dest: parse_source_form source_form_chars)
    then show ?thesis by (simp add: s line_simps)
  qed (simp add: line_ok_Nil)
  with ds docker_patterns_ok show ?thesis by auto
qed

text \<open>The parts of a rendered rule set.\<close>

lemma render_linesE:
  assumes "render_lines snap = Inr ls"
  obtains lans docker src trusted l where
    "iface_re (trim_space (wan_interface snap))"
    "lan_names (trim_space (wan_interface snap)) (lan_segments snap) [] = Inr lans" "lans \<noteq> []"
    "docker_part snap = Inr (docker, src)" "trusted_patterns snap = Inr trusted"
    "collect_rules (trim_space (wan_interface snap)) (lan_segments snap) (port_rules snap)
       \<lparr>input_rules = [], forward_rules = [], dnat_rules = []\<rparr> = Inr l"
    "ls = ruleset_lines (trim_space (wan_interface snap)) lans docker src trusted l"
  using assms by (auto simp: render_lines_def Let_def split: if_splits sum.splits)

lemma render_lines_ok:
  assumes "render_lines snap = Inr ls" shows "\<forall>x \<in> set ls. line_ok x"
  using assms
proof (cases rule: render_linesE)
  case (1 lans docker src trusted l)
  have "\<forall>r \<in> set (all_rules l). clean_line r"
    using collect_rules_clean [OF 1(6) iface_re_plain [OF 1(1)]] by (simp add: all_rules_def)
  then have rules: "\<forall>r \<in> set (all_rules l). line_ok r" by (auto intro: clean_line_ok)
  have lans: "\<forall>n \<in> set lans. plain_part n"
    using lan_names_ok [OF 1(2)] by (auto intro: iface_re_plain)
  have wan: "line_ok (trim_space (wan_interface snap))"
    using 1(1) by (intro line_ok_plain iface_re_plain)
  have pats: "\<forall>d \<in> set docker. line_ok d" "\<forall>t \<in> set trusted. line_ok t" "line_ok src"
    using docker_part_ok [OF 1(4)] trusted_patterns_ok [OF 1(5)] by (auto intro: pattern_line_ok)
  show ?thesis unfolding 1(7) by (rule ruleset_lines_ok [OF lans wan pats(3,1,2) rules])
qed

lemma split_on_lines:
  "\<forall>x \<in> set ls. d \<notin> set x \<Longrightarrow> split_on d (concat (map (\<lambda>l. l @ [d]) ls)) = ls @ [[]]"
  by (induction ls) (auto simp: split_on_append_sep)

text \<open>C28: The rendered text consists of exactly the lines the renderer wrote: read back at
  the line ends it gives the same lines, so no value of the configuration adds one, and in
  every line the quotes are balanced.\<close>

theorem ruleset_structure:
  assumes "render snap = Inr t"
  shows "\<exists>ls. render_lines snap = Inr ls \<and> split_on newline t = ls @ [[]] \<and>
    (\<forall>l \<in> set ls. even (count_list l dq))"
proof -
  from assms obtain ls where ls: "render_lines snap = Inr ls"
    and t: "t = concat (map (\<lambda>l. l @ [newline]) ls)"
    by (auto simp: render_def map_sum_def split: sum.splits)
  have "\<forall>l \<in> set ls. newline \<notin> set l \<and> even (count_list l dq)"
    using render_lines_ok [OF ls] by (simp add: line_ok_def)
  moreover from this have "split_on newline t = ls @ [[]]"
    unfolding t by (intro split_on_lines) simp
  ultimately show ?thesis using ls by simp
qed

lemma ex_render: "\<exists>ls. render_lines ex_fw = Inr ls"
proof -
  have f: "trim_space (wan_interface ex_fw) = ''wlp2s0''" "iface_re ''wlp2s0''"
    "lan_names ''wlp2s0'' (lan_segments ex_fw) [] = Inr [''enp1s0'']"
    "docker_part ex_fw = Inr ([''docker0'', ''br-*''], [])" "trusted_patterns ex_fw = Inr [''wg*'']"
    by code_simp+
  have p: "port_rules ex_fw = [ex_pr1, ex_pr2]" by (simp add: ex_fw_def)
  show ?thesis by (simp add: render_lines_def f p Let_def ex_collect del: collect_rules.simps)
qed

theorem ruleset_structure_witness:
  "\<exists>t ls. render ex_fw = Inr t \<and> render_lines ex_fw = Inr ls \<and> split_on newline t = ls @ [[]]"
proof -
  obtain t where t: "render ex_fw = Inr t" using ex_render by (auto simp: render_def)
  from ruleset_structure [OF t] t show ?thesis by auto
qed

section \<open>Applying\<close>

text \<open>C26: Nothing is installed that has not been checked: whatever nft is asked to install
  is the rendered rule set, after nft has accepted that very text in check mode; with the
  firewall off it is the text that removes cobweb's own two tables. No error is reported
  exactly when the last nft call succeeded, and a configuration that does not render leaves
  the machine alone.\<close>

theorem installs_only_checked:
  assumes "apply_fw nft snap = (acts, e)"
  shows "(\<forall>t. Nft t install_args \<in> set acts \<longrightarrow>
      (if firewall_enabled snap
       then render snap = Inr t \<and> nft t check_args \<and> take 2 acts = [Nft t check_args, Nft t install_args]
       else t = teardown \<and> acts = [Nft teardown install_args])) \<and>
    (e = None \<longleftrightarrow> (\<exists>t. Nft t install_args \<in> set acts \<and> nft t install_args)) \<and>
    (EnableForwarding \<in> set acts \<longrightarrow> e = None \<and> firewall_enabled snap)"
proof -
  have "check_args \<noteq> install_args" by (simp add: check_args_def install_args_def)
  then show ?thesis
    using assms by (auto simp: apply_fw_def remove_fw_def split: if_splits sum.splits)
qed

theorem installs_only_checked_witness:
  "\<exists>t. render ex_fw = Inr t \<and> apply_fw (\<lambda>_ _. True) ex_fw =
      ([Nft t check_args, Nft t install_args, EnableForwarding], None) \<and>
    (\<forall>u. Nft u install_args \<in> set [Nft t check_args, Nft t install_args, EnableForwarding] \<longrightarrow> u = t)"
proof -
  obtain t where t: "render ex_fw = Inr t" using ex_render by (auto simp: render_def)
  have en: "firewall_enabled ex_fw" by (simp add: ex_fw_def)
  with t have a: "apply_fw (\<lambda>_ _. True) ex_fw =
      ([Nft t check_args, Nft t install_args, EnableForwarding], None)"
    by (simp add: apply_fw_def)
  from installs_only_checked [OF a] en t a show ?thesis by auto
qed

section \<open>The lock-out warning\<close>

text \<open>An enabled input rule through which ssh can be reached.\<close>

definition admits_ssh :: "config_data \<Rightarrow> bool" where
  "admits_ssh snap \<longleftrightarrow> (\<exists>r \<in> set (port_rules snap). \<not> rule_disabled r \<and>
     (\<exists>p. normalize r (lan_segments snap) = Inr p \<and> pr_kind p = ''input'' \<and>
       ''tcp'' \<in> set (pr_protos p) \<and> spec_contains (pr_port p) 22))"

lemma collect_rules_normalize:
  "collect_rules wan segs rs l = Inr l' \<Longrightarrow> r \<in> set rs \<Longrightarrow> \<not> rule_disabled r \<Longrightarrow>
   \<exists>p. normalize r segs = Inr p"
proof (induction wan segs rs l rule: collect_rules.induct)
  case (2 wan segs r' rs l)
  then show ?case by (cases "r' = r") (auto split: if_splits sum.splits)
qed simp

lemma normalize_input:
  assumes "normalize r segs = Inr p"
  shows "pr_kind p = to_lower (trim_space (rule_kind r)) \<and> parse_protocols (rule_protocol r) = Inr (pr_protos p) \<and>
    parse_port_spec (rule_port r) = Inr (pr_port p)"
proof -
  define kind where "kind = to_lower (trim_space (rule_kind r))"
  from assms obtain protos port src where
    f: "parse_protocols (rule_protocol r) = Inr protos" "parse_port_spec (rule_port r) = Inr port"
      "parse_source (rule_source r) = Inr src"
    and k: "kind = ''forward'' \<or> kind = ''input''"
    by (auto simp: normalize_def kind_def Let_def split: if_splits sum.splits)
  define p0 where "p0 = \<lparr>pr_name = sanitize_comment (rule_name r), pr_kind = kind,
    pr_protos = protos, pr_port = port, pr_to_ip = [], pr_to_port = None, pr_source = src\<rparr>"
  have r: "(if kind = ''input'' then Inr p0 else normalize_target r segs p0) = Inr p"
    using assms k f by (auto simp: normalize_def kind_def [symmetric] p0_def Let_def)
  have "same_base p p0"
  proof (cases "kind = ''input''")
    case True
    with r show ?thesis by (simp add: same_base_def)
  next
    case False
    with r normalize_target_ok [of r segs p0 p] show ?thesis by (simp add: p0_def)
  qed
  then show ?thesis using f by (simp add: same_base_def p0_def kind_def)
qed

text \<open>For a configuration that renders, the warning about locking oneself out appears
  exactly when no enabled input rule lets TCP port 22 in from the WAN.\<close>

theorem ssh_warning_exact:
  assumes "render_lines snap = Inr ls"
  shows "NoSshRule \<in> set (warnings snap) \<longleftrightarrow> \<not> admits_ssh snap"
proof -
  have n: "\<exists>p. normalize r (lan_segments snap) = Inr p"
    if "r \<in> set (port_rules snap)" "\<not> rule_disabled r" for r
    using assms that by (cases rule: render_linesE) (blast intro: collect_rules_normalize)
  have "allows_ssh r \<longleftrightarrow> (\<exists>p. normalize r (lan_segments snap) = Inr p \<and> pr_kind p = ''input'' \<and>
       ''tcp'' \<in> set (pr_protos p) \<and> spec_contains (pr_port p) 22)"
    if "r \<in> set (port_rules snap)" "\<not> rule_disabled r" for r
  proof -
    note r = that
    obtain p where p: "normalize r (lan_segments snap) = Inr p" using n [OF r] by blast
    with normalize_input [OF p] r(2) show ?thesis by (auto simp: allows_ssh_def list_ex_iff)
  qed
  moreover have "\<not> rule_disabled r" if "allows_ssh r" for r
    using that by (simp add: allows_ssh_def)
  ultimately have "list_ex allows_ssh (port_rules snap) \<longleftrightarrow> admits_ssh snap"
    unfolding admits_ssh_def list_ex_iff by blast
  then show ?thesis by (auto simp: warnings_def)
qed

theorem ssh_warning_exact_witness:
  "NoSshRule \<in> set (warnings ex_fw) \<longleftrightarrow> \<not> admits_ssh ex_fw"
  using ex_render ssh_warning_exact by blast

end
