(* ===== verification/Router_Claims.thy ===== *)
theory Router_Claims
  imports Dhcp_Claims Dns_Service Firewall_Claims
begin

text \<open>
  Properties that span components.
\<close>

section \<open>DHCP clients are found under their names\<close>

lemma find_unique:
  "v \<in> set xs \<Longrightarrow> P v \<Longrightarrow> \<forall>x \<in> set xs. P x \<longrightarrow> x = v \<Longrightarrow> find P xs = Some v"
proof (induction xs)
  case (Cons x xs)
  show ?case
  proof (cases "P x")
    case True
    with Cons.prems(3) have "x = v" by (meson list.set_intros(1))
    with True show ?thesis by simp
  next
    case False
    with Cons.prems(1,2) have "v \<in> set xs" by auto
    moreover have "\<forall>x \<in> set xs. P x \<longrightarrow> x = v" using Cons.prems(3) by (meson list.set_intros(2))
    ultimately have "find P xs = Some v" using Cons.prems(2) by (intro Cons.IH)
    with False show ?thesis by simp
  qed
qed simp

lemma lookup_segments_skip:
  "\<forall>g \<in> set pre. \<not> suffix (''.'' @ to_lower (seg_domain g)) name \<Longrightarrow>
   lookup_segments (pre @ gs) name snap = lookup_segments gs name snap"
  by (induction pre) (auto simp: Let_def)

lemma lookup_lease:
  assumes "\<forall>r \<in> set (dns_records snap). to_lower (rec_name r) \<noteq> name"
    "lan_segments snap = pre @ g # post"
    "\<forall>g' \<in> set pre. \<not> suffix (''.'' @ to_lower (seg_domain g')) name"
    "name = to_lower (lease_hostname l) @ ''.'' @ to_lower (seg_domain g)"
    "l \<in> set (leases snap)" "lease_segment_id l = seg_id g"
    "\<forall>l' \<in> set (leases snap). lease_segment_id l' = seg_id g \<and>
       to_lower (lease_hostname l') = to_lower (lease_hostname l) \<longrightarrow> l' = l"
    "to_lower (trim_suffix name0 ''.'') = name"
  shows "lookup_local snap name0 = Some (parse_ip (lease_ip l))"
proof -
  have r: "find (\<lambda>r. to_lower (rec_name r) = name) (dns_records snap) = None"
    using assms(1) by (auto simp: find_None_iff)
  have suf: "suffix (''.'' @ to_lower (seg_domain g)) name" unfolding assms(4) by (rule suffixI) simp
  have host: "trim_suffix name (''.'' @ to_lower (seg_domain g)) = to_lower (lease_hostname l)"
    unfolding assms(4) by (rule trim_suffix_append)
  have "find (\<lambda>l'. lease_segment_id l' = seg_id g \<and> to_lower (lease_hostname l') = to_lower (lease_hostname l))
      (leases snap) = Some l"
    using assms(5,6,7) by (intro find_unique) auto
  then have "host_record (''.'' @ to_lower (seg_domain g)) name g snap = Some (lease_ip l)"
    unfolding host_record_def Let_def host by simp
  then have "lookup_segments (lan_segments snap) name snap = Some (lease_ip l)"
    unfolding assms(2) lookup_segments_skip [OF assms(3)] using suf by (simp add: Let_def)
  with r show ?thesis by (simp add: lookup_local_def assms(8) Let_def)
qed

lemma find_upserted_lease:
  assumes "distinct (map lease_mac (leases (dat cfg)))"
    "\<forall>l' \<in> set (leases (dat cfg)). lease_segment_id l' = lease_segment_id l \<and>
       to_lower (lease_hostname l') = to_lower (lease_hostname l) \<longrightarrow> lease_mac l' = lease_mac l"
    "l' \<in> set (leases (dat (upsert_lease l cfg)))"
    "lease_segment_id l' = lease_segment_id l" "to_lower (lease_hostname l') = to_lower (lease_hostname l)"
  shows "l' = l"
  using assms by (auto simp: upsert_lease_def set_upsert_distinct)

text \<open>
  The name of a DHCP client under its segment's domain is free when no manual record has it,
  no earlier segment's domain covers it, and no other client of the segment uses it.
\<close>

definition name_free :: "config_data \<Rightarrow> lan_segment \<Rightarrow> string \<Rightarrow> string \<Rightarrow> bool" where
  "name_free snap g host mac \<longleftrightarrow>
     (let name = to_lower host @ ''.'' @ to_lower (seg_domain g) in
      (\<forall>r \<in> set (dns_records snap). to_lower (rec_name r) \<noteq> name) \<and>
      (\<exists>pre post. lan_segments snap = pre @ g # post \<and>
         (\<forall>g' \<in> set pre. \<not> suffix (''.'' @ to_lower (seg_domain g')) name)) \<and>
      (\<forall>l \<in> set (leases snap). lease_segment_id l = seg_id g \<and> to_lower (lease_hostname l) = to_lower host
         \<longrightarrow> lease_mac l = mac))"

lemma upserted_lease_resolves:
  assumes "distinct (map lease_mac (leases (dat cfg)))"
    "name_free (dat cfg) g (lease_hostname l) (lease_mac l)" "lease_segment_id l = seg_id g"
    "to_lower (trim_suffix name ''.'') = to_lower (lease_hostname l) @ ''.'' @ to_lower (seg_domain g)"
  shows "lookup_local (dat (upsert_lease l cfg)) name = Some (parse_ip (lease_ip l))"
proof -
  let ?c = "dat (upsert_lease l cfg)"
  have same: "dns_records ?c = dns_records (dat cfg)" "lan_segments ?c = lan_segments (dat cfg)"
    by (simp_all add: upsert_lease_def)
  from assms(2) obtain pre post where g: "lan_segments (dat cfg) = pre @ g # post"
    "\<forall>g' \<in> set pre. \<not> suffix (''.'' @ to_lower (seg_domain g'))
      (to_lower (lease_hostname l) @ ''.'' @ to_lower (seg_domain g))"
    by (auto simp: name_free_def Let_def)
  have "l \<in> set (leases ?c)"
    using assms(1) by (simp add: upsert_lease_def set_upsert_distinct)
  moreover have "\<forall>l' \<in> set (leases ?c). lease_segment_id l' = seg_id g \<and>
      to_lower (lease_hostname l') = to_lower (lease_hostname l) \<longrightarrow> l' = l"
    using find_upserted_lease [OF assms(1)] assms(2,3) by (auto simp: name_free_def Let_def)
  moreover have "\<forall>r \<in> set (dns_records ?c). to_lower (rec_name r) \<noteq>
      to_lower (lease_hostname l) @ ''.'' @ to_lower (seg_domain g)"
    using assms(2) by (simp add: same name_free_def Let_def)
  ultimately show ?thesis
    using g assms(3,4) by (intro lookup_lease [where g = g and pre = pre and post = post and l = l]) (simp_all add: same)
qed

text \<open>C31: Once the DHCP server has acknowledged an address to a client that gave a host name,
  the DNS server answers queries for that name under the segment's domain with the very
  address of the acknowledgement, as long as nothing else claims the name.\<close>

theorem acknowledged_name_resolves:
  assumes "wf_request pkt" "book_ok cfg" "distinct (map lease_mac (leases (dat cfg)))"
    "handle_request env cfg srv pkt = Some (cfg', srv', [(d, b)])" "parse_packet b = Inr p" "p_message_type p = ACK"
    "p_hostname pkt \<noteq> ''''" "srv_segment_id srv = seg_id g"
    "name_free (dat cfg) g (p_hostname pkt) (mac_string (p_chaddr pkt))"
    "to_lower (trim_suffix (join ''.'' ls) ''.'') = to_lower (p_hostname pkt) @ ''.'' @ to_lower (seg_domain g)"
    "wire_query msg ls t k" "labels_below 64 ls"
  shows "\<exists>resp m. dns_handle out (dat cfg') c msg local w = (Some (to4 local, resp), c, w) \<and>
    parse_full_message resp = Inr m \<and> map answer_view (m_answers m) = [(join ''.'' ls, type_A, class_IN, 60, p_yiaddr p)]"
proof -
  obtain i where i: "to4 i \<noteq> []" "p_yiaddr p = to4 i" "cfg' = upsert_lease (granted_lease env cfg srv' pkt i) cfg"
      "srv_segment_id srv' = srv_segment_id srv"
    by (rule acknowledged [OF assms(1,2,4,5,6)])
  let ?l = "granted_lease env cfg srv' pkt i"
  have l: "lease_hostname ?l = p_hostname pkt" "lease_mac ?l = mac_string (p_chaddr pkt)"
    "lease_segment_id ?l = seg_id g" "lease_ip ?l = ip_string i"
    using assms(7,8) i(4) by (simp_all add: granted_lease_def)
  have "lookup_local (dat cfg') (join ''.'' ls) = Some (parse_ip (lease_ip ?l))"
    unfolding i(3) using assms(3,9,10) l by (intro upserted_lease_resolves) simp_all
  then have lk: "lookup_local (dat cfg') (join ''.'' ls) = Some (parse_ip (ip_string i))" by (simp add: l)
  have a: "to4 (parse_ip (ip_string i)) = to4 i" using i(1) by (rule to4_parse_ip_string)
  have "dns_handle out (dat cfg') c msg local w = (Some (to4 local,
      build_a_response msg (the_question ls t k) [parse_ip (ip_string i)] 60), c, w)"
    using assms(11) labels_below_mono [OF assms(12)] lk by (intro dns_handle_local) simp_all
  moreover obtain m where "parse_full_message (build_a_response msg (the_question ls t k) [parse_ip (ip_string i)] 60) = Inr m"
    "map answer_view (m_answers m) = [(join ''.'' ls, type_A, class_IN, 60, p_yiaddr p)]"
    using parse_answer [OF assms(11) labels_below_mono [OF assms(12)], of "[parse_ip (ip_string i)]" 60] i(1,2) a
    by auto
  ultimately show ?thesis by (intro exI conjI)
qed

definition ex_host_pkt :: packet where
  "ex_host_pkt = (ex_pkt Request ex_ip)\<lparr>p_hostname := ''Pc''\<rparr>"

lemma ex_host_request:
  "map_option (\<lambda>(c, s, out). map (\<lambda>(d, b). case parse_packet b of Inr p \<Rightarrow> p_message_type p | Inl _ \<Rightarrow> 0) out)
     (handle_request ex_env ex_cfg (new_server ex_seg) ex_host_pkt) = Some [ACK]"
  by code_simp

lemma ex_host_wire: "wire_query (build_iterative_query 4 ''pc.lan.'' 1) [''pc'', ''lan''] 1 1"
proof -
  have "list_all dns_label [''pc'', ''lan'']" by (simp add: dns_label_def)
  from query_bytes [OF this, of 4 1] show ?thesis unfolding wire_query_def
    by (intro exI [of _ "header 4 0 1 0 0 0"] exI [of _ "[]"])
       (use header_fields(3) [of 4 0 1 0 0 0 "[]"] in simp)
qed

lemma ex_name_free:
  "name_free (dat ex_cfg) (hd (lan_segments (dat ex_cfg))) ''Pc'' m"
proof -
  have "lan_segments (dat ex_cfg) = [] @ hd (lan_segments (dat ex_cfg)) # []"
    by (simp add: ex_cfg_def new_store_def default_data_def)
  moreover have "leases (dat ex_cfg) = []" "dns_records (dat ex_cfg) = []"
    by (simp_all add: ex_cfg_def new_store_def default_data_def)
  ultimately show ?thesis unfolding name_free_def Let_def
    by (intro conjI exI [of _ "[]"] exI [of _ "[]"]) simp_all
qed

theorem acknowledged_name_resolves_witness:
  "\<exists>cfg' srv' d b p resp m. handle_request ex_env ex_cfg (new_server ex_seg) ex_host_pkt = Some (cfg', srv', [(d, b)]) \<and>
     parse_packet b = Inr p \<and>
     dns_handle bomb_world (dat cfg') new_recursive_cache (build_iterative_query 4 ''pc.lan.'' 1) [] 0 =
       (Some (to4 [], resp), new_recursive_cache, 0) \<and>
     parse_full_message resp = Inr m \<and> map answer_view (m_answers m) = [(''pc.lan'', 1, 1, 60, p_yiaddr p)]"
proof -
  obtain c s d b p where h: "handle_request ex_env ex_cfg (new_server ex_seg) ex_host_pkt = Some (c, s, [(d, b)])"
    and p: "parse_packet b = Inr p" "p_message_type p = ACK"
  proof -
    obtain c s out where h: "handle_request ex_env ex_cfg (new_server ex_seg) ex_host_pkt = Some (c, s, out)"
      and o: "map (\<lambda>(d, b). case parse_packet b of Inr p \<Rightarrow> p_message_type p | Inl _ \<Rightarrow> 0) out = [ACK]"
      using ex_host_request by auto
    then obtain d b where "out = [(d, b)]" by (auto simp: map_eq_Cons_conv)
    with o h that show thesis by (cases "parse_packet b") auto
  qed
  let ?g = "hd (lan_segments (dat ex_cfg))"
  have "wf_request ex_host_pkt" using ex_wf by (simp add: wf_request_def ex_host_pkt_def)
  moreover have "distinct (map lease_mac (leases (dat ex_cfg)))"
    by (simp add: ex_cfg_def new_store_def default_data_def)
  moreover have "p_hostname ex_host_pkt \<noteq> ''''" "srv_segment_id (new_server ex_seg) = seg_id ?g"
    by (simp add: ex_host_pkt_def) code_simp
  moreover have "name_free (dat ex_cfg) ?g (p_hostname ex_host_pkt) (mac_string (p_chaddr ex_host_pkt))"
    using ex_name_free by (simp add: ex_host_pkt_def)
  moreover have "to_lower (trim_suffix (join ''.'' [''pc'', ''lan'']) ''.'') =
      to_lower (p_hostname ex_host_pkt) @ ''.'' @ to_lower (seg_domain ?g)" by code_simp
  moreover have "labels_below 64 [''pc'', ''lan'']" by simp
  ultimately have "\<exists>resp m. dns_handle bomb_world (dat c) new_recursive_cache (build_iterative_query 4 ''pc.lan.'' 1) [] 0 =
       (Some (to4 [], resp), new_recursive_cache, 0) \<and>
     parse_full_message resp = Inr m \<and>
     map answer_view (m_answers m) = [(join ''.'' [''pc'', ''lan''], type_A, class_IN, 60, p_yiaddr p)]"
    by (rule acknowledged_name_resolves [OF _ ex_book_ok _ h p _ _ _ _ ex_host_wire])
  with h p(1) show ?thesis by auto
qed

end
