(* ===== verification/Crypto.thy ===== *)
theory Crypto
  imports Go_Strings
begin

text \<open>
  The parts of Go's standard library that \<open>internal/auth\<close> is built on: \<open>crypto/sha256\<close>,
  \<open>crypto/hmac\<close> and \<open>encoding/base64\<close> (standard and raw URL alphabets), as executable
  definitions. The results used later are the length of a digest and the base64 round trip.
\<close>

section \<open>SHA-256\<close>

type_synonym sha_state = "u32 \<times> u32 \<times> u32 \<times> u32 \<times> u32 \<times> u32 \<times> u32 \<times> u32"

text \<open>The round constants and the initial state, eight words to a number.\<close>

definition split_words :: "int \<Rightarrow> u32 list" where
  "split_words n = map (\<lambda>i. word_of_int (n div 2 ^ (32 * i))) [7, 6, 5, 4, 3, 2, 1, 0]"

definition sha_k :: "u32 list" where
  "sha_k = concat (map split_words [
     0x428a2f9871374491b5c0fbcfe9b5dba53956c25b59f111f1923f82a4ab1c5ed5,
     0xd807aa9812835b01243185be550c7dc372be5d7480deb1fe9bdc06a7c19bf174,
     0xe49b69c1efbe47860fc19dc6240ca1cc2de92c6f4a7484aa5cb0a9dc76f988da,
     0x983e5152a831c66db00327c8bf597fc7c6e00bf3d5a7914706ca635114292967,
     0x27b70a852e1b21384d2c6dfc53380d13650a7354766a0abb81c2c92e92722c85,
     0xa2bfe8a1a81a664bc24b8b70c76c51a3d192e819d6990624f40e3585106aa070,
     0x19a4c1161e376c082748774c34b0bcb5391c0cb34ed8aa4a5b9cca4f682e6ff3,
     0x748f82ee78a5636f84c878148cc7020890befffaa4506cebbef9a3f7c67178f2])"

definition sha_init :: sha_state where
  "sha_init = (case split_words 0x6a09e667bb67ae853c6ef372a54ff53a510e527f9b05688c1f83d9ab5be0cd19 of
     [a, b, c, d, e, f, g, h] \<Rightarrow> (a, b, c, d, e, f, g, h) | _ \<Rightarrow> (0, 0, 0, 0, 0, 0, 0, 0))"

definition rotr :: "nat \<Rightarrow> u32 \<Rightarrow> u32" where
  "rotr n w = drop_bit n w OR push_bit (32 - n) w"

definition small_sigma0 :: "u32 \<Rightarrow> u32" where
  "small_sigma0 x = rotr 7 x XOR rotr 18 x XOR drop_bit 3 x"

definition small_sigma1 :: "u32 \<Rightarrow> u32" where
  "small_sigma1 x = rotr 17 x XOR rotr 19 x XOR drop_bit 10 x"

definition big_sigma0 :: "u32 \<Rightarrow> u32" where
  "big_sigma0 x = rotr 2 x XOR rotr 13 x XOR rotr 22 x"

definition big_sigma1 :: "u32 \<Rightarrow> u32" where
  "big_sigma1 x = rotr 6 x XOR rotr 11 x XOR rotr 25 x"

definition sha_round :: "u32 \<times> u32 \<Rightarrow> sha_state \<Rightarrow> sha_state" where
  "sha_round kw st = (case (kw, st) of ((k, w), (a, b, c, d, e, f, g, h)) \<Rightarrow>
     (let t1 = h + big_sigma1 e + ((e AND f) XOR (NOT e AND g)) + k + w;
          t2 = big_sigma0 a + ((a AND b) XOR (a AND c) XOR (b AND c))
      in (t1 + t2, a, b, c, d + t1, e, f, g)))"

definition sha_schedule :: "u32 list \<Rightarrow> u32 list" where
  "sha_schedule blk = fold (\<lambda>i w. w @ [small_sigma1 (w ! (i - 2)) + w ! (i - 7) +
     small_sigma0 (w ! (i - 15)) + w ! (i - 16)]) [16..<64] blk"

fun words32 :: "byte list \<Rightarrow> u32 list" where
  "words32 (a # b # c # d # r) =
     (push_bit 24 (ucast a) OR push_bit 16 (ucast b) OR push_bit 8 (ucast c) OR ucast d) # words32 r"
| "words32 _ = []"

definition sha_block :: "byte list \<Rightarrow> sha_state \<Rightarrow> sha_state" where
  "sha_block blk st =
     (case (st, fold sha_round (zip sha_k (sha_schedule (words32 blk))) st) of
        ((a, b, c, d, e, f, g, h), (a', b', c', d', e', f', g', h')) \<Rightarrow>
          (a + a', b + b', c + c', d + d', e + e', f + f', g + g', h + h'))"

text \<open>The padding: a one bit, zeros, and the length in bits as 64-bit big-endian.\<close>

definition sha_pad :: "byte list \<Rightarrow> byte list" where
  "sha_pad msg =
     (let n = length msg; z = (119 - n mod 64) mod 64 in
      msg @ [0x80] @ replicate z 0 @ be_bytes32 (of_nat (8 * n div 2 ^ 32)) @ be_bytes32 (of_nat (8 * n)))"

fun sha_blocks :: "nat \<Rightarrow> byte list \<Rightarrow> sha_state \<Rightarrow> sha_state" where
  "sha_blocks 0 msg st = st"
| "sha_blocks (Suc n) msg st = sha_blocks n (drop 64 msg) (sha_block (take 64 msg) st)"

definition sha256 :: "byte list \<Rightarrow> byte list" where
  "sha256 msg = (let p = sha_pad msg in
     case sha_blocks (length p div 64) p sha_init of
       (a, b, c, d, e, f, g, h) \<Rightarrow> concat (map be_bytes32 [a, b, c, d, e, f, g, h]))"

lemma length_sha256 [simp]: "length (sha256 msg) = 32"
  by (simp add: sha256_def Let_def split: prod.split)

definition hmac_sha256 :: "byte list \<Rightarrow> byte list \<Rightarrow> byte list" where
  "hmac_sha256 key msg =
     (let k0 = (if 64 < length key then sha256 key else key);
          k = k0 @ replicate (64 - length k0) 0
      in sha256 (map (\<lambda>v. v XOR 0x5C) k @ sha256 (map (\<lambda>v. v XOR 0x36) k @ msg)))"

lemma length_hmac [simp]: "length (hmac_sha256 key msg) = 32"
  by (simp add: hmac_sha256_def Let_def)

section \<open>Base64\<close>

definition b64_std :: string where
  "b64_std = ''ABCDEFGHIJKLMNOPQRSTUVWXYZabcdefghijklmnopqrstuvwxyz0123456789+/''"

definition b64_url :: string where
  "b64_url = ''ABCDEFGHIJKLMNOPQRSTUVWXYZabcdefghijklmnopqrstuvwxyz0123456789-_''"

text \<open>The four 6-bit digits of three bytes.\<close>

definition sextets :: "byte \<Rightarrow> byte \<Rightarrow> byte \<Rightarrow> nat list" where
  "sextets a b c =
     [unat a div 4, unat a mod 4 * 16 + unat b div 16, unat b mod 16 * 4 + unat c div 64, unat c mod 64]"

fun b64_encode :: "string \<Rightarrow> string \<Rightarrow> byte list \<Rightarrow> string" where
  "b64_encode alpha pad [] = []"
| "b64_encode alpha pad [a] = map ((!) alpha) (take 2 (sextets a 0 0)) @ pad @ pad"
| "b64_encode alpha pad [a, b] = map ((!) alpha) (take 3 (sextets a b 0)) @ pad"
| "b64_encode alpha pad (a # b # c # r) = map ((!) alpha) (sextets a b c) @ b64_encode alpha pad r"

text \<open>\<open>StdEncoding.EncodeToString\<close> and \<open>RawURLEncoding.EncodeToString\<close>.\<close>

definition encode_std :: "byte list \<Rightarrow> string" where
  "encode_std = b64_encode b64_std ''=''"

definition encode_raw_url :: "byte list \<Rightarrow> string" where
  "encode_raw_url = b64_encode b64_url ''''"

fun index_of :: "'a \<Rightarrow> 'a list \<Rightarrow> nat option" where
  "index_of x [] = None"
| "index_of x (y # ys) = (if x = y then Some 0 else map_option Suc (index_of x ys))"

definition b64_val :: "char \<Rightarrow> nat option" where
  "b64_val c = index_of c b64_std"

definition unsextet :: "nat \<Rightarrow> nat \<Rightarrow> nat \<Rightarrow> nat \<Rightarrow> byte list" where
  "unsextet p q r s = [of_nat (p * 4 + q div 16), of_nat (q mod 16 * 16 + r div 4), of_nat (r mod 4 * 64 + s)]"

fun b64_quads :: "string \<Rightarrow> byte list option" where
  "b64_quads [] = Some []"
| "b64_quads [w, x, y, z] =
     (case (b64_val w, b64_val x) of
        (Some p, Some q) \<Rightarrow>
          (if y = CHR ''='' \<and> z = CHR ''='' then Some (take 1 (unsextet p q 0 0))
           else (case b64_val y of
               None \<Rightarrow> None
             | Some r \<Rightarrow>
                 if z = CHR ''='' then Some (take 2 (unsextet p q r 0))
                 else (case b64_val z of None \<Rightarrow> None | Some s \<Rightarrow> Some (unsextet p q r s))))
      | _ \<Rightarrow> None)"
| "b64_quads (w # x # y # z # v # rest) =
     (case (b64_val w, b64_val x, b64_val y, b64_val z) of
        (Some p, Some q, Some r, Some s) \<Rightarrow> map_option (\<lambda>t. unsextet p q r s @ t) (b64_quads (v # rest))
      | _ \<Rightarrow> None)"
| "b64_quads _ = None"

text \<open>\<open>StdEncoding.DecodeString\<close> ignores line ends.\<close>

definition decode_std :: "string \<Rightarrow> byte list option" where
  "decode_std s = b64_quads (filter (\<lambda>c. c \<noteq> CHR 0x0A \<and> c \<noteq> CHR 0x0D) s)"

lemma b64_val_nth:
  "n < 64 \<Longrightarrow> b64_val (b64_std ! n) = Some n \<and> b64_std ! n \<notin> {CHR ''='', CHR 0x0A, CHR 0x0D}"
proof -
  have "\<forall>n \<in> set [0..<64]. b64_val (b64_std ! n) = Some n \<and> b64_std ! n \<notin> {CHR ''='', CHR 0x0A, CHR 0x0D}"
    by code_simp
  then show "n < 64 \<Longrightarrow> ?thesis" by (simp del: upt_Suc)
qed

lemma sextets_less: "n \<in> set (sextets a b c) \<Longrightarrow> n < 64"
proof -
  have "unat a < 256" "unat b < 256" "unat c < 256"
    using unsigned_less [of a] unsigned_less [of b] unsigned_less [of c] by simp_all
  then show "n \<in> set (sextets a b c) \<Longrightarrow> n < 64" by (auto simp: sextets_def)
qed

lemma unsextet_sextets:
  "unsextet (unat a div 4) (unat a mod 4 * 16 + unat b div 16) (unat b mod 16 * 4 + unat c div 64) (unat c mod 64)
     = [a, b, c]"
proof -
  have l: "unat b < 256" "unat c < 256"
    using unsigned_less [of b] unsigned_less [of c] by simp_all
  have "unat b div 16 < 16" "unat c div 64 < 4" using l by (simp_all add: div_less_iff_less_mult)
  then have "(unat a mod 4 * 16 + unat b div 16) div 16 = unat a mod 4"
    "(unat a mod 4 * 16 + unat b div 16) mod 16 = unat b div 16"
    "(unat b mod 16 * 4 + unat c div 64) div 4 = unat b mod 16"
    "(unat b mod 16 * 4 + unat c div 64) mod 4 = unat c div 64"
    by simp_all
  then show ?thesis by (simp add: unsextet_def)
qed

lemma sextets_zero: "sextets a 0 0 = [unat a div 4, unat a mod 4 * 16, 0, 0]"
  "sextets a b 0 = [unat a div 4, unat a mod 4 * 16 + unat b div 16, unat b mod 16 * 4, 0]"
  by (simp_all add: sextets_def)

lemma b64_digit:
  "n \<in> set (sextets a b c) \<Longrightarrow> b64_val (b64_std ! n) = Some n"
  "n \<in> set (sextets a b c) \<Longrightarrow> b64_std ! n \<noteq> CHR ''=''"
  using b64_val_nth [OF sextets_less] by auto

lemma b64_encode_Nil: "b64_encode alpha pad b = [] \<longleftrightarrow> b = []"
  by (cases "(alpha, pad, b)" rule: b64_encode.cases) (simp_all add: sextets_def)

lemma b64_quads_encode: "b64_quads (b64_encode b64_std ''='' b) = Some b"
proof (induction b64_std "''=''" b rule: b64_encode.induct)
  case (2 a)
  have "unsextet (unat a div 4) (unat a mod 4 * 16) 0 0 = [a, 0, 0]"
    using unsextet_sextets [of a 0 0] by simp
  then show ?case
    using b64_digit(1) [of _ a 0 0] by (simp add: sextets_zero)
next
  case (3 a b)
  have "unsextet (unat a div 4) (unat a mod 4 * 16 + unat b div 16) (unat b mod 16 * 4) 0 = [a, b, 0]"
    using unsextet_sextets [of a b 0] by simp
  then show ?case
    using b64_digit [of _ a b 0] by (simp add: sextets_zero)
next
  case (4 a b c r)
  let ?e = "b64_encode b64_std ''='' r"
  note d = b64_digit [of _ a b c, unfolded sextets_def, simplified]
  show ?case
  proof (cases ?e)
    case Nil
    then have "r = []" by (simp add: b64_encode_Nil)
    then show ?thesis using d unsextet_sextets [of a b c] by (simp add: sextets_def)
  next
    case (Cons v rest)
    with 4 have "b64_quads (v # rest) = Some r" by simp
    then show ?thesis using d unsextet_sextets [of a b c] Cons by (simp add: sextets_def)
  qed
qed simp

lemma b64_encode_chars:
  "x \<in> set (b64_encode b64_std ''='' b) \<Longrightarrow> x \<noteq> CHR 0x0A \<and> x \<noteq> CHR 0x0D"
proof (induction b64_std "''=''" b rule: b64_encode.induct)
  case (2 a)
  then show ?case using b64_val_nth [OF sextets_less] by (auto dest!: in_set_takeD)
next
  case (3 a b)
  then show ?case using b64_val_nth [OF sextets_less] by (auto dest!: in_set_takeD)
next
  case (4 a b c r)
  then show ?case using b64_val_nth [OF sextets_less] by auto
qed simp

lemma decode_encode_std [simp]: "decode_std (encode_std b) = Some b"
proof -
  have "filter (\<lambda>c. c \<noteq> CHR 0x0A \<and> c \<noteq> CHR 0x0D) (encode_std b) = encode_std b"
    unfolding encode_std_def by (intro filter_True) (auto dest: b64_encode_chars)
  then show ?thesis by (simp add: decode_std_def) (simp add: encode_std_def b64_quads_encode)
qed

end
