(* ===== verification/Auth.thy ===== *)
theory Auth
  imports Crypto Config
begin

text \<open>
  Login: \<open>internal/auth\<close>. \<open>pbkdf2.go\<close> derives the stored hash, \<open>store.go\<close> keeps one
  credential in memory and in a file (abstracted to the credential its JSON encodes),
  \<open>session.go\<close> keeps the sessions and the login throttle. Random bytes, the outcome of the
  file system and the clock (in nanoseconds) are arguments.
\<close>

section \<open>Key derivation\<close>

definition xor_bytes :: "byte list \<Rightarrow> byte list \<Rightarrow> byte list" where
  "xor_bytes t u = map2 (XOR) t u"

fun pbkdf2_loop :: "byte list \<Rightarrow> nat \<Rightarrow> byte list \<Rightarrow> byte list \<Rightarrow> byte list" where
  "pbkdf2_loop password 0 u t = t"
| "pbkdf2_loop password (Suc n) u t =
     (let u' = hmac_sha256 password u in pbkdf2_loop password n u' (xor_bytes t u'))"

definition pbkdf2_block :: "byte list \<Rightarrow> byte list \<Rightarrow> int \<Rightarrow> nat \<Rightarrow> byte list" where
  "pbkdf2_block password salt iterations block =
     (let u = hmac_sha256 password (salt @ be_bytes32 (of_nat block))
      in pbkdf2_loop password (nat (iterations - 1)) u u)"

definition pbkdf2 :: "byte list \<Rightarrow> byte list \<Rightarrow> int \<Rightarrow> nat \<Rightarrow> byte list" where
  "pbkdf2 password salt iterations key_len =
     (let num_blocks = (key_len + 32 - 1) div 32
      in take key_len (concat (map (pbkdf2_block password salt iterations) [1..<num_blocks + 1])))"

section \<open>The credential store\<close>

record credentials =
  cr_username :: string
  cr_iterations :: int
  cr_salt :: string
  cr_hash :: string

record auth_store =
  au_creds :: credentials
  au_disk :: "credentials option"

datatype auth_error = SaltFailed | CredsWriteFailed | CredsRenameFailed | CredsUnreadable | CredsUnparsable

definition no_credentials :: credentials where
  "no_credentials = \<lparr>cr_username = '''', cr_iterations = 0, cr_salt = '''', cr_hash = ''''\<rparr>"

definition auth_save :: "io \<Rightarrow> auth_store \<Rightarrow> auth_store \<times> auth_error option" where
  "auth_save io s =
     (case io of
        WriteFails \<Rightarrow> (s, Some CredsWriteFailed)
      | RenameFails \<Rightarrow> (s, Some CredsRenameFailed)
      | IoOk \<Rightarrow> (s\<lparr>au_disk := Some (au_creds s)\<rparr>, None))"

definition pbkdf2_iterations :: int where "pbkdf2_iterations = 210000"
definition salt_len :: nat where "salt_len = 16"
definition hash_len :: nat where "hash_len = 32"

text \<open>The salt is \<^const>\<open>None\<close> when the random source fails.\<close>

definition set_password ::
  "byte list option \<Rightarrow> io \<Rightarrow> string \<Rightarrow> string \<Rightarrow> auth_store \<Rightarrow> auth_store \<times> auth_error option" where
  "set_password rnd io username password s =
     (case rnd of
        None \<Rightarrow> (s, Some SaltFailed)
      | Some salt \<Rightarrow>
          auth_save io (s\<lparr>au_creds := \<lparr>cr_username = username, cr_iterations = pbkdf2_iterations,
            cr_salt = encode_std salt,
            cr_hash = encode_std (pbkdf2 (bytes_of_str password) salt pbkdf2_iterations hash_len)\<rparr>\<rparr>))"

text \<open>What the credentials file is: absent, unreadable, not JSON, or a credential.\<close>

datatype creds_file = CredsAbsent | CredsReadError | CredsBadJson | CredsFile credentials

definition auth_load :: "byte list option \<Rightarrow> io \<Rightarrow> creds_file \<Rightarrow> auth_error + auth_store" where
  "auth_load rnd io file =
     (case file of
        CredsAbsent \<Rightarrow>
          (case set_password rnd io ''admin'' ''admin'' \<lparr>au_creds = no_credentials, au_disk = None\<rparr> of
             (s, None) \<Rightarrow> Inr s | (_, Some e) \<Rightarrow> Inl e)
      | CredsReadError \<Rightarrow> Inl CredsUnreadable
      | CredsBadJson \<Rightarrow> Inl CredsUnparsable
      | CredsFile c \<Rightarrow> Inr \<lparr>au_creds = c, au_disk = Some c\<rparr>)"

definition verify :: "string \<Rightarrow> string \<Rightarrow> auth_store \<Rightarrow> bool" where
  "verify username password s =
     (let c = au_creds s in
      if username \<noteq> cr_username c then False
      else (case decode_std (cr_salt c) of
          None \<Rightarrow> False
        | Some salt \<Rightarrow>
            (case decode_std (cr_hash c) of
               None \<Rightarrow> False
             | Some want \<Rightarrow> pbkdf2 (bytes_of_str password) salt (cr_iterations c) (length want) = want)))"

definition auth_username :: "auth_store \<Rightarrow> string" where
  "auth_username s = cr_username (au_creds s)"

section \<open>Sessions\<close>

record session_manager =
  sm_sessions :: "string \<rightharpoonup> int"

definition new_session_manager :: session_manager where
  "new_session_manager = \<lparr>sm_sessions = Map.empty\<rparr>"

definition session_ttl :: int where
  "session_ttl = 7 * 24 * 3600 * 1000000000"

definition session_create ::
  "byte list option \<Rightarrow> int \<Rightarrow> session_manager \<Rightarrow> string option \<times> session_manager" where
  "session_create rnd now sm =
     (case rnd of
        None \<Rightarrow> (None, sm)
      | Some b \<Rightarrow>
          (let token = encode_raw_url b
           in (Some token, sm\<lparr>sm_sessions := (sm_sessions sm)(token \<mapsto> now + session_ttl)\<rparr>)))"

definition session_valid :: "int \<Rightarrow> string \<Rightarrow> session_manager \<Rightarrow> bool \<times> session_manager" where
  "session_valid now token sm =
     (if token = '''' then (False, sm)
      else (case sm_sessions sm token of
          None \<Rightarrow> (False, sm)
        | Some expires \<Rightarrow>
            if expires < now then (False, sm\<lparr>sm_sessions := (sm_sessions sm)(token := None)\<rparr>)
            else (True, sm)))"

definition session_revoke :: "string \<Rightarrow> session_manager \<Rightarrow> session_manager" where
  "session_revoke token sm = sm\<lparr>sm_sessions := (sm_sessions sm)(token := None)\<rparr>"

section \<open>The login throttle\<close>

text \<open>No failure has been recorded yet when \<open>lt_last_failure\<close> is \<^const>\<open>None\<close>, Go's zero
  time, which lies long ago.\<close>

record login_throttle =
  lt_fail_count :: nat
  lt_last_failure :: "int option"

definition new_login_throttle :: login_throttle where
  "new_login_throttle = \<lparr>lt_fail_count = 0, lt_last_failure = None\<rparr>"

definition throttle_delay :: "int \<Rightarrow> login_throttle \<Rightarrow> int \<times> login_throttle" where
  "throttle_delay now lt =
     (let old = (case lt_last_failure lt of None \<Rightarrow> True | Some t \<Rightarrow> 5 * 60 * 1000000000 < now - t);
          lt' = (if old then lt\<lparr>lt_fail_count := 0\<rparr> else lt)
      in (if lt_fail_count lt' \<le> 2 then 0
          else if lt_fail_count lt' \<le> 5 then 1000000000
          else 5 * 1000000000, lt'))"

definition record_failure :: "int \<Rightarrow> login_throttle \<Rightarrow> login_throttle" where
  "record_failure now lt =
     lt\<lparr>lt_fail_count := lt_fail_count lt + 1, lt_last_failure := Some now\<rparr>"

definition record_success :: "login_throttle \<Rightarrow> login_throttle" where
  "record_success lt = lt\<lparr>lt_fail_count := 0\<rparr>"

section \<open>Lemmas\<close>

lemma length_xor_bytes [simp]: "length (xor_bytes t u) = min (length t) (length u)"
  by (simp add: xor_bytes_def)

lemma length_pbkdf2_loop: "length t = 32 \<Longrightarrow> length (pbkdf2_loop password n u t) = 32"
  by (induction n arbitrary: u t) (simp_all add: Let_def)

lemma length_pbkdf2 [simp]: "length (pbkdf2 password salt iterations k) = k"
proof -
  let ?n = "(k + 32 - 1) div 32"
  have "length (pbkdf2_block password salt iterations b) = 32" for b
    by (simp add: pbkdf2_block_def Let_def length_pbkdf2_loop)
  then have "length (concat (map (pbkdf2_block password salt iterations) bs)) = 32 * length bs" for bs
    by (induction bs) simp_all
  moreover have "k \<le> 32 * ?n" by linarith
  ultimately show ?thesis by (simp add: pbkdf2_def Let_def)
qed

text \<open>The session table as an authorisation: a token stands for a login for seven days.\<close>

lemma session_valid_iff:
  "fst (session_valid now token sm) \<longleftrightarrow>
     token \<noteq> '''' \<and> (\<exists>e. sm_sessions sm token = Some e \<and> now \<le> e)"
  by (auto simp: session_valid_def split: option.split)

lemma sessions_valid_shrinks:
  "sm_sessions (snd (session_valid now t sm)) k = Some e \<Longrightarrow> sm_sessions sm k = Some e"
  by (auto simp: session_valid_def split: if_splits option.splits)

end
