(* ===== verification/Sqm.thy ===== *)
theory Sqm
  imports Go_Strings
begin

text \<open>
  Traffic shaping, \<open>internal/sqm/sqm.go\<close>: the commands \<open>Apply\<close> and \<open>Remove\<close> run, in
  order. Running a command is a parameter: a function from the commands run so far and the
  new one to its error text, or \<^const>\<open>None\<close> when it succeeds.
\<close>

type_synonym command = "string list"

type_synonym runner = "command list \<Rightarrow> command \<Rightarrow> string option"

record sqm_config =
  sq_enabled :: bool
  sq_wan :: string
  sq_download_mbit :: int
  sq_upload_mbit :: int

datatype sqm_error =
    NoWanInterface | BadLimits int int
  | IfbModule string | IfbCreate string | IfbUp string
  | UploadShaping string | IngressQdisc string | IngressRedirect string | DownloadShaping string

definition ifb_device :: string where "ifb_device = ''ifb0''"

definition show_int :: "int \<Rightarrow> string" where
  "show_int i = (if i < 0 then ''-'' @ itoa (nat (- i)) else itoa (nat i))"

definition mbit :: "int \<Rightarrow> string" where
  "mbit n = show_int n @ ''mbit''"

text \<open>A step: the command, which error texts are no failure, and the error otherwise.\<close>

type_synonym sqm_step = "command \<times> (string \<Rightarrow> bool) \<times> (string \<Rightarrow> sqm_error)"

definition sqm_steps :: "sqm_config \<Rightarrow> sqm_step list" where
  "sqm_steps cfg =
     (let no = (\<lambda>_. False) in
     [([''modprobe'', ''ifb'', ''numifbs=1''], no, IfbModule),
      ([''ip'', ''link'', ''add'', ifb_device, ''type'', ''ifb''], (\<lambda>e. sublist ''File exists'' e), IfbCreate),
      ([''ip'', ''link'', ''set'', ''dev'', ifb_device, ''up''], no, IfbUp),
      ([''tc'', ''qdisc'', ''replace'', ''dev'', sq_wan cfg, ''root'', ''cake'', ''bandwidth'',
        mbit (sq_upload_mbit cfg)], no, UploadShaping),
      ([''tc'', ''qdisc'', ''replace'', ''dev'', sq_wan cfg, ''handle'', ''ffff:'', ''ingress''], no, IngressQdisc),
      ([''tc'', ''filter'', ''replace'', ''dev'', sq_wan cfg, ''parent'', ''ffff:'', ''matchall'', ''action'',
        ''mirred'', ''egress'', ''redirect'', ''dev'', ifb_device], no, IngressRedirect),
      ([''tc'', ''qdisc'', ''replace'', ''dev'', ifb_device, ''root'', ''cake'', ''bandwidth'',
        mbit (sq_download_mbit cfg)], no, DownloadShaping)])"

fun run_steps :: "runner \<Rightarrow> sqm_step list \<Rightarrow> command list \<Rightarrow> command list \<times> sqm_error option" where
  "run_steps run [] past = (past, None)"
| "run_steps run ((c, tolerated, err) # rest) past =
     (case run past c of
        None \<Rightarrow> run_steps run rest (past @ [c])
      | Some e \<Rightarrow> if tolerated e then run_steps run rest (past @ [c]) else (past @ [c], Some (err e)))"

definition sqm_remove :: "string \<Rightarrow> command list" where
  "sqm_remove wan =
     (if wan = '''' then []
      else [[''tc'', ''qdisc'', ''del'', ''dev'', wan, ''root''],
            [''tc'', ''qdisc'', ''del'', ''dev'', wan, ''ingress''],
            [''tc'', ''qdisc'', ''del'', ''dev'', ifb_device, ''root''],
            [''ip'', ''link'', ''del'', ifb_device]])"

definition sqm_apply :: "runner \<Rightarrow> sqm_config \<Rightarrow> command list \<times> sqm_error option" where
  "sqm_apply run cfg =
     (if \<not> sq_enabled cfg then (sqm_remove (sq_wan cfg), None)
      else if sq_wan cfg = '''' then ([], Some NoWanInterface)
      else if sq_download_mbit cfg \<le> 0 \<or> sq_upload_mbit cfg \<le> 0
      then ([], Some (BadLimits (sq_download_mbit cfg) (sq_upload_mbit cfg)))
      else run_steps run (sqm_steps cfg) [])"

end
