(* ===== verification/Status.thy ===== *)
theory Status
  imports Prelude
begin

text \<open>
  The status registry, \<open>internal/status/status.go\<close>: what the DHCP and DNS servers last
  reported. An error is its text; the map of segments is a finite list of keys and values in
  no particular order, as \<open>DHCPSegmentStates\<close> returns it.
\<close>

record svc_state =
  st_up :: bool
  st_last_err :: string

record dhcp_segment_state =
  ds_segment_id :: string
  ds_segment_name :: string
  ds_state :: svc_state

record status_registry =
  reg_dns :: svc_state
  reg_dhcp :: "dhcp_segment_state list"

definition set_dhcp_segment ::
  "string \<Rightarrow> string \<Rightarrow> bool \<Rightarrow> string option \<Rightarrow> status_registry \<Rightarrow> status_registry" where
  "set_dhcp_segment sid name up err reg =
     reg\<lparr>reg_dhcp := upsert_by ds_segment_id
       \<lparr>ds_segment_id = sid, ds_segment_name = name,
        ds_state = \<lparr>st_up = up, st_last_err = (case err of None \<Rightarrow> '''' | Some e \<Rightarrow> e)\<rparr>\<rparr> (reg_dhcp reg)\<rparr>"

definition set_dns :: "bool \<Rightarrow> string option \<Rightarrow> status_registry \<Rightarrow> status_registry" where
  "set_dns up err reg =
     reg\<lparr>reg_dns := \<lparr>st_up = up, st_last_err = (case err of None \<Rightarrow> '''' | Some e \<Rightarrow> e)\<rparr>\<rparr>"

definition dns_state :: "status_registry \<Rightarrow> svc_state" where
  "dns_state reg = reg_dns reg"

definition dhcp_segment_states :: "status_registry \<Rightarrow> dhcp_segment_state list" where
  "dhcp_segment_states reg = reg_dhcp reg"

text \<open>The registry is a table of segments: the last report of each counts, and one segment's
  report leaves the others alone.\<close>

interpretation segment_status: keyed_store
  "\<lambda>reg sid. find_by ds_segment_id sid (dhcp_segment_states reg)"
  "\<lambda>d reg. set_dhcp_segment (ds_segment_id d) (ds_segment_name d) (st_up (ds_state d))
     (Some (st_last_err (ds_state d))) reg"
  "\<lambda>sid reg. reg\<lparr>reg_dhcp := remove_by ds_segment_id sid (reg_dhcp reg)\<rparr>"
  dhcp_segment_states ds_segment_id
  by unfold_locales (auto simp: dhcp_segment_states_def set_dhcp_segment_def)

end
