(* ===== verification/Web_Pages.thy ===== *)
theory Web_Pages
  imports Netstat Status Dns_Cache Firewall_Render "HOL-Library.Signed_Division" "HOL-Library.AList_Mapping"
begin

text \<open>
  What the read-only pages of \<open>internal/web/server.go\<close> show: the ARP diagnostics, the settings
  page (\<open>buildSettingsData\<close>), the interfaces panel and the performance panel. Each is the
  data its template is given, as a function of the configuration, the status registry, the
  files under \<open>/proc\<close> and \<open>/sys\<close>, and the answers of nft. \<open>HumanBytes\<close> of
  \<open>internal/netstat/netstat.go\<close> is here too, with the rounding of its floating-point format.
\<close>

section \<open>Sizes for people\<close>

text \<open>Division rounded to nearest, ties to even.\<close>

definition div_even :: "nat \<Rightarrow> nat \<Rightarrow> nat" where
  "div_even a d = (let q = a div d; r = a mod d in
     if 2 * r < d \<or> (2 * r = d \<and> even q) then q else q + 1)"

fun bit_len :: "nat \<Rightarrow> nat" where
  "bit_len n = (if n = 0 then 0 else Suc (bit_len (n div 2)))"

declare bit_len.simps [simp del]

text \<open>\<open>float64(b)\<close>: 53 significant bits.\<close>

definition float64 :: "nat \<Rightarrow> nat" where
  "float64 b = (let e = bit_len b - 53 in div_even b (2 ^ e) * 2 ^ e)"

fun unit_exp :: "nat \<Rightarrow> nat" where
  "unit_exp n = (if n < 1024 then 0 else Suc (unit_exp (n div 1024)))"

declare unit_exp.simps [simp del]

text \<open>The divisor is a power of two, so the quotient is exact and \<open>%.1f\<close> rounds it once.\<close>

definition human_bytes :: "nat \<Rightarrow> string" where
  "human_bytes b =
     (if b < 1024 then itoa b @ '' B''
      else (let exp = unit_exp (b div 1024); t = div_even (10 * float64 b) (1024 ^ (exp + 1)) in
        itoa (t div 10) @ ''.'' @ itoa (t mod 10) @ '' '' @ [''KMGTPE'' ! exp] @ ''iB''))"

section \<open>The ARP diagnostics\<close>

record arp_diag_row =
  ad_ip :: string
  ad_mac :: string
  ad_interface :: string
  ad_matched_name :: string
  ad_matched :: bool

record arp_page =
  ap_rows :: "arp_diag_row list"
  ap_read_err :: bool
  ap_configured :: "string list"

text \<open>The map from interfaces to segments: a later segment on the same interface replaces an
  earlier one.\<close>

definition segment_by_interface :: "config_data \<Rightarrow> string \<Rightarrow> lan_segment option" where
  "segment_by_interface snap dev = find (\<lambda>g. seg_interface g = dev) (rev (lan_segments snap))"

definition arp_table_path :: string where "arp_table_path = ''/proc/net/arp''"

definition arp_diagnostics :: "(string \<Rightarrow> string option) \<Rightarrow> config_data \<Rightarrow> arp_page" where
  "arp_diagnostics files snap =
     (case read_arp_table_from (files arp_table_path) of (entries, failed) \<Rightarrow>
        \<lparr>ap_rows = map (\<lambda>e. \<lparr>ad_ip = arp_ip e, ad_mac = arp_mac e, ad_interface = arp_interface e,
             ad_matched_name = (case segment_by_interface snap (arp_interface e) of
                 None \<Rightarrow> '''' | Some g \<Rightarrow> seg_name g),
             ad_matched = (segment_by_interface snap (arp_interface e) \<noteq> None)\<rparr>) entries,
         ap_read_err = failed, ap_configured = map seg_interface (lan_segments snap)\<rparr>)"

section \<open>The settings page\<close>

text \<open>What nft answers: its JSON list of chains, decoded, and its list of tables.\<close>

record nft_state =
  ns_chains :: "nft_chain option list option"
  ns_tables :: "string option"

record settings_data =
  sd_snapshot :: config_data
  sd_preview :: "fw_error + string"
  sd_warnings :: "warning list"
  sd_foreign_tables :: "string list"
  sd_env :: environment
  sd_docker_text :: string
  sd_trusted_text :: string

definition build_settings_data :: "nft_state \<Rightarrow> config_data \<Rightarrow> settings_data" where
  "build_settings_data ns snap =
     \<lparr>sd_snapshot = snap, sd_preview = render snap, sd_warnings = warnings snap,
      sd_foreign_tables = foreign_tables (ns_tables ns), sd_env = parse_environment (ns_chains ns),
      sd_docker_text = (if docker_interfaces snap \<noteq> [] then join '', '' (docker_interfaces snap) else ''''),
      sd_trusted_text = join '', '' (trusted_interfaces snap)\<rparr>"

section \<open>The interfaces panel\<close>

record segment_panel =
  sp_name :: string
  sp_iface :: interface
  sp_rx :: string
  sp_tx :: string
  sp_dhcp_up :: bool
  sp_dhcp_err :: string
  sp_dhcp_disabled :: bool

record interfaces_page =
  ip_wan :: interface
  ip_wan_rx :: string
  ip_wan_tx :: string
  ip_dns_up :: bool
  ip_dns_err :: string
  ip_segments :: "segment_panel list"

text \<open>A segment that has not reported has the zero state.\<close>

definition dhcp_state_of :: "status_registry \<Rightarrow> string \<Rightarrow> svc_state" where
  "dhcp_state_of reg sid =
     (case find_by ds_segment_id sid (rev (dhcp_segment_states reg)) of
        None \<Rightarrow> \<lparr>st_up = False, st_last_err = ''''\<rparr> | Some d \<Rightarrow> ds_state d)"

definition make_panel ::
  "(string \<Rightarrow> string option) \<Rightarrow> (string \<Rightarrow> ip list option) \<Rightarrow> status_registry \<Rightarrow> lan_segment \<Rightarrow> segment_panel" where
  "make_panel files addrs reg g =
     (let iface = fst (stat_interface files addrs (seg_interface g)); dhcp = dhcp_state_of reg (seg_id g)
      in \<lparr>sp_name = seg_name g, sp_iface = iface, sp_rx = human_bytes (if_rx_bytes iface),
          sp_tx = human_bytes (if_tx_bytes iface), sp_dhcp_up = st_up dhcp, sp_dhcp_err = st_last_err dhcp,
          sp_dhcp_disabled = seg_dhcp_disabled g\<rparr>)"

definition interfaces_fragment ::
  "(string \<Rightarrow> string option) \<Rightarrow> (string \<Rightarrow> ip list option) \<Rightarrow> status_registry \<Rightarrow> config_data \<Rightarrow> interfaces_page" where
  "interfaces_fragment files addrs reg snap =
     (let wan = fst (stat_interface files addrs (wan_interface snap)); dns = dns_state reg
      in \<lparr>ip_wan = wan, ip_wan_rx = human_bytes (if_rx_bytes wan), ip_wan_tx = human_bytes (if_tx_bytes wan),
          ip_dns_up = st_up dns, ip_dns_err = st_last_err dns,
          ip_segments = map (make_panel files addrs reg) (lan_segments snap)\<rparr>)"

section \<open>The performance panel\<close>

text \<open>\<open>CacheStats\<close>: the cache of the resolver that is running, if there is one.\<close>

definition active_cache_stats :: "recursive_cache option \<Rightarrow> nat \<times> nat \<times> nat" where
  "active_cache_stats c = (case c of None \<Rightarrow> (0, 0, 0) | Some rc \<Rightarrow> cache_stats rc)"

text \<open>\<open>(n * 100) / m\<close> on 64-bit integers.\<close>

definition percent :: "int \<Rightarrow> int \<Rightarrow> int" where
  "percent n m = (if 0 < m then sint (word_of_int (n * 100) :: 64 word) sdiv m else 0)"

record performance_page =
  pp_dns_mode :: string
  pp_cache_entries :: nat
  pp_cache_hits :: nat
  pp_cache_misses :: nat
  pp_hit_pct :: int
  pp_total_lookups :: nat
  pp_conntrack_count :: int
  pp_conntrack_max :: int
  pp_conntrack_pct :: int
  pp_conntrack_available :: bool
  pp_mem_alloc :: string
  pp_mem_sys :: string

definition performance_fragment ::
  "(string \<Rightarrow> string option) \<Rightarrow> recursive_cache option \<Rightarrow> nat \<times> nat \<Rightarrow> config_data \<Rightarrow> performance_page" where
  "performance_fragment files cache mem snap =
     (case active_cache_stats cache of (entries, hits, misses) \<Rightarrow>
      case conntrack_stats files of (count, limit, ok) \<Rightarrow>
        \<lparr>pp_dns_mode = dns_mode snap, pp_cache_entries = entries, pp_cache_hits = hits,
         pp_cache_misses = misses, pp_hit_pct = percent (int hits) (int (hits + misses)),
         pp_total_lookups = hits + misses, pp_conntrack_count = count, pp_conntrack_max = limit,
         pp_conntrack_pct = percent count limit, pp_conntrack_available = ok,
         pp_mem_alloc = human_bytes (fst mem), pp_mem_sys = human_bytes (snd mem)\<rparr>)"

end
