(* ===== verification/Web.thy ===== *)
theory Web
  imports Auth Sqm Web_Pages
begin

text \<open>
  The dashboard's requests, responses and state, \<open>internal/web/server.go\<close>: who may call a
  handler (\<open>requirePOST\<close>, \<open>requireAuth\<close>, \<open>mutating\<close>), login and logout. A handler maps an
  environment, a request and the server's state to a response and the new state. A page is
  what its template is given (for the settings page the messages, which stand beside
  \<^const>\<open>build_settings_data\<close> of the configuration); templates, HTTP headers and log lines are not modelled. What a
  handler gets from outside is in the environment: the clock, the outcome of the first and
  of the second write of the configuration (the second is a roll-back), random bytes, nft,
  the shaping commands, the files under \<open>/proc\<close> and \<open>/sys\<close>, the status registry, the DNS
  cache, the process memory and the local date format.
\<close>

datatype segment_error = BadField string string | PoolBackwards string string

datatype web_msg =
    NoMsg | Msg string | FwMsg string fw_error | SqmMsg string sqm_error | CfgMsg string cfg_error
  | SegMsg segment_error

text \<open>An upload: nothing, a file that cannot be read, or the configuration it encodes (\<^const>\<open>None\<close>
  when it is not one).\<close>

datatype upload = NoUpload | UnreadableUpload | Uploaded "config_data option"

record request =
  rq_method :: string
  rq_path :: string
  rq_cookie :: "string option"
  rq_form_ok :: bool
  rq_form :: "string \<Rightarrow> string"
  rq_post_form :: "string \<Rightarrow> string"
  rq_query :: "string \<Rightarrow> string"
  rq_upload :: upload

record device_row =
  dr_row_id :: string
  dr_hostname :: string
  dr_ip :: string
  dr_mac :: string
  dr_status :: string
  dr_time_left :: string
  dr_expires :: string
  dr_reserved :: bool
  dr_discovered :: bool
  dr_editing :: bool
  dr_segment :: string
  dr_segment_id :: string

datatype response =
    HttpError nat web_msg
  | Redirect string
  | LoginPage bool
  | LoggedIn string int
  | LoggedOut
  | SettingsPage web_msg web_msg
  | FirewallPage nat web_msg web_msg
  | DevicesPage "device_row list" string string string
  | ArpPage arp_page
  | InterfacesPage interfaces_page
  | PerformancePage performance_page
  | DashboardPage "lan_segment list"
  | Download config_data
  | NotFound

record web_env =
  we_now :: int
  we_save :: io
  we_save2 :: io
  we_random :: "byte list option"
  we_nft :: "string \<Rightarrow> string list \<Rightarrow> bool"
  we_run :: runner
  we_files :: "string \<Rightarrow> string option"
  we_addrs :: "string \<Rightarrow> ip list option"
  we_status :: status_registry
  we_cache :: "recursive_cache option"
  we_mem :: "nat \<times> nat"
  we_date :: "int \<Rightarrow> string"

text \<open>The server's state, with the nftables script that ran last.\<close>

record web =
  w_cfg :: store
  w_creds :: auth_store
  w_sessions :: session_manager
  w_throttle :: login_throttle
  w_kernel :: "string option"

type_synonym handler = "web_env \<Rightarrow> request \<Rightarrow> web \<Rightarrow> response \<times> web"

definition web_new :: "store \<Rightarrow> auth_store \<Rightarrow> string option \<Rightarrow> web" where
  "web_new cfg creds installed = \<lparr>w_cfg = cfg, w_creds = creds, w_sessions = new_session_manager,
     w_throttle = new_login_throttle, w_kernel = installed\<rparr>"

section \<open>Who may call a handler\<close>

definition require_post :: "handler \<Rightarrow> handler" where
  "require_post h env r w =
     (if rq_method r \<noteq> ''POST'' then (HttpError 405 (Msg ''method not allowed''), w) else h env r w)"

definition require_auth :: "handler \<Rightarrow> handler" where
  "require_auth h env r w =
     (case rq_cookie r of
        None \<Rightarrow> (Redirect ''/login'', w)
      | Some token \<Rightarrow>
          (case session_valid (we_now env) token (w_sessions w) of (ok, sm) \<Rightarrow>
             let w' = w\<lparr>w_sessions := sm\<rparr> in
             if ok then h env r w' else (Redirect ''/login'', w')))"

definition mutating :: "handler \<Rightarrow> handler" where
  "mutating h = require_auth (require_post h)"

section \<open>Login and logout\<close>

definition login_get :: handler where
  "login_get env r w =
     (case rq_cookie r of
        None \<Rightarrow> (LoginPage (rq_query r ''error'' = ''1''), w)
      | Some token \<Rightarrow>
          (case session_valid (we_now env) token (w_sessions w) of (ok, sm) \<Rightarrow>
             let w' = w\<lparr>w_sessions := sm\<rparr> in
             if ok then (Redirect ''/'', w') else (LoginPage (rq_query r ''error'' = ''1''), w')))"

text \<open>The time after the throttle's sleep is \<open>now + d\<close>.\<close>

definition login_post :: handler where
  "login_post env r w =
     (if \<not> rq_form_ok r then (HttpError 400 (Msg ''bad form''), w)
      else (case throttle_delay (we_now env) (w_throttle w) of (d, lt) \<Rightarrow>
        let now = we_now env + d; w1 = w\<lparr>w_throttle := lt\<rparr> in
        if \<not> verify (rq_form r ''username'') (rq_form r ''password'') (w_creds w) then
          (Redirect ''/login?error=1'', w1\<lparr>w_throttle := record_failure now lt\<rparr>)
        else (let w2 = w1\<lparr>w_throttle := record_success lt\<rparr> in
          (case session_create (we_random env) now (w_sessions w2) of
             (None, sm) \<Rightarrow> (HttpError 500 (Msg ''internal error''), w2)
           | (Some token, sm) \<Rightarrow> (LoggedIn token (now + 7 * 24 * 3600 * 1000000000), w2\<lparr>w_sessions := sm\<rparr>)))))"

definition handle_login :: handler where
  "handle_login env r w = (if rq_method r = ''GET'' then login_get env r w else login_post env r w)"

definition handle_logout :: handler where
  "handle_logout env r w =
     (LoggedOut, case rq_cookie r of None \<Rightarrow> w
        | Some token \<Rightarrow> w\<lparr>w_sessions := session_revoke token (w_sessions w)\<rparr>)"

definition handle_account_update :: handler where
  "handle_account_update env r w =
     (if \<not> rq_form_ok r then (HttpError 400 (Msg ''bad form''), w)
      else (let current = rq_form r ''current_password''; new = rq_form r ''new_password'';
                user = auth_username (w_creds w) in
        if \<not> verify user current (w_creds w)
        then (SettingsPage (Msg ''Current password is incorrect.'') NoMsg, w)
        else if new = '''' \<or> new \<noteq> rq_form r ''confirm_password''
        then (SettingsPage (Msg ''New passwords do not match.'') NoMsg, w)
        else if length new < 8
        then (SettingsPage (Msg ''New password must be at least 8 characters.'') NoMsg, w)
        else (case set_password (we_random env) (we_save env) user new (w_creds w) of
            (creds, Some e) \<Rightarrow> (HttpError 500 (Msg ''failed to save''), w\<lparr>w_creds := creds\<rparr>)
          | (creds, None) \<Rightarrow> (SettingsPage NoMsg (Msg ''Password updated.''), w\<lparr>w_creds := creds\<rparr>))))"

end
