(* ===== verification/Web_Devices.thy ===== *)
theory Web_Devices
  imports Web "HOL-Library.List_Lexorder" "HOL-Library.Char_ord"
begin

text \<open>
  The device list of the dashboard, \<open>internal/web/server.go\<close> (\<open>handleDevicesFragment\<close> and
  its helpers): reservations, leases, devices seen in the ARP table, which are stored on the
  way, and devices seen before. \<open>time.Format\<close> in the local time zone
  is a parameter, from Unix seconds to a text.
\<close>

definition resolve_hostname :: "(string \<rightharpoonup> string) \<Rightarrow> string \<Rightarrow> string \<Rightarrow> string" where
  "resolve_hostname overrides mac reported =
     (case overrides mac of
        Some n \<Rightarrow> if n \<noteq> '''' then n else if reported = '''' then ''(unknown)'' else reported
      | None \<Rightarrow> if reported = '''' then ''(unknown)'' else reported)"

definition segment_display_name :: "lan_segment list \<Rightarrow> string \<Rightarrow> string" where
  "segment_display_name segs sid =
     (case find_by seg_id sid segs of
        Some g \<Rightarrow> seg_name g
      | None \<Rightarrow> if sid = '''' then [CHR 0xE2, CHR 0x80, CHR 0x94] else ''(removed)'')"

definition row_id :: "string \<Rightarrow> string" where
  "row_id mac = filter (\<lambda>c. c \<noteq> CHR '':'') mac"

definition ip_sort_key :: "string \<Rightarrow> u32" where
  "ip_sort_key s = (let i = to4 (parse_ip s) in if i = [] then 0 else u32_at i 0)"

text \<open>\<open>formatTimeLeft\<close>, in nanoseconds.\<close>

definition format_time_left :: "int \<Rightarrow> int \<Rightarrow> string" where
  "format_time_left expires now =
     (if expires < now then ''expired''
      else (let d = expires - now; h = nat (d div (3600 * 1000000000)); m = nat (d div (60 * 1000000000) mod 60)
        in if 0 < h then itoa h @ ''h '' @ itoa m @ ''m'' else itoa m @ ''m''))"

definition editing_ids :: "request \<Rightarrow> string list" where
  "editing_ids r = filter (\<lambda>i. i \<noteq> '''') (map trim_space (split_on CHR '','' (rq_form r ''editing'')))"

definition make_row ::
  "config_data \<Rightarrow> string list \<Rightarrow> string \<Rightarrow> string \<Rightarrow> string \<Rightarrow> string \<Rightarrow> string \<Rightarrow> string \<Rightarrow> device_row" where
  "make_row snap editing mac i reported status expires sid =
     \<lparr>dr_row_id = row_id mac, dr_hostname = resolve_hostname (hostname_overrides snap) mac reported,
      dr_ip = i, dr_mac = mac, dr_status = status, dr_time_left = '''', dr_expires = expires,
      dr_reserved = False, dr_discovered = False, dr_editing = row_id mac \<in> set editing,
      dr_segment = segment_display_name (lan_segments snap) sid, dr_segment_id = sid\<rparr>"

definition reservation_row :: "config_data \<Rightarrow> string list \<Rightarrow> reservation \<Rightarrow> device_row" where
  "reservation_row snap editing r =
     (make_row snap editing (res_mac r) (res_ip r) (res_hostname r) ''reserved''
        ''Permanent (static reservation)'' (res_segment_id r))\<lparr>dr_time_left := ''static'', dr_reserved := True\<rparr>"

text \<open>The loops over leases, ARP entries and known devices add a row for every MAC address not
  shown yet. The second component is the set of those shown.\<close>

definition lease_row :: "(int \<Rightarrow> string) \<Rightarrow> config_data \<Rightarrow> string list \<Rightarrow> int \<Rightarrow> lease \<Rightarrow> device_row" where
  "lease_row date snap editing now l =
     (let expires = lease_expires_at l * 1000000000 in
      (make_row snap editing (lease_mac l) (lease_ip l) (lease_hostname l)
        (if expires < now then ''expired'' else ''active'') (date (lease_expires_at l)) (lease_segment_id l))
        \<lparr>dr_time_left := format_time_left expires now\<rparr>)"

fun lease_rows ::
  "(int \<Rightarrow> string) \<Rightarrow> config_data \<Rightarrow> string list \<Rightarrow> int \<Rightarrow> lease list \<Rightarrow> device_row list \<times> string list
    \<Rightarrow> device_row list \<times> string list" where
  "lease_rows date snap editing now [] acc = acc"
| "lease_rows date snap editing now (l # ls) (rows, seen) =
     (if lease_mac l \<in> set seen then lease_rows date snap editing now ls (rows, seen)
      else lease_rows date snap editing now ls
        (rows @ [lease_row date snap editing now l], lease_mac l # seen))"

definition arp_row :: "config_data \<Rightarrow> string list \<Rightarrow> arp_entry \<Rightarrow> lan_segment \<Rightarrow> device_row" where
  "arp_row snap editing e g =
     (make_row snap editing (arp_mac e) (arp_ip e) '''' ''discovered''
        ''Currently seen via ARP - not DHCP-tracked'' (seg_id g))
        \<lparr>dr_segment := seg_name g, dr_discovered := True\<rparr>"

fun arp_rows ::
  "config_data \<Rightarrow> string list \<Rightarrow> int \<Rightarrow> arp_entry list \<Rightarrow> device_row list \<times> string list \<times> store
    \<Rightarrow> device_row list \<times> string list \<times> store" where
  "arp_rows snap editing now [] acc = acc"
| "arp_rows snap editing now (e # es) (rows, seen, cfg) =
     (if arp_mac e \<in> set seen then arp_rows snap editing now es (rows, seen, cfg)
      else (case segment_by_interface snap (arp_interface e) of
          None \<Rightarrow> arp_rows snap editing now es (rows, seen, cfg)
        | Some g \<Rightarrow>
            arp_rows snap editing now es
              (rows @ [arp_row snap editing e g], arp_mac e # seen,
               upsert_discovered_device \<lparr>dev_mac = arp_mac e, dev_ip = arp_ip e,
                 dev_segment_id = seg_id g, dev_last_seen = now div 1000000000\<rparr> cfg)))"

definition offline_row :: "(int \<Rightarrow> string) \<Rightarrow> config_data \<Rightarrow> string list \<Rightarrow> discovered_device \<Rightarrow> device_row" where
  "offline_row date snap editing d =
     (make_row snap editing (dev_mac d) (dev_ip d) '''' ''discovered-offline''
        (''Last seen '' @ date (dev_last_seen d) @ '' - not currently visible via ARP'') (dev_segment_id d))
        \<lparr>dr_discovered := True\<rparr>"

fun offline_rows ::
  "(int \<Rightarrow> string) \<Rightarrow> config_data \<Rightarrow> string list \<Rightarrow> discovered_device list \<Rightarrow> device_row list \<times> string list
    \<Rightarrow> device_row list \<times> string list" where
  "offline_rows date snap editing [] acc = acc"
| "offline_rows date snap editing (d # ds) (rows, seen) =
     (if dev_mac d \<in> set seen then offline_rows date snap editing ds (rows, seen)
      else offline_rows date snap editing ds
        (rows @ [offline_row date snap editing d], dev_mac d # seen))"

definition device_rows ::
  "(int \<Rightarrow> string) \<Rightarrow> config_data \<Rightarrow> string list \<Rightarrow> int \<Rightarrow> arp_entry list \<Rightarrow> store \<Rightarrow> device_row list \<times> store" where
  "device_rows date snap editing now entries cfg =
     (case lease_rows date snap editing now (leases snap)
         (map (reservation_row snap editing) (reservations snap), map res_mac (reservations snap)) of
        (rows1, seen1) \<Rightarrow>
      case arp_rows snap editing now entries (rows1, seen1, cfg) of (rows2, seen2, cfg') \<Rightarrow>
        (fst (offline_rows date snap editing (discovered_devices snap) (rows2, seen2)), cfg'))"

definition filter_rows :: "string \<Rightarrow> string \<Rightarrow> device_row list \<Rightarrow> device_row list" where
  "filter_rows segment q rows =
     (let rows = (if segment \<noteq> '''' \<and> segment \<noteq> ''all'' then filter (\<lambda>d. dr_segment_id d = segment) rows else rows)
      in if q \<noteq> '''' then
           filter (\<lambda>d. sublist q (to_lower (dr_hostname d @ '' '' @ dr_ip d @ '' '' @ dr_mac d))) rows
         else rows)"

text \<open>\<open>sort.SliceStable\<close>. It only asks whether a later row comes before an earlier one; with
  \<open>desc\<close> the answer is also yes for rows with equal keys, so these end up in reverse order and
  the result is the ascending list reversed.\<close>

definition sort_rows :: "string \<Rightarrow> string \<Rightarrow> device_row list \<Rightarrow> device_row list" where
  "sort_rows field dir rows =
     (let up = (if field = ''ip'' then sort_key (\<lambda>d. ip_sort_key (dr_ip d)) rows
                else if field = ''status'' then sort_key dr_status rows
                else sort_key (\<lambda>d. to_lower (dr_hostname d)) rows)
      in if dir = ''desc'' then rev up else up)"

definition or_default :: "string \<Rightarrow> string \<Rightarrow> string" where
  "or_default s d = (if s = '''' then d else s)"

definition handle_devices_fragment :: handler where
  "handle_devices_fragment env r w =
     (let snap = snapshot (w_cfg w);
          entries = (case read_arp_table_from (we_files env arp_table_path) of (es, failed) \<Rightarrow>
            if failed then [] else es);
          field = or_default (rq_query r ''sort'') ''hostname''; dir = or_default (rq_query r ''dir'') ''asc''
      in case device_rows (we_date env) snap (editing_ids r) (we_now env) entries (w_cfg w) of (rows, cfg') \<Rightarrow>
        (DevicesPage
           (sort_rows field dir
             (filter_rows (trim_space (rq_query r ''segment'')) (to_lower (trim_space (rq_query r ''q''))) rows))
           field dir (rq_query r ''q''),
         w\<lparr>w_cfg := cfg'\<rparr>))"

end
