(* ===== verification/Web_Settings.thy ===== *)
theory Web_Settings
  imports Web_Devices
begin

text \<open>
  The handlers of \<open>internal/web/server.go\<close> that change the configuration: reservations,
  leases, device names, DNS records, network and shaping settings, import, and the LAN
  segments with their validation.
\<close>

definition field :: "request \<Rightarrow> string \<Rightarrow> string" where
  "field r k = trim_space (rq_form r k)"

definition bad_form :: response where "bad_form = HttpError 400 (Msg ''bad form'')"
definition save_failed :: response where "save_failed = HttpError 500 (Msg ''failed to save'')"

text \<open>A handler that saves and then shows a page.\<close>

definition saved :: "store \<times> cfg_error option \<Rightarrow> response \<Rightarrow> web \<Rightarrow> response \<times> web" where
  "saved res page w =
     (case res of
        (cfg, Some e) \<Rightarrow> (save_failed, w\<lparr>w_cfg := cfg\<rparr>)
      | (cfg, None) \<Rightarrow> (page, w\<lparr>w_cfg := cfg\<rparr>))"

text \<open>A handler that saves and then shows the device list again.\<close>

definition saved_devices :: "store \<times> cfg_error option \<Rightarrow> handler" where
  "saved_devices res env r w =
     (case res of
        (cfg, Some e) \<Rightarrow> (save_failed, w\<lparr>w_cfg := cfg\<rparr>)
      | (cfg, None) \<Rightarrow> handle_devices_fragment env r (w\<lparr>w_cfg := cfg\<rparr>))"

definition form_reservation :: "request \<Rightarrow> reservation" where
  "form_reservation r = \<lparr>res_mac = field r ''mac'', res_ip = field r ''ip'',
     res_hostname = field r ''hostname'', res_segment_id = field r ''segment_id''\<rparr>"

definition handle_add_reservation :: handler where
  "handle_add_reservation env r w =
     (if \<not> rq_form_ok r then (bad_form, w)
      else (let v = form_reservation r in
        if res_mac v = '''' \<or> res_ip v = '''' \<or> res_segment_id v = ''''
        then (HttpError 400 (Msg ''mac, ip, and segment are required''), w)
        else saved (add_reservation (we_save env) v (w_cfg w)) (SettingsPage NoMsg NoMsg) w))"

definition handle_remove_reservation :: handler where
  "handle_remove_reservation env r w =
     (if \<not> rq_form_ok r then (bad_form, w)
      else saved (remove_reservation (we_save env) (field r ''mac'') (w_cfg w)) (SettingsPage NoMsg NoMsg) w)"

definition handle_quick_reserve :: handler where
  "handle_quick_reserve env r w =
     (if \<not> rq_form_ok r then (bad_form, w)
      else (let v = form_reservation r in
        if res_mac v = '''' \<or> res_ip v = ''''
        then (HttpError 400 (Msg ''mac and ip are required''), w)
        else saved_devices (add_reservation (we_save env) v (w_cfg w)) env r w))"

definition handle_quick_remove_reservation :: handler where
  "handle_quick_remove_reservation env r w =
     (if \<not> rq_form_ok r then (bad_form, w)
      else saved_devices (remove_reservation (we_save env) (field r ''mac'') (w_cfg w)) env r w)"

definition handle_quick_remove_lease :: handler where
  "handle_quick_remove_lease env r w =
     (if \<not> rq_form_ok r then (bad_form, w)
      else saved_devices (remove_lease (we_save env) (field r ''mac'') (w_cfg w)) env r w)"

definition handle_quick_remove_discovered :: handler where
  "handle_quick_remove_discovered env r w =
     (if \<not> rq_form_ok r then (bad_form, w)
      else saved_devices (remove_discovered_device (we_save env) (field r ''mac'') (w_cfg w)) env r w)"

definition handle_rename_device :: handler where
  "handle_rename_device env r w =
     (if \<not> rq_form_ok r then (bad_form, w)
      else if field r ''mac'' = '''' then (HttpError 400 (Msg ''mac is required''), w)
      else saved_devices (set_hostname_override (we_save env) (field r ''mac'') (field r ''hostname'') (w_cfg w))
             env r w)"

definition handle_add_dns_record :: handler where
  "handle_add_dns_record env r w =
     (if \<not> rq_form_ok r then (bad_form, w)
      else if field r ''name'' = '''' \<or> field r ''ip'' = ''''
      then (HttpError 400 (Msg ''name and ip are required''), w)
      else saved (add_dns_record (we_save env) \<lparr>rec_name = field r ''name'', rec_ip = field r ''ip''\<rparr> (w_cfg w))
             (SettingsPage NoMsg NoMsg) w)"

definition handle_remove_dns_record :: handler where
  "handle_remove_dns_record env r w =
     (if \<not> rq_form_ok r then (bad_form, w)
      else saved (remove_dns_record (we_save env) (field r ''name'') (w_cfg w)) (SettingsPage NoMsg NoMsg) w)"

definition handle_update_network :: handler where
  "handle_update_network env r w =
     (if \<not> rq_form_ok r then (bad_form, w)
      else (case atoi (field r ''lease_seconds'') of
          (n, False) \<Rightarrow> (HttpError 400 (Msg ''lease_seconds must be a number''), w)
        | (n, True) \<Rightarrow>
            saved (update_global_network (we_save env) (field r ''wan_interface'') (field r ''dns_mode'') n
                (map trim_space (split_on CHR '','' (rq_form r ''upstream_servers''))) (w_cfg w))
              (SettingsPage NoMsg NoMsg) w))"

definition handle_update_sqm :: handler where
  "handle_update_sqm env r w =
     (if \<not> rq_form_ok r then (bad_form, w)
      else (let en = (rq_form r ''sqm_enabled'' \<noteq> '''');
                (down, d_ok) = atoi (field r ''sqm_download_mbit'');
                (up, u_ok) = atoi (field r ''sqm_upload_mbit'') in
        if en \<and> (\<not> d_ok \<or> \<not> u_ok \<or> down \<le> 0 \<or> up \<le> 0)
        then (HttpError 400 (Msg ''download and upload limits must be positive numbers when SQM is enabled''), w)
        else (case update_sqm (we_save env) en down up (w_cfg w) of
            (cfg, Some e) \<Rightarrow> (save_failed, w\<lparr>w_cfg := cfg\<rparr>)
          | (cfg, None) \<Rightarrow>
              (case snd (sqm_apply (we_run env) \<lparr>sq_enabled = en, sq_wan = wan_interface (dat cfg),
                    sq_download_mbit = down, sq_upload_mbit = up\<rparr>) of
                 Some e \<Rightarrow> (SettingsPage (SqmMsg ''Saved, but failed to apply: '' e) NoMsg, w\<lparr>w_cfg := cfg\<rparr>)
               | None \<Rightarrow> (SettingsPage NoMsg (Msg ''Traffic shaping settings applied.''), w\<lparr>w_cfg := cfg\<rparr>)))))"

definition handle_export_config :: handler where
  "handle_export_config env r w = (Download (export_json (w_cfg w)), w)"

definition handle_import_config :: handler where
  "handle_import_config env r w =
     (if \<not> rq_form_ok r then (bad_form, w)
      else (case rq_upload r of
          NoUpload \<Rightarrow> (SettingsPage (Msg ''No file was uploaded.'') NoMsg, w)
        | UnreadableUpload \<Rightarrow> (SettingsPage (Msg ''Failed to read the uploaded file.'') NoMsg, w)
        | Uploaded doc \<Rightarrow>
            (case import_json (we_save env) doc (w_cfg w) of
               (cfg, Some e) \<Rightarrow> (SettingsPage (CfgMsg ''Import failed: '' e) NoMsg, w\<lparr>w_cfg := cfg\<rparr>)
             | (cfg, None) \<Rightarrow> 
                 (SettingsPage NoMsg (Msg ''Config imported. Restart cobweb for segment/DHCP changes to fully take effect.''), w\<lparr>w_cfg := cfg\<rparr>))))"

section \<open>LAN segments\<close>

definition segment_fields :: "lan_segment \<Rightarrow> (string \<times> string) list" where
  "segment_fields g =
     [(''Gateway address'', seg_address g), (''Subnet mask'', seg_subnet_mask g)]
     @ (if seg_dhcp_disabled g then [] else [(''Pool start'', seg_pool_start g), (''Pool end'', seg_pool_end g)])"

definition validate_segment_ips :: "lan_segment \<Rightarrow> segment_error option" where
  "validate_segment_ips g =
     (case find (\<lambda>(l, v). to4 (parse_ip v) = []) (segment_fields g) of
        Some (l, v) \<Rightarrow> Some (BadField l v)
      | None \<Rightarrow>
          if \<not> seg_dhcp_disabled g \<and>
             u32_at (to4 (parse_ip (seg_pool_end g))) 0 < u32_at (to4 (parse_ip (seg_pool_start g))) 0
          then Some (PoolBackwards (seg_pool_start g) (seg_pool_end g)) else None)"

definition form_segment :: "request \<Rightarrow> lan_segment" where
  "form_segment r = \<lparr>seg_id = '''', seg_name = field r ''name'', seg_interface = field r ''interface'',
     seg_address = field r ''address'', seg_subnet_mask = field r ''subnet_mask'',
     seg_pool_start = field r ''pool_start'', seg_pool_end = field r ''pool_end'',
     seg_domain = field r ''domain'', seg_dhcp_disabled = (rq_form r ''dhcp_disabled'' \<noteq> '''')\<rparr>"

definition default_segment :: "lan_segment \<Rightarrow> lan_segment" where
  "default_segment g = g\<lparr>seg_pool_start := or_default (seg_pool_start g) (seg_address g),
     seg_pool_end := or_default (seg_pool_end g) (seg_address g), seg_domain := or_default (seg_domain g) ''lan''\<rparr>"

text \<open>What both segment forms check, and the segment they save.\<close>

definition checked_segment :: "bool \<Rightarrow> lan_segment \<Rightarrow> response + lan_segment" where
  "checked_segment id_missing g =
     (if id_missing \<or> seg_name g = '''' \<or> seg_interface g = '''' \<or> seg_address g = '''' \<or> seg_subnet_mask g = ''''
      then Inl (HttpError 400 (Msg ''name, interface, address, and subnet mask are required''))
      else if \<not> seg_dhcp_disabled g \<and> (seg_pool_start g = '''' \<or> seg_pool_end g = '''')
      then Inl (HttpError 400 (Msg ''pool start and end are required unless DHCP is disabled for this segment''))
      else (let g' = default_segment g in
        case validate_segment_ips g' of
          Some e \<Rightarrow> Inl (HttpError 400 (SegMsg e)) | None \<Rightarrow> Inr g'))"

definition handle_add_lan_segment :: handler where
  "handle_add_lan_segment env r w =
     (if \<not> rq_form_ok r then (bad_form, w)
      else (case checked_segment False (form_segment r) of
          Inl e \<Rightarrow> (e, w)
        | Inr g \<Rightarrow> (case add_lan_segment (we_random env) (we_save env) g (w_cfg w) of (cfg, g', err) \<Rightarrow>
            saved (cfg, err) (SettingsPage NoMsg (Msg ''Segment added. Restart cobweb for its DHCP listener to start.'')) w)))"

definition handle_remove_lan_segment :: handler where
  "handle_remove_lan_segment env r w =
     (if \<not> rq_form_ok r then (bad_form, w)
      else saved (remove_lan_segment (we_save env) (field r ''id'') (w_cfg w))
             (SettingsPage NoMsg (Msg ''Segment removed. Restart cobweb to stop its DHCP listener.'')) w)"

definition handle_update_lan_segment :: handler where
  "handle_update_lan_segment env r w =
     (if \<not> rq_form_ok r then (bad_form, w)
      else (case checked_segment (field r ''id'' = '''') (form_segment r) of
          Inl e \<Rightarrow> (e, w)
        | Inr g \<Rightarrow> saved (update_lan_segment (we_save env) (field r ''id'') g (w_cfg w))
            (SettingsPage NoMsg (Msg ''Segment updated. Restart cobweb for interface/DHCP changes to take effect.'')) w))"

end
