(* ===== verification/Web_Routes.thy ===== *)
theory Web_Routes
  imports Web_Settings
begin

text \<open>
  The firewall panel, \<open>internal/web/firewall.go\<close>, and the routes of the dashboard,
  \<open>Routes\<close>. \<open>nft -f\<close> runs a script as one transaction, so a call that fails leaves
  what is installed alone.
\<close>

section \<open>Pushing a configuration to the kernel\<close>

definition install_action :: "(string \<Rightarrow> string list \<Rightarrow> bool) \<Rightarrow> fw_action \<Rightarrow> string option \<Rightarrow> string option" where
  "install_action nft act k =
     (case act of
        Nft t args \<Rightarrow>
          if args = install_args \<and> nft t args then Some t else k
      | EnableForwarding \<Rightarrow> k)"

definition apply_firewall :: "web_env \<Rightarrow> web \<Rightarrow> fw_error option \<times> web" where
  "apply_firewall env w =
     (case apply_fw (we_nft env) (snapshot (w_cfg w)) of (acts, e) \<Rightarrow>
        (e, w\<lparr>w_kernel := fold (install_action (we_nft env)) acts (w_kernel w)\<rparr>))"

definition apply_if_enabled :: "web_env \<Rightarrow> web \<Rightarrow> fw_error option \<times> web" where
  "apply_if_enabled env w =
     (if \<not> firewall_enabled (snapshot (w_cfg w)) then (None, w) else apply_firewall env w)"

section \<open>The firewall panel\<close>

definition post_field :: "request \<Rightarrow> string \<Rightarrow> string" where
  "post_field r k = trim_space (rq_post_form r k)"

definition fw_enabled_text :: string where
  "fw_enabled_text = ''Firewall enabled. cobweb now manages filtering, NAT and the rules below.''"

definition fw_disabled_text :: string where
  "fw_disabled_text =
     ''Firewall disabled and cobweb's nftables tables removed. Other tables on this box are untouched - '' @
     ''if you retired your old ruleset, nothing is doing NAT right now until you re-enable this or load one.''"

definition handle_firewall_toggle :: handler where
  "handle_firewall_toggle env r w =
     (if \<not> rq_form_ok r then (bad_form, w)
      else (let enable = (rq_post_form r ''enabled'' = ''1'') in
        case set_firewall_enabled (we_save env) enable (w_cfg w) of
          (cfg, Some e) \<Rightarrow> (save_failed, w\<lparr>w_cfg := cfg\<rparr>)
        | (cfg, None) \<Rightarrow>
            (case apply_firewall env (w\<lparr>w_cfg := cfg\<rparr>) of
               (Some e, w1) \<Rightarrow>
                 if enable then
                   (FirewallPage 200 (FwMsg ''Not enabled - nothing was changed. '' e) NoMsg,
                    w1\<lparr>w_cfg := fst (set_firewall_enabled (we_save2 env) False (w_cfg w1))\<rparr>)
                 else (FirewallPage 200 (FwMsg ''Saved as off, but removing cobweb's nftables tables failed: '' e) NoMsg, w1)
             | (None, w1) \<Rightarrow>
                 (FirewallPage 200 NoMsg (Msg (if enable then fw_enabled_text else fw_disabled_text)), w1))))"

definition form_rule :: "request \<Rightarrow> port_rule" where
  "form_rule r =
     (let kind = to_lower (post_field r ''kind''); inp = (kind = ''input'') in
      \<lparr>rule_id = '''', rule_name = post_field r ''name'', rule_kind = kind,
       rule_protocol = to_lower (post_field r ''protocol''), rule_port = post_field r ''port'',
       rule_to_ip = (if inp then '''' else post_field r ''to_ip''),
       rule_to_port = (if inp then '''' else post_field r ''to_port''),
       rule_source = post_field r ''source'', rule_disabled = False\<rparr>)"

definition named_rule :: "port_rule \<Rightarrow> port_rule" where
  "named_rule v = (if rule_name v = ''''
     then v\<lparr>rule_name := rule_kind v @ '' '' @ rule_port v @ '' '' @ rule_protocol v\<rparr> else v)"

definition handle_firewall_add_rule :: handler where
  "handle_firewall_add_rule env r w =
     (if \<not> rq_form_ok r then (bad_form, w)
      else (let v = form_rule r in
        case validate_rule v (lan_segments (snapshot (w_cfg w))) of
          Some e \<Rightarrow> (FirewallPage 400 (FwMsg ''Rule not added: '' e) NoMsg, w)
        | None \<Rightarrow>
            (case add_port_rule (we_random env) (we_save env) (named_rule v) (w_cfg w) of
               (cfg, added, Some e) \<Rightarrow> (save_failed, w\<lparr>w_cfg := cfg\<rparr>)
             | (cfg, added, None) \<Rightarrow>
                 (case apply_if_enabled env (w\<lparr>w_cfg := cfg\<rparr>) of
                    (Some e, w1) \<Rightarrow>
                      (FirewallPage 200 (FwMsg ''Rule not added - applying it failed and nothing was changed. '' e) NoMsg,
                       w1\<lparr>w_cfg := fst (remove_port_rule (we_save2 env) (rule_id added) (w_cfg w1))\<rparr>)
                  | (None, w1) \<Rightarrow>
                      (FirewallPage 200 NoMsg (Msg (if firewall_enabled (snapshot (w_cfg w1))
                         then ''Rule added and applied.'' else ''Rule saved. It takes effect once the firewall is enabled.'')), w1)))))"

definition handle_firewall_remove_rule :: handler where
  "handle_firewall_remove_rule env r w =
     (if \<not> rq_form_ok r then (bad_form, w)
      else (case remove_port_rule (we_save env) (post_field r ''id'') (w_cfg w) of
          (cfg, Some e) \<Rightarrow> (save_failed, w\<lparr>w_cfg := cfg\<rparr>)
        | (cfg, None) \<Rightarrow>
            (case apply_if_enabled env (w\<lparr>w_cfg := cfg\<rparr>) of
               (Some e, w1) \<Rightarrow>
                 (FirewallPage 200 (FwMsg ''Rule removed from the config, but applying the change failed: '' e) NoMsg, w1)
             | (None, w1) \<Rightarrow> (FirewallPage 200 NoMsg (Msg ''Rule removed.''), w1))))"

definition handle_firewall_toggle_rule :: handler where
  "handle_firewall_toggle_rule env r w =
     (if \<not> rq_form_ok r then (bad_form, w)
      else (let i = post_field r ''id''; disable = (rq_post_form r ''disabled'' = ''1'') in
        case set_port_rule_disabled (we_save env) i disable (w_cfg w) of
          (cfg, Some e) \<Rightarrow> (FirewallPage 400 (CfgMsg '''' e) NoMsg, w\<lparr>w_cfg := cfg\<rparr>)
        | (cfg, None) \<Rightarrow>
            (case apply_if_enabled env (w\<lparr>w_cfg := cfg\<rparr>) of
               (Some e, w1) \<Rightarrow>
                 (FirewallPage 200 (FwMsg ''Not changed - applying it failed and nothing was changed. '' e) NoMsg,
                  w1\<lparr>w_cfg := fst (set_port_rule_disabled (we_save2 env) i (\<not> disable) (w_cfg w1))\<rparr>)
             | (None, w1) \<Rightarrow>
                 (FirewallPage 200 NoMsg (Msg (if disable then ''Rule turned off.'' else ''Rule turned on.'')), w1))))"

definition form_interfaces :: "request \<Rightarrow> string \<Rightarrow> string list" where
  "form_interfaces r k = fields_by ('','' # go_spaces) (rq_post_form r k) []"

definition docker_text :: "bool \<Rightarrow> bool \<Rightarrow> string" where
  "docker_text fw en =
     (if \<not> fw then ''Docker settings saved. They take effect once the firewall is enabled.''
      else if en then ''Docker containers are now allowed through and the change is live.''
      else ''Docker containers are no longer given a path through the firewall.'')"

definition handle_firewall_docker :: handler where
  "handle_firewall_docker env r w =
     (if \<not> rq_form_ok r then (bad_form, w)
      else (let en = (rq_post_form r ''docker_enabled'' = ''1''); ifaces = form_interfaces r ''docker_interfaces'';
                source = post_field r ''docker_wan_source''; prev = snapshot (w_cfg w);
                candidate = prev\<lparr>docker_enabled := en, docker_interfaces := ifaces, docker_wan_source := source\<rparr> in
        case validate_docker candidate of
          Some e \<Rightarrow> (FirewallPage 400 (FwMsg ''Docker settings not saved: '' e) NoMsg, w)
        | None \<Rightarrow>
            (case set_docker (we_save env) en ifaces source (w_cfg w) of
               (cfg, Some e) \<Rightarrow> (save_failed, w\<lparr>w_cfg := cfg\<rparr>)
             | (cfg, None) \<Rightarrow>
                 (case apply_if_enabled env (w\<lparr>w_cfg := cfg\<rparr>) of
                    (Some e, w1) \<Rightarrow>
                      (FirewallPage 200 (FwMsg ''Docker settings not changed - applying them failed and nothing was changed. '' e) NoMsg,
                       w1\<lparr>w_cfg := fst (set_docker (we_save2 env) (docker_enabled prev) (docker_interfaces prev)
                         (docker_wan_source prev) (w_cfg w1))\<rparr>)
                  | (None, w1) \<Rightarrow> (FirewallPage 200 NoMsg (Msg (docker_text (firewall_enabled (snapshot (w_cfg w1))) en)), w1)))))"

definition trusted_text :: "bool \<Rightarrow> string list \<Rightarrow> string" where
  "trusted_text fw ifaces =
     (if \<not> fw then ''VPN settings saved. They take effect once the firewall is enabled.''
      else if ifaces \<noteq> [] then ''VPN interfaces are now trusted and the change is live.''
      else ''No interfaces are trusted any more.'')"

definition handle_firewall_trusted :: handler where
  "handle_firewall_trusted env r w =
     (if \<not> rq_form_ok r then (bad_form, w)
      else (let ifaces = form_interfaces r ''trusted_interfaces''; prev = snapshot (w_cfg w) in
        case validate_trusted (prev\<lparr>trusted_interfaces := ifaces\<rparr>) of
          Some e \<Rightarrow> (FirewallPage 400 (FwMsg ''VPN settings not saved: '' e) NoMsg, w)
        | None \<Rightarrow>
            (case set_trusted_interfaces (we_save env) ifaces (w_cfg w) of
               (cfg, Some e) \<Rightarrow> (save_failed, w\<lparr>w_cfg := cfg\<rparr>)
             | (cfg, None) \<Rightarrow>
                 (case apply_if_enabled env (w\<lparr>w_cfg := cfg\<rparr>) of
                    (Some e, w1) \<Rightarrow>
                      (FirewallPage 200 (FwMsg ''VPN settings not changed - applying them failed and nothing was changed. '' e) NoMsg,
                       w1\<lparr>w_cfg := fst (set_trusted_interfaces (we_save2 env) (trusted_interfaces prev) (w_cfg w1))\<rparr>)
                  | (None, w1) \<Rightarrow> (FirewallPage 200 NoMsg (Msg (trusted_text (firewall_enabled (snapshot (w_cfg w1))) ifaces)), w1)))))"

section \<open>Routes\<close>

text \<open>Pages that only show something.\<close>

definition handle_dashboard :: handler where
  "handle_dashboard env r w =
     (if rq_path r \<noteq> ''/'' then (NotFound, w) else (DashboardPage (lan_segments (snapshot (w_cfg w))), w))"

definition handle_settings_page :: handler where
  "handle_settings_page env r w = (SettingsPage NoMsg NoMsg, w)"

definition handle_arp_diagnostics :: handler where
  "handle_arp_diagnostics env r w = (ArpPage (arp_diagnostics (we_files env) (snapshot (w_cfg w))), w)"

definition handle_interfaces_fragment :: handler where
  "handle_interfaces_fragment env r w =
     (InterfacesPage (interfaces_fragment (we_files env) (we_addrs env) (we_status env) (snapshot (w_cfg w))), w)"

definition handle_performance_fragment :: handler where
  "handle_performance_fragment env r w =
     (PerformancePage (performance_fragment (we_files env) (we_cache env) (we_mem env) (snapshot (w_cfg w))), w)"

definition routes :: "(string \<times> handler) list" where
  "routes = [
     (''/login'', handle_login), (''/logout'', handle_logout),
     (''/settings'', require_auth handle_settings_page),
     (''/diagnostics/arp'', require_auth handle_arp_diagnostics),
     (''/fragments/devices'', require_auth handle_devices_fragment),
     (''/fragments/interfaces'', require_auth handle_interfaces_fragment),
     (''/fragments/performance'', require_auth handle_performance_fragment),
     (''/api/reservations/add'', mutating handle_add_reservation),
     (''/api/reservations/remove'', mutating handle_remove_reservation),
     (''/api/reservations/quickadd'', mutating handle_quick_reserve),
     (''/api/reservations/quickremove'', mutating handle_quick_remove_reservation),
     (''/api/leases/quickremove'', mutating handle_quick_remove_lease),
     (''/api/discovered/quickremove'', mutating handle_quick_remove_discovered),
     (''/api/devices/rename'', mutating handle_rename_device),
     (''/api/dns/add'', mutating handle_add_dns_record),
     (''/api/dns/remove'', mutating handle_remove_dns_record),
     (''/api/network/update'', mutating handle_update_network),
     (''/api/sqm/update'', mutating handle_update_sqm),
     (''/api/firewall/toggle'', mutating handle_firewall_toggle),
     (''/api/firewall/rules/add'', mutating handle_firewall_add_rule),
     (''/api/firewall/rules/remove'', mutating handle_firewall_remove_rule),
     (''/api/firewall/rules/toggle'', mutating handle_firewall_toggle_rule),
     (''/api/firewall/docker'', mutating handle_firewall_docker),
     (''/api/firewall/trusted'', mutating handle_firewall_trusted),
     (''/api/segments/add'', mutating handle_add_lan_segment),
     (''/api/segments/update'', mutating handle_update_lan_segment),
     (''/api/segments/remove'', mutating handle_remove_lan_segment),
     (''/api/config/export'', require_auth handle_export_config),
     (''/api/config/import'', mutating handle_import_config),
     (''/api/account/update'', mutating handle_account_update)]"

text \<open>One request: the handler of its path, or the dashboard behind the pattern \<open>/\<close>.\<close>

definition web_serve :: handler where
  "web_serve env r w =
     (case map_of routes (rq_path r) of
        Some h \<Rightarrow> h env r w | None \<Rightarrow> require_auth handle_dashboard env r w)"

text \<open>A request answered, with the state it was answered in.\<close>

record exchange =
  ex_env :: web_env
  ex_request :: request
  ex_state :: web
  ex_response :: response

fun web_run :: "(web_env \<times> request) list \<Rightarrow> web \<Rightarrow> exchange list \<times> web" where
  "web_run [] w = ([], w)"
| "web_run ((env, r) # rs) w =
     (case web_serve env r w of (resp, w1) \<Rightarrow> case web_run rs w1 of (log, w2) \<Rightarrow>
        (\<lparr>ex_env = env, ex_request = r, ex_state = w, ex_response = resp\<rparr> # log, w2))"

end
