(* ===== verification/Web_Claims.thy ===== *)
theory Web_Claims
  imports Web_Routes
begin

text \<open>
  Properties of login and of the dashboard: a stored password opens the door it should, no
  change without a login, the segments the dashboard accepts, and the firewall panel against
  the kernel.
\<close>

section \<open>Passwords\<close>

lemma verify_set_password:
  assumes "set_password (Some salt) io user pw s = (s', e)"
  shows "verify u p s' \<longleftrightarrow> u = user \<and>
    pbkdf2 (bytes_of_str p) salt 210000 32 = pbkdf2 (bytes_of_str pw) salt 210000 32"
proof -
  have "au_creds s' = \<lparr>cr_username = user, cr_iterations = pbkdf2_iterations, cr_salt = encode_std salt,
      cr_hash = encode_std (pbkdf2 (bytes_of_str pw) salt pbkdf2_iterations hash_len)\<rparr>"
    using assms by (cases io) (auto simp: set_password_def auth_save_def)
  then show ?thesis by (auto simp: verify_def Let_def pbkdf2_iterations_def hash_len_def)
qed

text \<open>C23: After a password is set, login succeeds for that user and password, and otherwise only
  for the same user with a password that derives the same key; if no error was reported, the
  same holds after a restart from the file, which never holds the password itself.\<close>

theorem password_roundtrip:
  assumes "set_password (Some salt) io user pw s = (s', e)"
  shows "verify user pw s' \<and>
    (\<forall>u p. verify u p s' \<longleftrightarrow> u = user \<and>
       pbkdf2 (bytes_of_str p) salt 210000 32 = pbkdf2 (bytes_of_str pw) salt 210000 32) \<and>
    (e = None \<longrightarrow> (\<exists>c. au_disk s' = Some c \<and> auth_load rnd io' (CredsFile c) = Inr s'))"
proof (intro conjI allI impI)
  show "verify user pw s'" using verify_set_password [OF assms] by simp
  show "verify u p s' \<longleftrightarrow> u = user \<and>
       pbkdf2 (bytes_of_str p) salt 210000 32 = pbkdf2 (bytes_of_str pw) salt 210000 32" for u p
    by (rule verify_set_password [OF assms])
  assume "e = None"
  with assms have "au_disk s' = Some (au_creds s')"
    by (cases io) (auto simp: set_password_def auth_save_def)
  then show "\<exists>c. au_disk s' = Some c \<and> auth_load rnd io' (CredsFile c) = Inr s'"
    by (intro exI [of _ "au_creds s'"]) (simp add: auth_load_def)
qed

definition ex_auth :: auth_store where
  "ex_auth = \<lparr>au_creds = no_credentials, au_disk = None\<rparr>"

theorem password_roundtrip_witness:
  "\<exists>s' e. set_password (Some (replicate 16 7)) IoOk ''admin'' ''s3cret-pw'' ex_auth = (s', e) \<and>
     verify ''admin'' ''s3cret-pw'' s' \<and> \<not> verify ''root'' ''s3cret-pw'' s'"
proof -
  obtain s' e where s: "set_password (Some (replicate 16 7)) IoOk ''admin'' ''s3cret-pw'' ex_auth = (s', e)"
    by fastforce
  note v = password_roundtrip [OF s]
  from v have "verify ''admin'' ''s3cret-pw'' s'" by blast
  moreover have "\<not> verify ''root'' ''s3cret-pw'' s'" using v by simp
  ultimately show ?thesis using s by blast
qed

text \<open>A credentials file that parses but lacks its fields lets anybody in: with an empty
  stored hash every password is accepted, because a key of length zero is compared.\<close>

theorem empty_hash_opens:
  assumes "cr_hash (au_creds s) = ''''" "decode_std (cr_salt (au_creds s)) \<noteq> None"
  shows "verify (cr_username (au_creds s)) password s"
proof -
  have "decode_std '''' = Some []" by (simp add: decode_std_def)
  moreover have "pbkdf2 p t i 0 = []" for p t i by (metis length_0_conv length_pbkdf2)
  ultimately show ?thesis using assms by (auto simp: verify_def Let_def)
qed

theorem empty_hash_opens_witness:
  "\<exists>s. auth_load None IoOk (CredsFile no_credentials) = Inr s \<and> verify '''' ''anything'' s"
proof -
  let ?s = "\<lparr>au_creds = no_credentials, au_disk = Some no_credentials\<rparr>"
  have "cr_hash (au_creds ?s) = ''''" "decode_std (cr_salt (au_creds ?s)) \<noteq> None"
    by (simp_all add: no_credentials_def decode_std_def)
  from empty_hash_opens [OF this, of "''anything''"] show ?thesis
    by (intro exI [of _ ?s]) (simp add: auth_load_def no_credentials_def)
qed

section \<open>No change without a login\<close>

text \<open>What a request may change: the configuration, the credentials, the installed rule set.\<close>

definition changes :: "web \<Rightarrow> web \<Rightarrow> bool" where
  "changes w w' \<longleftrightarrow> w_cfg w' \<noteq> w_cfg w \<or> w_creds w' \<noteq> w_creds w \<or> w_kernel w' \<noteq> w_kernel w"

definition authorised :: "web_env \<Rightarrow> request \<Rightarrow> web \<Rightarrow> bool" where
  "authorised env r w \<longleftrightarrow> (\<exists>tok e. rq_cookie r = Some tok \<and> sm_sessions (w_sessions w) tok = Some e \<and>
     we_now env \<le> e)"

lemma require_auth_changes:
  assumes "require_auth h env r w = (resp, w')" "changes w w'"
  shows "authorised env r w \<and> (\<exists>w1. h env r w1 = (resp, w') \<and> changes w1 w')"
proof (cases "rq_cookie r")
  case None
  with assms show ?thesis by (simp add: require_auth_def changes_def)
next
  case (Some tok)
  obtain ok sm where v: "session_valid (we_now env) tok (w_sessions w) = (ok, sm)" by fastforce
  with Some assms have ok and h: "h env r (w\<lparr>w_sessions := sm\<rparr>) = (resp, w')"
    by (auto simp: require_auth_def changes_def Let_def split: if_splits)
  have "authorised env r w"
    using \<open>ok\<close> v Some session_valid_iff [of "we_now env" tok "w_sessions w"] by (auto simp: authorised_def)
  moreover have "changes (w\<lparr>w_sessions := sm\<rparr>) w'" using assms(2) by (simp add: changes_def)
  ultimately show ?thesis using h by blast
qed

lemma mutating_changes:
  assumes "mutating h env r w = (resp, w')" "changes w w'"
  shows "authorised env r w \<and> rq_method r = ''POST''"
  using require_auth_changes [OF assms [unfolded mutating_def]]
  by (auto simp: require_post_def changes_def split: if_splits)

text \<open>A handler behind the guards: it leaves the sessions and the throttle alone, and neither
  logs in, nor refuses a password, nor logs out.\<close>

fun session_response :: "response \<Rightarrow> bool" where
  "session_response (LoggedIn tok e) = True"
| "session_response LoggedOut = True"
| "session_response (Redirect l) = (l = ''/login?error=1'')"
| "session_response _ = False"

definition plain_handler :: "handler \<Rightarrow> bool" where
  "plain_handler h \<longleftrightarrow> (\<forall>env r w. w_sessions (snd (h env r w)) = w_sessions w \<and>
     w_throttle (snd (h env r w)) = w_throttle w \<and> \<not> session_response (fst (h env r w)))"

lemma plain_handlerI:
  "(\<And>env r w. w_sessions (snd (h env r w)) = w_sessions w \<and>
      w_throttle (snd (h env r w)) = w_throttle w \<and> \<not> session_response (fst (h env r w))) \<Longrightarrow>
   plain_handler h"
  by (simp add: plain_handler_def)

lemma plain_saved:
  "w_sessions (snd (saved res page w)) = w_sessions w"
  "w_throttle (snd (saved res page w)) = w_throttle w"
  "\<not> session_response page \<Longrightarrow> \<not> session_response (fst (saved res page w))"
  by (simp_all add: saved_def save_failed_def split: prod.split option.split)

lemma plain_devices: "plain_handler handle_devices_fragment"
  by (rule plain_handlerI) (simp add: handle_devices_fragment_def Let_def split: prod.split)

lemma plain_saved_devices:
  "w_sessions (snd (saved_devices res env r w)) = w_sessions w"
  "w_throttle (snd (saved_devices res env r w)) = w_throttle w"
  "\<not> session_response (fst (saved_devices res env r w))"
  using plain_devices
  by (auto simp: saved_devices_def save_failed_def plain_handler_def split: prod.split option.split)

lemmas plain_simps = plain_saved plain_saved_devices bad_form_def save_failed_def Let_def

lemma plain_settings_handlers:
  "plain_handler handle_add_reservation" "plain_handler handle_remove_reservation"
  "plain_handler handle_quick_reserve" "plain_handler handle_quick_remove_reservation"
  "plain_handler handle_quick_remove_lease" "plain_handler handle_quick_remove_discovered"
  "plain_handler handle_rename_device" "plain_handler handle_add_dns_record"
  "plain_handler handle_remove_dns_record" "plain_handler handle_remove_lan_segment"
  "plain_handler handle_export_config"
  by (rule plain_handlerI, simp add: plain_simps handle_add_reservation_def handle_remove_reservation_def
      handle_quick_reserve_def handle_quick_remove_reservation_def handle_quick_remove_lease_def
      handle_quick_remove_discovered_def handle_rename_device_def handle_add_dns_record_def
      handle_remove_dns_record_def handle_remove_lan_segment_def handle_export_config_def)+

lemma plain_update_network: "plain_handler handle_update_network"
  by (rule plain_handlerI) (simp add: plain_simps handle_update_network_def split: prod.split bool.split)

lemma plain_update_sqm: "plain_handler handle_update_sqm"
  by (rule plain_handlerI) (simp add: plain_simps handle_update_sqm_def split: prod.split option.split)

lemma plain_import: "plain_handler handle_import_config"
  by (rule plain_handlerI)
     (simp add: plain_simps handle_import_config_def split: prod.split option.split upload.split)

lemma checked_segment_error: "checked_segment b g = Inl e \<Longrightarrow> \<not> session_response e"
  by (auto simp: checked_segment_def Let_def split: if_splits option.splits)

lemma plain_segments: "plain_handler handle_add_lan_segment" "plain_handler handle_update_lan_segment"
  by (rule plain_handlerI,
      simp add: plain_simps handle_add_lan_segment_def handle_update_lan_segment_def checked_segment_error
        split: sum.split prod.split)+

lemma plain_account: "plain_handler handle_account_update"
  by (rule plain_handlerI) (simp add: plain_simps handle_account_update_def split: prod.split option.split)

lemma plain_apply_firewall:
  "w_sessions (snd (apply_firewall env w)) = w_sessions w"
  "w_sessions (snd (apply_if_enabled env w)) = w_sessions w"
  "w_throttle (snd (apply_firewall env w)) = w_throttle w"
  "w_throttle (snd (apply_if_enabled env w)) = w_throttle w"
  by (simp_all add: apply_firewall_def apply_if_enabled_def split: prod.split)

lemma apply_keeps_sessions:
  "apply_firewall env w = (e, w1) \<Longrightarrow> w_sessions w1 = w_sessions w \<and> w_throttle w1 = w_throttle w"
  "apply_if_enabled env w = (e, w1) \<Longrightarrow> w_sessions w1 = w_sessions w \<and> w_throttle w1 = w_throttle w"
  using plain_apply_firewall [of env w] by simp_all

lemma plain_firewall_handlers:
  "plain_handler handle_firewall_toggle" "plain_handler handle_firewall_add_rule"
  "plain_handler handle_firewall_remove_rule" "plain_handler handle_firewall_toggle_rule"
  "plain_handler handle_firewall_docker" "plain_handler handle_firewall_trusted"
  by (rule plain_handlerI, auto simp: plain_simps handle_firewall_toggle_def handle_firewall_add_rule_def
      handle_firewall_remove_rule_def handle_firewall_toggle_rule_def handle_firewall_docker_def
      handle_firewall_trusted_def dest: apply_keeps_sessions split: prod.split option.split)+

lemmas page_defs = handle_settings_page_def handle_dashboard_def handle_arp_diagnostics_def
  handle_interfaces_fragment_def handle_performance_fragment_def handle_export_config_def

lemma plain_pages:
  "plain_handler handle_settings_page" "plain_handler handle_dashboard" "plain_handler handle_arp_diagnostics"
  "plain_handler handle_interfaces_fragment" "plain_handler handle_performance_fragment"
  by (simp_all add: plain_handler_def page_defs)

lemmas plain_handlers = plain_devices plain_settings_handlers plain_update_network plain_update_sqm plain_import
  plain_segments plain_account plain_firewall_handlers plain_pages

text \<open>The reference for the session table: what the exchanges so far say about logins.\<close>

definition login_effect :: "request \<Rightarrow> response \<Rightarrow> (string \<rightharpoonup> int) \<Rightarrow> (string \<rightharpoonup> int)" where
  "login_effect r resp m =
     (case resp of
        LoggedIn tok e \<Rightarrow> m(tok \<mapsto> e)
      | LoggedOut \<Rightarrow> (case rq_cookie r of None \<Rightarrow> m | Some tok \<Rightarrow> m(tok := None))
      | _ \<Rightarrow> m)"

definition live_logins :: "exchange list \<Rightarrow> (string \<rightharpoonup> int)" where
  "live_logins log = fold (\<lambda>x. login_effect (ex_request x) (ex_response x)) log Map.empty"

definition proper_login :: "exchange \<Rightarrow> bool" where
  "proper_login x \<longleftrightarrow> rq_path (ex_request x) = ''/login'' \<and>
     verify (rq_form (ex_request x) ''username'') (rq_form (ex_request x) ''password'') (w_creds (ex_state x))"

text \<open>What every route promises.\<close>

definition route_ok :: "string \<Rightarrow> handler \<Rightarrow> bool" where
  "route_ok p h \<longleftrightarrow> (\<forall>env r w resp w'. h env r w = (resp, w') \<longrightarrow>
     sm_sessions (w_sessions w') \<subseteq>\<^sub>m login_effect r resp (sm_sessions (w_sessions w)) \<and>
     (\<forall>tok e. resp = LoggedIn tok e \<longrightarrow>
        p = ''/login'' \<and> verify (rq_form r ''username'') (rq_form r ''password'') (w_creds w)) \<and>
     (changes w w' \<longrightarrow> authorised env r w \<and> (rq_method r = ''POST'' \<or> p = ''/fragments/devices'')))"

lemma login_effect_plain: "\<not> session_response resp \<Longrightarrow> login_effect r resp m = m"
  by (cases resp) (simp_all add: login_effect_def)

lemma login_effect_mono: "m \<subseteq>\<^sub>m m' \<Longrightarrow> login_effect r resp m \<subseteq>\<^sub>m login_effect r resp m'"
  by (auto simp: login_effect_def map_le_def split: response.splits option.splits)

lemma session_valid_le: "sm_sessions (snd (session_valid now t sm)) \<subseteq>\<^sub>m sm_sessions sm"
  using sessions_valid_shrinks [of now t sm] by (auto simp: map_le_def dom_def)

lemma require_auth_sessions:
  assumes "plain_handler h" "require_auth h env r w = (resp, w')"
  shows "sm_sessions (w_sessions w') \<subseteq>\<^sub>m sm_sessions (w_sessions w) \<and> \<not> session_response resp"
proof (cases "rq_cookie r")
  case None
  with assms show ?thesis by (auto simp: require_auth_def)
next
  case (Some tok)
  obtain ok sm where v: "session_valid (we_now env) tok (w_sessions w) = (ok, sm)" by fastforce
  then have le: "sm_sessions sm \<subseteq>\<^sub>m sm_sessions (w_sessions w)"
    using session_valid_le [of "we_now env" tok "w_sessions w"] by simp
  note h = assms(1) [unfolded plain_handler_def, rule_format, of env r "w\<lparr>w_sessions := sm\<rparr>"]
  from assms(2) h le v Some show ?thesis
    by (cases ok) (auto simp: require_auth_def Let_def)
qed

lemma plain_require_post: "plain_handler h \<Longrightarrow> plain_handler (require_post h)"
  by (simp add: plain_handler_def require_post_def)

lemma route_ok_auth:
  assumes "plain_handler h"
    and "\<And>env r w resp w'. require_auth h env r w = (resp, w') \<Longrightarrow> changes w w' \<Longrightarrow>
           rq_method r = ''POST'' \<or> p = ''/fragments/devices''"
  shows "route_ok p (require_auth h)"
  unfolding route_ok_def
proof (intro allI impI)
  fix env r w resp w' assume e: "require_auth h env r w = (resp, w')"
  note s = require_auth_sessions [OF assms(1) e]
  have "login_effect r resp m = m" for m using s by (simp add: login_effect_plain)
  moreover have "changes w w' \<Longrightarrow> authorised env r w" using require_auth_changes [OF e] by blast
  ultimately show "sm_sessions (w_sessions w') \<subseteq>\<^sub>m login_effect r resp (sm_sessions (w_sessions w)) \<and>
     (\<forall>tok e. resp = LoggedIn tok e \<longrightarrow>
        p = ''/login'' \<and> verify (rq_form r ''username'') (rq_form r ''password'') (w_creds w)) \<and>
     (changes w w' \<longrightarrow> authorised env r w \<and> (rq_method r = ''POST'' \<or> p = ''/fragments/devices''))"
    using s assms(2) [OF e] by auto
qed

lemma route_ok_mutating: "plain_handler h \<Longrightarrow> route_ok p (mutating h)"
  unfolding mutating_def
  by (rule route_ok_auth) (use mutating_changes [unfolded mutating_def] in \<open>blast intro: plain_require_post\<close>)+

text \<open>A page that changes nothing behind the login.\<close>

lemma route_ok_page:
  assumes "plain_handler h" "\<And>env r w. \<not> changes w (snd (h env r w))"
  shows "route_ok p (require_auth h)"
  using assms(1)
proof (rule route_ok_auth)
  fix env r w resp w' assume e: "require_auth h env r w = (resp, w')" and c: "changes w w'"
  obtain w1 where "h env r w1 = (resp, w')" "changes w1 w'" using require_auth_changes [OF e c] by blast
  with assms(2) [of w1 env r] show "rq_method r = ''POST'' \<or> p = ''/fragments/devices''" by simp
qed

lemma unchanged_pages:
  "\<not> changes w (snd (handle_settings_page env r w))" "\<not> changes w (snd (handle_dashboard env r w))"
  "\<not> changes w (snd (handle_arp_diagnostics env r w))" "\<not> changes w (snd (handle_interfaces_fragment env r w))"
  "\<not> changes w (snd (handle_performance_fragment env r w))" "\<not> changes w (snd (handle_export_config env r w))"
  by (simp_all add: changes_def page_defs)

lemma route_ok_login: "route_ok ''/login'' handle_login"
proof -
  have get: "sm_sessions (w_sessions (snd (login_get env r w))) \<subseteq>\<^sub>m sm_sessions (w_sessions w) \<and>
      \<not> changes w (snd (login_get env r w)) \<and> \<not> session_response (fst (login_get env r w))" for env r w
    using session_valid_le [of "we_now env" _ "w_sessions w"]
    by (auto simp: login_get_def Let_def changes_def split: option.split prod.split if_splits)
       (metis snd_conv)+
  have post: "sm_sessions (w_sessions w') \<subseteq>\<^sub>m login_effect r resp (sm_sessions (w_sessions w)) \<and>
      \<not> changes w w' \<and> (\<forall>tok e. resp = LoggedIn tok e \<longrightarrow>
        verify (rq_form r ''username'') (rq_form r ''password'') (w_creds w))"
    if "login_post env r w = (resp, w')" for env r w resp w'
    using that
    by (auto simp: login_post_def Let_def changes_def login_effect_def session_create_def session_ttl_def
        split: if_splits prod.splits option.splits)
  have "login_effect r resp m = m" if "login_get env r w = (resp, w')" for env r w resp w' m
    using get [of env r w] that by (simp add: login_effect_plain)
  with get post show ?thesis unfolding route_ok_def handle_login_def
    by (metis (no_types, lifting) fst_conv session_response.simps(1) snd_conv)
qed

lemma route_ok_logout: "route_ok ''/logout'' handle_logout"
  by (auto simp: route_ok_def handle_logout_def login_effect_def session_revoke_def changes_def
      split: option.splits)

lemma routes_ok: "list_all (\<lambda>(p, h). route_ok p h) routes"
proof -
  have dev: "route_ok ''/fragments/devices'' (require_auth handle_devices_fragment)"
    by (rule route_ok_auth) (simp_all add: plain_handlers)
  have "route_ok p (require_auth handle_settings_page)" "route_ok p (require_auth handle_export_config)"
      "route_ok p (require_auth handle_arp_diagnostics)" "route_ok p (require_auth handle_interfaces_fragment)"
      "route_ok p (require_auth handle_performance_fragment)" for p
    by (rule route_ok_page; simp add: plain_handlers unchanged_pages)+
  with dev show ?thesis
    by (simp add: routes_def route_ok_login route_ok_logout route_ok_mutating plain_handlers)
qed

lemma web_serve_ok:
  assumes "web_serve env r w = (resp, w')"
  shows "\<exists>h. route_ok (rq_path r) h \<and> h env r w = (resp, w')"
proof (cases "map_of routes (rq_path r)")
  case None
  have "route_ok (rq_path r) (require_auth handle_dashboard)"
    by (rule route_ok_page) (simp_all add: plain_handlers unchanged_pages)
  with None assms show ?thesis by (auto simp: web_serve_def)
next
  case (Some h)
  then have "route_ok (rq_path r) h"
    using routes_ok map_of_SomeD [OF Some] by (auto simp: list_all_iff)
  with Some assms show ?thesis by (auto simp: web_serve_def)
qed

lemma web_run_sessions:
  "web_run reqs w = (log, w') \<Longrightarrow> sm_sessions (w_sessions w) \<subseteq>\<^sub>m m \<Longrightarrow>
   sm_sessions (w_sessions w') \<subseteq>\<^sub>m fold (\<lambda>x. login_effect (ex_request x) (ex_response x)) log m"
proof (induction reqs w arbitrary: log w' m rule: web_run.induct)
  case (2 env r rs w)
  obtain resp w1 where s: "web_serve env r w = (resp, w1)" by fastforce
  obtain log' w2 where t: "web_run rs w1 = (log', w2)" by fastforce
  from web_serve_ok [OF s] have "sm_sessions (w_sessions w1) \<subseteq>\<^sub>m login_effect r resp (sm_sessions (w_sessions w))"
    unfolding route_ok_def by blast
  with 2(3) have "sm_sessions (w_sessions w1) \<subseteq>\<^sub>m login_effect r resp m"
    by (meson login_effect_mono map_le_trans)
  from 2(1) [OF s [symmetric] t this] 2(2) s t show ?case by auto
qed simp

lemma web_run_logins:
  "web_run reqs w = (log, w') \<Longrightarrow> x \<in> set log \<Longrightarrow> ex_response x = LoggedIn tok e \<Longrightarrow> proper_login x"
proof (induction reqs w arbitrary: log w' rule: web_run.induct)
  case (2 env r rs w)
  obtain resp w1 where s: "web_serve env r w = (resp, w1)" by fastforce
  obtain log' w2 where t: "web_run rs w1 = (log', w2)" by fastforce
  from 2(2,3) s t have "x = \<lparr>ex_env = env, ex_request = r, ex_state = w, ex_response = resp\<rparr> \<or> x \<in> set log'"
    by auto
  then show ?case
  proof
    assume x: "x = \<lparr>ex_env = env, ex_request = r, ex_state = w, ex_response = resp\<rparr>"
    with 2(4) web_serve_ok [OF s] s show ?thesis by (auto simp: route_ok_def proper_login_def)
  next
    assume "x \<in> set log'"
    from 2(1) [OF s [symmetric] t this 2(4)] show ?thesis .
  qed
qed simp

lemma fold_login_source:
  "fold (\<lambda>x. login_effect (ex_request x) (ex_response x)) log m tok = Some e \<Longrightarrow>
   m tok = Some e \<or> (\<exists>x \<in> set log. ex_response x = LoggedIn tok e)"
proof (induction log arbitrary: m)
  case (Cons x log)
  have "login_effect (ex_request x) (ex_response x) m tok = Some e \<Longrightarrow>
      m tok = Some e \<or> ex_response x = LoggedIn tok e"
    by (auto simp: login_effect_def split: response.splits option.splits if_splits)
  with Cons show ?case by fastforce
qed simp

text \<open>C2: Starting from a fresh server, whatever the requests, the configuration, the
  credentials and the kernel's rule set only ever change on a request that carries the token
  of a login that succeeded earlier with the password in force then, has not been logged out
  since and has not expired; and that request is a POST, or the device list, which records the
  devices it discovers.\<close>

theorem changes_need_login:
  assumes "web_run reqs (web_new cfg creds installed) = (log, w)"
    and "web_serve env r w = (resp, w')" and "changes w w'"
  shows "(\<exists>tok e. rq_cookie r = Some tok \<and> live_logins log tok = Some e \<and> we_now env \<le> e \<and>
      (\<exists>x \<in> set log. ex_response x = LoggedIn tok e \<and> proper_login x)) \<and>
    (rq_method r = ''POST'' \<or> rq_path r = ''/fragments/devices'')"
proof -
  from web_serve_ok [OF assms(2)] assms(3)
  have a: "authorised env r w" and p: "rq_method r = ''POST'' \<or> rq_path r = ''/fragments/devices''"
    unfolding route_ok_def by blast+
  from a obtain tok e where t: "rq_cookie r = Some tok" "sm_sessions (w_sessions w) tok = Some e"
      "we_now env \<le> e"
    by (auto simp: authorised_def)
  have "sm_sessions (w_sessions w) \<subseteq>\<^sub>m live_logins log"
    unfolding live_logins_def using web_run_sessions [OF assms(1)]
    by (simp add: web_new_def new_session_manager_def)
  with t(2) have l: "live_logins log tok = Some e" by (metis domI map_le_def)
  then obtain x where "x \<in> set log" "ex_response x = LoggedIn tok e"
    using fold_login_source [of log Map.empty tok e] by (auto simp: live_logins_def)
  with web_run_logins [OF assms(1)] t l p show ?thesis by blast
qed

definition ex_web_env :: web_env where
  "ex_web_env = \<lparr>we_now = 0, we_save = IoOk, we_save2 = IoOk, we_random = Some [1, 2, 3],
     we_nft = (\<lambda>t args. True), we_run = (\<lambda>cs c. None),
     we_files = (\<lambda>p. None), we_addrs = (\<lambda>i. None),
     we_status = \<lparr>reg_dns = \<lparr>st_up = True, st_last_err = ''''\<rparr>, reg_dhcp = []\<rparr>,
     we_cache = None, we_mem = (0, 0), we_date = (\<lambda>t. '''')\<rparr>"

definition ex_request_to :: "string \<Rightarrow> string option \<Rightarrow> (string \<Rightarrow> string) \<Rightarrow> request" where
  "ex_request_to p cookie form = \<lparr>rq_method = ''POST'', rq_path = p, rq_cookie = cookie, rq_form_ok = True,
     rq_form = form, rq_post_form = form, rq_query = (\<lambda>k. ''''), rq_upload = NoUpload\<rparr>"

definition ex_login :: request where
  "ex_login = ex_request_to ''/login'' None (\<lambda>k. if k = ''username'' then ''admin'' else ''admin'')"

definition ex_token :: string where "ex_token = encode_raw_url [1, 2, 3]"

definition ex_add_record :: request where
  "ex_add_record = ex_request_to ''/api/dns/add'' (Some ex_token)
     (\<lambda>k. if k = ''name'' then ''nas.lan'' else if k = ''ip'' then ''10.0.0.9'' else '''')"

theorem changes_need_login_witness:
  "\<exists>log w resp w'. web_run [(ex_web_env, ex_login)]
       (web_new (new_store (default_data None) None)
         (fst (set_password (Some (replicate 16 7)) IoOk ''admin'' ''admin'' ex_auth)) None) = (log, w) \<and>
     web_serve ex_web_env ex_add_record w = (resp, w') \<and> changes w w' \<and>
     live_logins log ex_token = Some session_ttl"
proof -
  let ?cfg = "new_store (default_data None) None"
  obtain creds err where c: "set_password (Some (replicate 16 7)) IoOk ''admin'' ''admin'' ex_auth = (creds, err)"
    by fastforce
  let ?start = "web_new ?cfg creds None"
  have v: "verify ''admin'' ''admin'' creds" using verify_set_password [OF c] by simp
  let ?w = "?start\<lparr>w_sessions := \<lparr>sm_sessions = [ex_token \<mapsto> session_ttl]\<rparr>\<rparr>"
  have login: "web_serve ex_web_env ex_login ?start = (LoggedIn ex_token session_ttl, ?w)"
    using v by (simp add: web_serve_def routes_def ex_login_def ex_request_to_def handle_login_def login_post_def
        throttle_delay_def new_login_throttle_def web_new_def ex_web_env_def session_create_def
        record_success_def ex_token_def session_ttl_def new_session_manager_def Let_def)
  let ?log = "[\<lparr>ex_env = ex_web_env, ex_request = ex_login, ex_state = ?start,
      ex_response = LoggedIn ex_token session_ttl\<rparr>]"
  have run: "web_run [(ex_web_env, ex_login)] ?start = (?log, ?w)" by (simp add: login)
  have tok: "ex_token \<noteq> ''''" by code_simp
  have f: "field ex_add_record ''name'' = ''nas.lan''" "field ex_add_record ''ip'' = ''10.0.0.9''"
    by (code_simp, code_simp)
  obtain cfg e where a: "add_dns_record IoOk \<lparr>rec_name = ''nas.lan'', rec_ip = ''10.0.0.9''\<rparr> ?cfg = (cfg, e)"
    by fastforce
  have d: "dns_records (dat cfg) \<noteq> []"
    using arg_cong [OF a, where f = "\<lambda>x. dns_records (dat (fst x))"]
    by (auto simp: add_dns_record_def upsert_by.simps default_data_def new_store_def)
  let ?w' = "?w\<lparr>w_cfg := cfg\<rparr>"
  have rq: "rq_path ex_add_record = ''/api/dns/add''" "rq_cookie ex_add_record = Some ex_token"
      "rq_method ex_add_record = ''POST''" "rq_form_ok ex_add_record"
    by (simp_all add: ex_add_record_def ex_request_to_def)
  obtain resp where p: "saved (cfg, e) (SettingsPage NoMsg NoMsg) ?w = (resp, ?w')"
    by (cases e) (simp_all add: saved_def)
  have s: "web_serve ex_web_env ex_add_record ?w = (resp, ?w')"
    using tok f a p rq
    by (simp add: web_serve_def routes_def mutating_def require_auth_def require_post_def session_valid_def
        ex_web_env_def session_ttl_def handle_add_dns_record_def web_new_def)
  have ch: "changes ?w ?w'" using d by (auto simp: changes_def web_new_def new_store_def default_data_def)
  note t = changes_need_login [OF run s ch]
  then have "live_logins ?log ex_token = Some session_ttl"
    by (simp add: live_logins_def login_effect_def)
  with run s ch show ?thesis unfolding c fst_conv by blast
qed

end
