(* ===== verification/Web_Throttle.thy ===== *)
theory Web_Throttle
  imports Web_Claims
begin

text \<open>
  What the login throttle achieves: how fast passwords can be tried, and that nobody is
  locked out.
\<close>

section \<open>Attempts to log in\<close>

definition attempt :: "exchange \<Rightarrow> bool" where
  "attempt x \<longleftrightarrow> rq_path (ex_request x) = ''/login'' \<and> rq_method (ex_request x) \<noteq> ''GET'' \<and>
     rq_form_ok (ex_request x)"

definition right_password :: "exchange \<Rightarrow> bool" where
  "right_password x \<longleftrightarrow>
     verify (rq_form (ex_request x) ''username'') (rq_form (ex_request x) ''password'') (w_creds (ex_state x))"

text \<open>An attempt sleeps before the password is looked at; nothing else waits.\<close>

definition login_wait :: "exchange \<Rightarrow> int" where
  "login_wait x =
     (if attempt x then fst (throttle_delay (we_now (ex_env x)) (w_throttle (ex_state x))) else 0)"

definition finished :: "exchange \<Rightarrow> int" where
  "finished x = we_now (ex_env x) + login_wait x"

text \<open>Every request arrives when the one before it has been answered, the first not before \<open>t\<close>.\<close>

fun in_turn :: "int \<Rightarrow> exchange list \<Rightarrow> bool" where
  "in_turn t [] = True"
| "in_turn t (x # xs) = (t \<le> we_now (ex_env x) \<and> in_turn (finished x) xs)"

fun last_finished :: "int \<Rightarrow> exchange list \<Rightarrow> int" where
  "last_finished t [] = t"
| "last_finished t (x # xs) = last_finished (finished x) xs"

section \<open>Only attempts touch the throttle\<close>

definition keeps_throttle :: "handler \<Rightarrow> bool" where
  "keeps_throttle h \<longleftrightarrow> (\<forall>env r w. w_throttle (snd (h env r w)) = w_throttle w)"

lemma plain_keeps_throttle: "plain_handler h \<Longrightarrow> keeps_throttle h"
  by (simp add: plain_handler_def keeps_throttle_def)

lemma keeps_throttle_auth: "keeps_throttle h \<Longrightarrow> keeps_throttle (require_auth h)"
  by (auto simp: keeps_throttle_def require_auth_def Let_def split: option.split prod.split)

lemma keeps_throttle_mutating: "keeps_throttle h \<Longrightarrow> keeps_throttle (mutating h)"
  unfolding mutating_def by (rule keeps_throttle_auth) (simp add: keeps_throttle_def require_post_def)

lemma keeps_throttle_logout: "keeps_throttle handle_logout"
  by (simp add: keeps_throttle_def handle_logout_def split: option.split)

lemma routes_keep_throttle: "list_all (\<lambda>(p, h). p = ''/login'' \<or> keeps_throttle h) routes"
  by (simp add: routes_def keeps_throttle_auth keeps_throttle_mutating keeps_throttle_logout
      plain_handlers [THEN plain_keeps_throttle])

lemma login_route: "rq_path r = ''/login'' \<Longrightarrow> web_serve env r w = handle_login env r w"
  by (simp add: web_serve_def routes_def)

lemma other_routes_keep_throttle:
  assumes "rq_path r \<noteq> ''/login''"
  shows "w_throttle (snd (web_serve env r w)) = w_throttle w"
proof (cases "map_of routes (rq_path r)")
  case None
  have "keeps_throttle (require_auth handle_dashboard)"
    by (intro keeps_throttle_auth plain_keeps_throttle plain_handlers)
  with None show ?thesis by (simp add: web_serve_def keeps_throttle_def)
next
  case (Some h)
  with routes_keep_throttle map_of_SomeD [OF Some] assms have "keeps_throttle h"
    by (auto simp: list_all_iff)
  with Some show ?thesis by (simp add: web_serve_def keeps_throttle_def)
qed

lemma login_get_keeps_throttle: "w_throttle (snd (login_get env r w)) = w_throttle w"
  by (simp add: login_get_def Let_def split: option.split prod.split)

lemma serve_throttle:
  assumes "web_serve env r w = (resp, w')" "x = \<lparr>ex_env = env, ex_request = r, ex_state = w, ex_response = resp\<rparr>"
  shows "\<not> attempt x \<Longrightarrow> w_throttle w' = w_throttle w"
    and "attempt x \<Longrightarrow> \<not> right_password x \<Longrightarrow>
      w_throttle w' = record_failure (finished x) (snd (throttle_delay (we_now env) (w_throttle w)))"
proof -
  assume "\<not> attempt x"
  show "w_throttle w' = w_throttle w"
  proof (cases "rq_path r = ''/login''")
    case True
    with assms \<open>\<not> attempt x\<close> show ?thesis using login_get_keeps_throttle [of env r w]
      by (auto simp: login_route handle_login_def attempt_def login_post_def split: if_splits)
  next
    case False
    with assms(1) other_routes_keep_throttle [of r env w] show ?thesis by simp
  qed
next
  assume "attempt x" "\<not> right_password x"
  with assms show "w_throttle w' = record_failure (finished x) (snd (throttle_delay (we_now env) (w_throttle w)))"
    by (auto simp: attempt_def right_password_def finished_def login_wait_def login_route handle_login_def
        login_post_def split: prod.splits)
qed

section \<open>The price of a guess\<close>

text \<open>What the attempts that are cheaper than five seconds still save, in nanoseconds.\<close>

definition discount :: "nat \<Rightarrow> int" where
  "discount c = 1000000000 * (if c \<le> 2 then 27 - 5 * int c else if c \<le> 5 then 24 - 4 * int c else 0)"

lemma discount_bounds: "0 \<le> discount c" "discount c \<le> 27000000000"
  by (auto simp: discount_def)

lemma guess_costs:
  assumes "throttle_delay now lt = (d, lt1)"
  shows "lt_last_failure lt = Some l \<Longrightarrow> now - l \<le> 300000000000 \<Longrightarrow>
      5000000000 + discount (Suc (lt_fail_count lt1)) = d + discount (lt_fail_count lt)"
    and "lt_last_failure lt = None \<or> (\<exists>l. lt_last_failure lt = Some l \<and> 300000000000 < now - l) \<Longrightarrow>
      d = 0 \<and> lt_fail_count lt1 = 0"
    and "0 \<le> d \<and> d \<le> 5000000000"
proof -
  let ?c = "lt_fail_count lt"
  assume "lt_last_failure lt = Some l" "now - l \<le> 300000000000"
  with assms have "lt1 = lt" and d: "d = (if ?c \<le> 2 then 0 else if ?c \<le> 5 then 1000000000 else 5000000000)"
    by (auto simp: throttle_delay_def Let_def)
  moreover have "?c \<le> 1 \<or> ?c = 2 \<or> ?c = 3 \<or> ?c = 4 \<or> ?c = 5 \<or> 5 < ?c" by linarith
  ultimately show "5000000000 + discount (Suc (lt_fail_count lt1)) = d + discount ?c"
    by (auto simp: discount_def)
next
  show "lt_last_failure lt = None \<or> (\<exists>l. lt_last_failure lt = Some l \<and> 300000000000 < now - l) \<Longrightarrow>
      d = 0 \<and> lt_fail_count lt1 = 0"
    using assms by (auto simp: throttle_delay_def Let_def)
  show "0 \<le> d \<and> d \<le> 5000000000"
    using assms by (auto simp: throttle_delay_def Let_def split: if_splits)
qed


lemma guesses_cost:
  assumes "web_run reqs w = (log, w')" "in_turn t log" "\<forall>x \<in> set log. attempt x \<longrightarrow> \<not> right_password x"
    and "\<forall>l. lt_last_failure (w_throttle w) = Some l \<longrightarrow> l \<le> t"
  shows "5000000000 * int (length (filter attempt log)) \<le> last_finished t log - t + 27000000000 \<and>
    (\<forall>l. lt_last_failure (w_throttle w) = Some l \<longrightarrow>
       5000000000 * int (length (filter attempt log)) \<le>
         last_finished t log - l + discount (lt_fail_count (w_throttle w)))"
  using assms
proof (induction reqs w arbitrary: log w' t rule: web_run.induct)
  case (1 w)
  have "0 \<le> discount c" for c by (rule discount_bounds)
  with 1 show ?case by auto
next
  case (2 env r rs w)
  obtain resp w1 where s: "web_serve env r w = (resp, w1)" by fastforce
  obtain log' w2 where run: "web_run rs w1 = (log', w2)" by fastforce
  define x where "x = \<lparr>ex_env = env, ex_request = r, ex_state = w, ex_response = resp\<rparr>"
  have log: "log = x # log'" using 2(2) s run by (simp add: x_def)
  have t: "t \<le> we_now env" and turn: "in_turn (finished x) log'" using 2(3) log by (simp_all add: x_def)
  let ?n = "int (length (filter attempt log'))" and ?e = "last_finished (finished x) log'"
  note IH = 2(1) [OF s [symmetric] run turn]
  have wrong: "\<forall>x \<in> set log'. attempt x \<longrightarrow> \<not> right_password x" using 2(4) log by simp
  note serve = serve_throttle [OF s x_def]
  show ?case
  proof (cases "attempt x")
    case False
    then have f: "finished x = we_now env" and k: "w_throttle w1 = w_throttle w"
      using serve by (simp_all add: finished_def login_wait_def x_def)
    have "\<forall>l. lt_last_failure (w_throttle w1) = Some l \<longrightarrow> l \<le> finished x"
      using 2(5) t f k by fastforce
    from IH [OF wrong this] f k t False log show ?thesis by auto
  next
    case True
    obtain d lt1 where d: "throttle_delay (we_now env) (w_throttle w) = (d, lt1)" by fastforce
    have f: "finished x = we_now env + d" using True d by (simp add: finished_def login_wait_def x_def)
    have k: "w_throttle w1 = record_failure (finished x) lt1"
      using serve(2) [OF True] 2(4) True log d by simp
    then have "\<forall>l. lt_last_failure (w_throttle w1) = Some l \<longrightarrow> l \<le> finished x"
      by (simp add: record_failure_def)
    from IH [OF wrong this] k have n: "5000000000 * ?n \<le> ?e - finished x + discount (Suc (lt_fail_count lt1))"
      by (simp add: record_failure_def)
    note cost = guess_costs [OF d] and disc = discount_bounds
    have five: "5000000000 * int (length (filter attempt log)) = 5000000000 * ?n + 5000000000"
      and e: "last_finished t log = ?e"
      using True log by simp_all
    show ?thesis
    proof (cases "\<exists>l. lt_last_failure (w_throttle w) = Some l \<and> we_now env - l \<le> 300000000000")
      case True
      then obtain l where l: "lt_last_failure (w_throttle w) = Some l" "we_now env - l \<le> 300000000000" by blast
      from cost(1) [OF l] n f have "5000000000 * ?n + 5000000000 \<le> ?e - we_now env + discount (lt_fail_count (w_throttle w))"
        by linarith
      with five e t 2(5) l(1) disc(2) [of "lt_fail_count (w_throttle w)"] show ?thesis by fastforce
    next
      case False
      then have z: "d = 0 \<and> lt_fail_count lt1 = 0"
        using cost(2) by (cases "lt_last_failure (w_throttle w)") auto
      then have "discount (Suc (lt_fail_count lt1)) = 22000000000" by (simp add: discount_def)
      with z n f have n': "5000000000 * ?n + 5000000000 \<le> ?e - we_now env + 27000000000" by linarith
      have "5000000000 * ?n + 5000000000 \<le> ?e - l + discount (lt_fail_count (w_throttle w))"
        if "lt_last_failure (w_throttle w) = Some l" for l
      proof -
        have "300000000000 < we_now env - l" using False that by auto
        with n' disc(1) [of "lt_fail_count (w_throttle w)"] show ?thesis by linarith
      qed
      with n' five e t show ?thesis by auto
    qed
  qed
qed

text \<open>C6: Passwords cannot be tried quickly. When every request arrives after the one before it
  was answered and none of the attempts to log in has the right password, then \<open>n\<close> attempts,
  however they are spread and whatever else is requested in between, take at least five
  seconds each, less 27 seconds altogether. And nobody is locked out: whoever has the right
  password is logged in afterwards, at any time, after a wait of at most five seconds.\<close>

theorem guessing_is_slow:
  assumes "web_run reqs w = (log, w')" "in_turn t log"
    and "\<forall>x \<in> set log. attempt x \<longrightarrow> \<not> right_password x"
    and "\<forall>l. lt_last_failure (w_throttle w) = Some l \<longrightarrow> l \<le> t"
  shows "5000000000 * int (length (filter attempt log)) \<le> last_finished t log - t + 27000000000 \<and>
    (\<forall>x rnd. attempt x \<and> right_password x \<and> ex_state x = w' \<and> we_random (ex_env x) = Some rnd \<longrightarrow>
       0 \<le> login_wait x \<and> login_wait x \<le> 5000000000 \<and>
       (\<exists>tok w2. web_serve (ex_env x) (ex_request x) w' =
          (LoggedIn tok (finished x + 7 * 24 * 3600 * 1000000000), w2)))"
proof -
  have "0 \<le> login_wait x \<and> login_wait x \<le> 5000000000" for x
    using guess_costs(3) [of "we_now (ex_env x)" "w_throttle (ex_state x)"]
    by (cases "throttle_delay (we_now (ex_env x)) (w_throttle (ex_state x))") (auto simp: login_wait_def)
  moreover have "\<exists>tok w2. web_serve (ex_env x) (ex_request x) w' =
      (LoggedIn tok (finished x + 7 * 24 * 3600 * 1000000000), w2)"
    if "attempt x" "right_password x" "ex_state x = w'" "we_random (ex_env x) = Some rnd" for x rnd
    using that by (auto simp: attempt_def right_password_def login_route handle_login_def login_post_def
        finished_def login_wait_def session_create_def Let_def split: prod.split)
  ultimately show ?thesis using guesses_cost [OF assms] by blast
qed

text \<open>Seven wrong passwords, as fast as the throttle lets them through: the bound is met exactly.\<close>

definition ex_guess :: request where
  "ex_guess = \<lparr>rq_method = ''POST'', rq_path = ''/login'', rq_cookie = None, rq_form_ok = True,
     rq_form = (\<lambda>k. ''guess''), rq_post_form = (\<lambda>k. ''''), rq_query = (\<lambda>k. ''''), rq_upload = NoUpload\<rparr>"

definition ex_guess_env :: "int \<Rightarrow> web_env" where
  "ex_guess_env t = \<lparr>we_now = t, we_save = IoOk, we_save2 = IoOk, we_random = None, we_nft = (\<lambda>s args. True),
     we_run = (\<lambda>cs c. None), we_files = (\<lambda>p. None), we_addrs = (\<lambda>d. None), we_status = \<lparr>reg_dns = \<lparr>st_up = True, st_last_err = ''''\<rparr>, reg_dhcp = []\<rparr>,
     we_cache = None, we_mem = (0, 0), we_date = (\<lambda>t. '''')\<rparr>"

definition ex_guarded :: web where
  "ex_guarded = web_new (new_store (default_data None) None)
     \<lparr>au_creds = no_credentials\<lparr>cr_username := ''admin''\<rparr>, au_disk = None\<rparr> None"

lemma ex_refused:
  assumes "throttle_delay t lt = (d, lt1)"
  shows "web_serve (ex_guess_env t) ex_guess (ex_guarded\<lparr>w_throttle := lt\<rparr>) =
    (Redirect ''/login?error=1'', ex_guarded\<lparr>w_throttle := record_failure (t + d) lt1\<rparr>)"
  using assms
  by (simp add: login_route handle_login_def login_post_def ex_guess_def ex_guess_env_def ex_guarded_def
      web_new_def verify_def)

definition fails :: "nat \<Rightarrow> int \<Rightarrow> login_throttle" where
  "fails c t = \<lparr>lt_fail_count = c, lt_last_failure = Some t\<rparr>"

theorem guessing_is_slow_witness:
  "\<exists>log w'. web_run (map (\<lambda>t. (ex_guess_env t, ex_guess)) [0, 0, 0, 0, 1000000000, 2000000000, 3000000000])
       ex_guarded = (log, w') \<and> in_turn 0 log \<and> length (filter attempt log) = 7 \<and>
     last_finished 0 log = 8000000000 \<and>
     5000000000 * int (length (filter attempt log)) \<le> last_finished 0 log - 0 + 27000000000"
proof -
  let ?reqs = "map (\<lambda>t. (ex_guess_env t, ex_guess)) [0, 0, 0, 0, 1000000000, 2000000000, 3000000000]"
  obtain log w' where run: "web_run ?reqs ex_guarded = (log, w')" by fastforce
  have g: "ex_guarded = ex_guarded\<lparr>w_throttle := new_login_throttle\<rparr>"
    by (simp add: ex_guarded_def web_new_def)
  have run': "web_run ?reqs (ex_guarded\<lparr>w_throttle := new_login_throttle\<rparr>) = (log, w')"
    using run by (subst g [symmetric])
  have log: "log = map (\<lambda>(t, lt). \<lparr>ex_env = ex_guess_env t, ex_request = ex_guess,
      ex_state = ex_guarded\<lparr>w_throttle := lt\<rparr>, ex_response = Redirect ''/login?error=1''\<rparr>)
    [(0, new_login_throttle), (0, fails 1 0), (0, fails 2 0), (0, fails 3 0), (1000000000, fails 4 1000000000),
     (2000000000, fails 5 2000000000), (3000000000, fails 6 3000000000)]"
    using run'
    by (auto simp: ex_refused [OF surjective_pairing] throttle_delay_def record_failure_def new_login_throttle_def
        fails_def eval_nat_numeral)
  have a: "attempt \<lparr>ex_env = e, ex_request = ex_guess, ex_state = w, ex_response = r\<rparr>"
    "\<not> right_password \<lparr>ex_env = e, ex_request = ex_guess, ex_state = ex_guarded\<lparr>w_throttle := lt\<rparr>, ex_response = r\<rparr>" for e w r lt
    by (simp_all add: attempt_def right_password_def ex_guess_def verify_def ex_guarded_def web_new_def)
  have turn: "in_turn 0 log" and last: "last_finished 0 log = 8000000000"
    by (simp_all add: log finished_def login_wait_def a throttle_delay_def fails_def new_login_throttle_def ex_guess_env_def)
  have wrong: "\<forall>x \<in> set log. attempt x \<longrightarrow> \<not> right_password x" by (simp add: log a)
  have "\<forall>l. lt_last_failure (w_throttle ex_guarded) = Some l \<longrightarrow> l \<le> 0"
    by (simp add: ex_guarded_def web_new_def new_login_throttle_def)
  note bound = guessing_is_slow [OF run turn wrong this, THEN conjunct1]
  have "length (filter attempt log) = 7" by (simp add: log a)
  with run turn last bound show ?thesis by (intro exI conjI)
qed

end
