(* ===== verification/Listeners.thy ===== *)
theory Listeners
  imports Status Dhcp_Server Dns_Server
begin

text \<open>
  How the listeners come up: the set-up in the two \<open>Run\<close> methods
  (\<open>internal/dhcp/server.go\<close>, \<open>internal/dnsserver/server.go\<close>) with what they report to the status
  registry, and \<open>runForever\<close> of \<open>cmd/cobweb/main.go\<close>. What the system calls answer is an
  argument: the text of an error, or \<^const>\<open>None\<close>. Once set up, a listener reads for ever, so \<open>Run\<close>
  returns only when the set-up fails.
\<close>

text \<open>The system calls of a set-up: those that make the socket, for DHCP one by one and for DNS those
  of \<open>net.ListenUDP\<close> together; the access to its descriptor; and the options set there.\<close>

record socket_env =
  so_socket :: "string option"
  so_reuse_addr :: "string option"
  so_reuse_port :: "string option"
  so_bind :: "string option"
  so_packet_conn :: "string option"
  so_other_type :: "string option"
  so_listen :: "string option"
  so_conn :: "string option"
  so_control :: "string option"
  so_broadcast :: "string option"
  so_device :: "string option"
  so_pktinfo :: "string option"

datatype run_error =
    RunSegment string | RunListen string | RunConn string | RunControl string | RunOptions string

text \<open>\<open>listenUDPReusePort\<close>, with the number of open descriptors. \<open>FilePacketConn\<close> duplicates the
  descriptor; the first one is closed on return.\<close>

definition listen_udp_reuse_port :: "socket_env \<Rightarrow> nat \<Rightarrow> string option \<times> nat" where
  "listen_udp_reuse_port so n =
     (case so_socket so of Some e \<Rightarrow> (Some (''socket: '' @ e), n)
      | None \<Rightarrow>
        (let fd = n + 1 in
         case so_reuse_addr so of Some e \<Rightarrow> (Some (''SO_REUSEADDR: '' @ e), fd - 1)
         | None \<Rightarrow>
        (case so_reuse_port so of Some e \<Rightarrow> (Some (''SO_REUSEPORT: '' @ e), fd - 1)
         | None \<Rightarrow>
        (case so_bind so of Some e \<Rightarrow> (Some (''bind :67: '' @ e), fd - 1)
         | None \<Rightarrow>
        (case so_packet_conn so of Some e \<Rightarrow> (Some (''FilePacketConn: '' @ e), fd - 1)
         | None \<Rightarrow>
        (let pc = fd + 1 in
         case so_other_type so of Some t \<Rightarrow> (Some (''unexpected packet conn type '' @ t), pc - 1 - 1)
         | None \<Rightarrow> (None, pc - 1)))))))"

definition set_options :: "socket_env \<Rightarrow> string option" where
  "set_options so = (case so_broadcast so of Some e \<Rightarrow> Some e | None \<Rightarrow> so_device so)"

definition segment_gone_text :: "string \<Rightarrow> string" where
  "segment_gone_text i = ''segment '' @ i @ '' no longer exists''"

text \<open>The set-up in the DHCP server's \<open>Run\<close>: the error it returns with, if it does, what it reports,
  and the open descriptors. Once there is a socket, it is closed when \<open>Run\<close> returns.\<close>

definition dhcp_open ::
  "socket_env \<Rightarrow> store \<Rightarrow> dhcp_server \<Rightarrow> status_registry \<times> nat \<Rightarrow> run_error option \<times> status_registry \<times> nat" where
  "dhcp_open so cfg srv = (\<lambda>(reg, n).
     let i = srv_segment_id srv in
      case segment srv cfg of
        Inl _ \<Rightarrow> (Some (RunSegment i), set_dhcp_segment i '''' False (Some (segment_gone_text i)) reg, n)
      | Inr seg \<Rightarrow>
          (case listen_udp_reuse_port so n of
             (Some e, n') \<Rightarrow> (Some (RunListen e), set_dhcp_segment i (seg_name seg) False (Some e) reg, n')
           | (None, n') \<Rightarrow>
          (case so_conn so of Some e \<Rightarrow> (Some (RunConn e), reg, n' - 1)
           | None \<Rightarrow>
          (case so_control so of Some e \<Rightarrow> (Some (RunControl e), reg, n' - 1)
           | None \<Rightarrow>
          (case set_options so of
             Some e \<Rightarrow> (Some (RunOptions e), set_dhcp_segment i (seg_name seg) False (Some e) reg, n' - 1)
           | None \<Rightarrow> (None, set_dhcp_segment i (seg_name seg) True None reg, n'))))))"

text \<open>\<open>enablePktinfo\<close>, and the set-up in the DNS server's \<open>Run\<close>: when it listens, the result says
  whether replies can go out from the address that was asked.\<close>

definition enable_pktinfo :: "socket_env \<Rightarrow> string option" where
  "enable_pktinfo so =
     (case so_conn so of Some e \<Rightarrow> Some e
      | None \<Rightarrow> (case so_control so of Some e \<Rightarrow> Some e | None \<Rightarrow> so_pktinfo so))"

definition dns_open :: "socket_env \<Rightarrow> status_registry \<times> nat \<Rightarrow> (run_error + bool) \<times> status_registry \<times> nat" where
  "dns_open so = (\<lambda>(reg, n).
     case so_listen so of
        Some e \<Rightarrow> (Inl (RunListen e), set_dns False (Some e) reg, n)
      | None \<Rightarrow> (Inr (enable_pktinfo so = None), set_dns True None reg, n + 1))"

section \<open>Trying again\<close>

text \<open>\<open>runForever\<close>, over the environments of its attempts and how long each takes: when which error
  was logged, what the attempts did to the state, and when the last one began if it has not
  returned.\<close>

fun run_forever ::
  "('e \<Rightarrow> 's \<Rightarrow> 'x option \<times> 's) \<Rightarrow> ('e \<times> int) list \<Rightarrow> int \<Rightarrow> 's \<Rightarrow> (int \<times> 'x) list \<times> 's \<times> int option" where
  "run_forever fn [] t s = ([], s, None)"
| "run_forever fn ((env, d) # rest) t s =
     (case fn env s of
        (None, s') \<Rightarrow> ([], s', Some t)
      | (Some e, s') \<Rightarrow>
          (case run_forever fn rest (t + d + 10 * 1000000000) s' of
             (log, result) \<Rightarrow> ((t + d, e) # log, result)))"

text \<open>The first attempt that can succeed does, however many failed before it, and it comes ten
  seconds after the last of them.\<close>

lemma run_forever_succeeds:
  assumes "\<And>env s. env \<in> fst ` set bad \<Longrightarrow> fst (fn env s) \<noteq> None" "\<And>s. fst (fn good s) = None"
  shows "\<exists>log s'. run_forever fn (bad @ (good, d) # rest) t s =
      (log, s', Some (t + sum_list (map snd bad) + 10 * 1000000000 * int (length bad))) \<and>
    length log = length bad"
  using assms(1)
proof (induction bad arbitrary: t s)
  case Nil
  obtain s' where "fn good s = (None, s')" using assms(2) [of s] by (cases "fn good s") simp
  then show ?case by simp
next
  case (Cons x bad)
  obtain env k where x: "x = (env, k)" by fastforce
  obtain e s1 where f: "fn env s = (Some e, s1)" using Cons.prems [of env s] x by (cases "fn env s") auto
  have "fst (fn env' s') \<noteq> None" if "env' \<in> fst ` set bad" for env' s'
    using Cons.prems [of env' s'] that by simp
  from Cons.IH [OF this, where t = "t + k + 10 * 1000000000" and s = s1]
  obtain log s' where "run_forever fn (bad @ (good, d) # rest) (t + k + 10 * 1000000000) s1 =
      (log, s', Some (t + k + 10 * 1000000000 + sum_list (map snd bad) + 10 * 1000000000 * int (length bad)))"
    "length log = length bad"
    by blast
  with x f show ?case by (simp add: algebra_simps)
qed

section \<open>What the registry says\<close>

definition reported_up :: "string \<Rightarrow> status_registry \<Rightarrow> bool" where
  "reported_up i reg \<longleftrightarrow>
     (\<exists>d. find_by ds_segment_id i (dhcp_segment_states reg) = Some d \<and> st_up (ds_state d))"

lemma reported_set:
  "reported_up i (set_dhcp_segment j name up err reg) \<longleftrightarrow> (if i = j then up else reported_up i reg)"
  by (auto simp: reported_up_def set_dhcp_segment_def dhcp_segment_states_def)

lemma reported_set_dns: "reported_up i (set_dns up err reg) = reported_up i reg"
  by (simp add: reported_up_def set_dns_def dhcp_segment_states_def)

lemma dns_state_set [simp]: "dns_state (set_dhcp_segment j name up err reg) = dns_state reg"
  by (simp add: dns_state_def set_dhcp_segment_def)

lemma listen_descriptors:
  "snd (listen_udp_reuse_port so n) = (if fst (listen_udp_reuse_port so n) = None then n + 1 else n)"
  by (simp add: listen_udp_reuse_port_def Let_def split: option.split)

text \<open>No attempt that fails leaves a descriptor open, so they can go on for ever.\<close>

lemma dhcp_open_descriptors:
  assumes "dhcp_open so cfg srv (reg, n) = (r, reg', n')"
  shows "n' = (if r = None then n + 1 else n)"
  using assms listen_descriptors [of so n]
  by (cases "listen_udp_reuse_port so n")
     (auto simp: dhcp_open_def Let_def split: sum.splits option.splits if_splits)

lemma dhcp_open_reports:
  assumes "dhcp_open so cfg srv (reg, n) = (r, reg', n')"
  shows "r = None \<Longrightarrow> reported_up i reg' \<longleftrightarrow> i = srv_segment_id srv \<or> reported_up i reg"
    and "r \<noteq> None \<Longrightarrow> \<not> reported_up (srv_segment_id srv) reg \<Longrightarrow> reported_up i reg' = reported_up i reg"
    and "dns_state reg' = dns_state reg"
  using assms
  by (auto simp: dhcp_open_def Let_def reported_set split: sum.splits option.splits if_splits prod.splits)

text \<open>When every call succeeds the listener comes up.\<close>

definition sockets_ok :: "socket_env \<Rightarrow> bool" where
  "sockets_ok so \<longleftrightarrow> so_socket so = None \<and> so_reuse_addr so = None \<and> so_reuse_port so = None \<and>
     so_bind so = None \<and> so_packet_conn so = None \<and> so_other_type so = None \<and> so_conn so = None \<and>
     so_control so = None \<and> so_broadcast so = None \<and> so_device so = None"

lemma dhcp_open_ok:
  assumes "sockets_ok so" "segment_by_id (srv_segment_id srv) cfg = Some g"
  shows "dhcp_open so cfg srv (reg, n) = (None, set_dhcp_segment (srv_segment_id srv) (seg_name g) True None reg, n + 1)"
  using assms
  by (simp add: dhcp_open_def sockets_ok_def segment_def listen_udp_reuse_port_def set_options_def Let_def)

lemma dns_state_set_dns: "st_up (dns_state (set_dns up err reg)) = up"
  by (simp add: dns_state_def set_dns_def)

lemma dns_open_reports:
  assumes "dns_open so (reg, n) = (r, reg', n')"
  shows "st_up (dns_state reg') \<longleftrightarrow> (\<exists>p. r = Inr p)" "reported_up i reg' = reported_up i reg"
    and "n' = (case r of Inl _ \<Rightarrow> n | Inr _ \<Rightarrow> n + 1)"
  using assms
  by (auto simp: dns_open_def reported_set_dns dns_state_set_dns split: option.splits)

end
