(* ===== verification/Startup.thy ===== *)
theory Startup
  imports Web_Routes Listeners
begin

text \<open>
  The process, \<open>cmd/cobweb/main.go\<close>: what \<open>main\<close> does in order (the two modes that only
  print, loading and saving the configuration, the credentials, one DHCP listener per segment,
  the DNS server with its cache, traffic shaping, the firewall, the dashboard), the process
  while it runs, and what it does on SIGTERM. Command-line parsing gives the two flags; paths
  are abstracted to what the files there hold, and log lines are left out.
\<close>

record cli =
  cl_version :: bool
  cl_print_firewall :: bool

text \<open>What \<open>main\<close> finds: the two files, random bytes, the outcome of the writes (of a
  migrated configuration, of the configuration, of new credentials), nft with the script that
  ran last, the shaping commands, and whether the embedded templates parse.\<close>

record boot_env =
  be_config :: file_read
  be_config_rnd :: "byte list option"
  be_migrate_io :: io
  be_save_io :: io
  be_creds :: creds_file
  be_creds_rnd :: "byte list option"
  be_creds_io :: io
  be_nft :: "string \<Rightarrow> string list \<Rightarrow> bool"
  be_installed :: "string option"
  be_run :: runner
  be_templates :: bool

datatype startup_error =
    ConfigLoadFailed cfg_error | ConfigWriteFailed cfg_error | CredsLoadFailed auth_error | WebInitFailed

text \<open>The running process: per DHCP server whether it listens, the DNS server when it listens and
  whether it can choose the address it answers from, the status registry, and how many sockets
  the listeners have open.\<close>

record running =
  rn_web :: web
  rn_dhcp :: "dhcp_server list"
  rn_listening :: "bool list"
  rn_dns :: "bool option"
  rn_cache :: recursive_cache
  rn_status :: status_registry
  rn_descriptors :: nat
  rn_sqm :: "command list \<times> sqm_error option"
  rn_firewall :: "fw_action list \<times> fw_error option"
  rn_listen :: string

text \<open>A preview has the text for standard output, the warnings, whether the note that the
  firewall is off is printed, and the store it was made from.\<close>

datatype boot_result =
    ShowedVersion
  | Previewed store string "warning list" bool
  | PreviewFailed store fw_error
  | Fatal startup_error
  | Running running

definition print_firewall :: "store \<Rightarrow> boot_result" where
  "print_firewall cfg =
     (case render (snapshot cfg) of
        Inl e \<Rightarrow> PreviewFailed cfg e
      | Inr t \<Rightarrow> Previewed cfg t (warnings (snapshot cfg)) (\<not> firewall_enabled (snapshot cfg)))"

text \<open>One listener per segment that serves DHCP.\<close>

definition dhcp_listeners :: "config_data \<Rightarrow> dhcp_server list" where
  "dhcp_listeners snap = map (\<lambda>g. new_server (seg_id g)) (filter (\<lambda>g. \<not> seg_dhcp_disabled g) (lan_segments snap))"

definition new_status :: status_registry where
  "new_status = \<lparr>reg_dns = \<lparr>st_up = False, st_last_err = ''''\<rparr>, reg_dhcp = []\<rparr>"

definition start_sqm :: "runner \<Rightarrow> config_data \<Rightarrow> command list \<times> sqm_error option" where
  "start_sqm run snap =
     (if sqm_enabled snap then
        sqm_apply run \<lparr>sq_enabled = True, sq_wan = wan_interface snap,
          sq_download_mbit = sqm_download_mbit snap, sq_upload_mbit = sqm_upload_mbit snap\<rparr>
      else ([], None))"

definition start_firewall :: "(string \<Rightarrow> string list \<Rightarrow> bool) \<Rightarrow> config_data \<Rightarrow> fw_action list \<times> fw_error option" where
  "start_firewall nft snap = (if firewall_enabled snap then apply_fw nft snap else ([], None))"

text \<open>The services, once the configuration is saved and the credentials are loaded.\<close>

definition start_services :: "boot_env \<Rightarrow> store \<Rightarrow> auth_store \<Rightarrow> boot_result" where
  "start_services env cfg creds =
     (let snap = snapshot cfg; fw = start_firewall (be_nft env) snap in
      if \<not> be_templates env then Fatal WebInitFailed
      else Running \<lparr>rn_web = web_new cfg creds (fold (install_action (be_nft env)) (fst fw) (be_installed env)),
             rn_dhcp = dhcp_listeners snap, rn_listening = map (\<lambda>_. False) (dhcp_listeners snap),
             rn_dns = None, rn_cache = new_recursive_cache, rn_status = new_status, rn_descriptors = 0,
             rn_sqm = start_sqm (be_run env) snap, rn_firewall = fw, rn_listen = listen_addr snap\<rparr>)"

definition boot :: "cli \<Rightarrow> boot_env \<Rightarrow> boot_result" where
  "boot cli env =
     (if cl_version cli then ShowedVersion
      else (case load (be_config env) (be_config_rnd env) (be_migrate_io env) of
          Inl e \<Rightarrow> Fatal (ConfigLoadFailed e)
        | Inr cfg \<Rightarrow>
            if cl_print_firewall cli then print_firewall cfg
            else (case save (be_save_io env) cfg of
                (cfg1, Some e) \<Rightarrow> Fatal (ConfigWriteFailed e)
              | (cfg1, None) \<Rightarrow>
                  (case auth_load (be_creds_rnd env) (be_creds_io env) (be_creds env) of
                     Inl e \<Rightarrow> Fatal (CredsLoadFailed e)
                   | Inr creds \<Rightarrow> start_services env cfg1 creds))))"

section \<open>The running process\<close>

text \<open>What can happen to it: an attempt of \<open>runForever\<close> to start a DHCP listener or the DNS server; a
  request to the dashboard, which shows the status registry and the DNS cache; a datagram for one of
  the DHCP listeners; a DNS query with its control messages in some state of the network; and the
  background write of deferred changes.\<close>

datatype 'w router_event =
    DhcpAttempt nat socket_env
  | DnsAttempt socket_env
  | Http web_env request
  | Datagram nat dhcp_env "byte list"
  | Query "'w outside" "byte list" "control_message list" 'w
  | BackgroundFlush io

text \<open>\<^const>\<open>None\<close> when a handler does not return. A listener that is up is not started again, and
  what arrives for one that is not is lost.\<close>

definition dhcp_attempt :: "nat \<Rightarrow> socket_env \<Rightarrow> running \<Rightarrow> running" where
  "dhcp_attempt k so st =
     (if length (rn_dhcp st) \<le> k \<or> rn_listening st ! k then st
      else (case dhcp_open so (w_cfg (rn_web st)) (rn_dhcp st ! k) (rn_status st, rn_descriptors st) of
          (Some e, reg, n) \<Rightarrow> st\<lparr>rn_status := reg, rn_descriptors := n\<rparr>
        | (None, reg, n) \<Rightarrow>
            st\<lparr>rn_status := reg, rn_descriptors := n, rn_listening := (rn_listening st)[k := True]\<rparr>))"

definition dns_attempt :: "socket_env \<Rightarrow> running \<Rightarrow> running" where
  "dns_attempt so st =
     (if rn_dns st \<noteq> None then st
      else (case dns_open so (rn_status st, rn_descriptors st) of
          (Inl e, reg, n) \<Rightarrow> st\<lparr>rn_status := reg, rn_descriptors := n\<rparr>
        | (Inr pinned, reg, n) \<Rightarrow> st\<lparr>rn_status := reg, rn_descriptors := n, rn_dns := Some pinned\<rparr>))"

definition dhcp_datagram :: "nat \<Rightarrow> dhcp_env \<Rightarrow> byte list \<Rightarrow> running \<Rightarrow> running option" where
  "dhcp_datagram k env b st =
     (if length (rn_dhcp st) \<le> k \<or> \<not> rn_listening st ! k then Some st
      else (case serve env (w_cfg (rn_web st)) (rn_dhcp st ! k) b of
          None \<Rightarrow> None
        | Some (cfg, srv, out) \<Rightarrow>
            Some (st\<lparr>rn_web := (rn_web st)\<lparr>w_cfg := cfg\<rparr>, rn_dhcp := (rn_dhcp st)[k := srv]\<rparr>)))"

definition dns_query ::
  "'w outside \<Rightarrow> byte list \<Rightarrow> control_message list \<Rightarrow> 'w \<Rightarrow> running \<Rightarrow> running" where
  "dns_query out b oob w st =
     (case rn_dns st of
        None \<Rightarrow> st
      | Some pinned \<Rightarrow>
          (case dns_serve out (snapshot (w_cfg (rn_web st))) (rn_cache st) b (if pinned then oob else []) w of
             (reply, cache, w') \<Rightarrow> st\<lparr>rn_cache := cache\<rparr>))"

definition http_request :: "web_env \<Rightarrow> request \<Rightarrow> running \<Rightarrow> running" where
  "http_request env r st =
     st\<lparr>rn_web := snd (web_serve (env\<lparr>we_status := rn_status st, we_cache := Some (rn_cache st)\<rparr>) r (rn_web st))\<rparr>"

definition router_step :: "'w router_event \<Rightarrow> running \<Rightarrow> running option" where
  "router_step ev st =
     (case ev of
        DhcpAttempt k so \<Rightarrow> Some (dhcp_attempt k so st)
      | DnsAttempt so \<Rightarrow> Some (dns_attempt so st)
      | Http env r \<Rightarrow> Some (http_request env r st)
      | Datagram k env b \<Rightarrow> dhcp_datagram k env b st
      | Query out b oob w \<Rightarrow> Some (dns_query out b oob w st)
      | BackgroundFlush io \<Rightarrow>
          Some (st\<lparr>rn_web := (rn_web st)\<lparr>w_cfg := fst (flush io (w_cfg (rn_web st)))\<rparr>\<rparr>))"

fun router_run :: "'w router_event list \<Rightarrow> running \<Rightarrow> running option" where
  "router_run [] st = Some st"
| "router_run (ev # evs) st = (case router_step ev st of None \<Rightarrow> None | Some st' \<Rightarrow> router_run evs st')"

text \<open>On SIGINT or SIGTERM the configuration is flushed and the process exits.\<close>

definition shutdown :: "io \<Rightarrow> running \<Rightarrow> store \<times> cfg_error option" where
  "shutdown io st = flush io (w_cfg (rn_web st))"

end
