(* ===== verification/Web_Panel.thy ===== *)
theory Web_Panel
  imports Web_Routes
begin

text \<open>
  Properties of the panels of the dashboard: what the kernel runs against what the firewall
  panel saved, and the device list.
\<close>

section \<open>The firewall panel and the kernel\<close>

text \<open>While the firewall is on, the kernel runs the rule set of the saved configuration.\<close>

definition in_sync :: "web \<Rightarrow> bool" where
  "in_sync w \<longleftrightarrow> (firewall_enabled (dat (w_cfg w)) \<longrightarrow>
     (\<exists>t. render (dat (w_cfg w)) = Inr t \<and> w_kernel w = Some t))"

text \<open>The same configuration and the same rules in the kernel.\<close>

definition same_rules :: "web \<Rightarrow> web \<Rightarrow> bool" where
  "same_rules w w' \<longleftrightarrow> dat (w_cfg w') = dat (w_cfg w) \<and> w_kernel w' = w_kernel w"

lemma same_rules_in_sync: "same_rules w w' \<Longrightarrow> in_sync w \<Longrightarrow> in_sync w'"
  by (simp add: same_rules_def in_sync_def)

lemma apply_firewall_cfg:
  "apply_firewall env w = (e, w1) \<Longrightarrow> w_cfg w1 = w_cfg w"
  by (auto simp: apply_firewall_def split: prod.splits)

lemma apply_firewall_ok:
  assumes "apply_firewall env w = (None, w1)"
  shows "in_sync w1"
  using assms
  by (auto simp: apply_firewall_def apply_fw_def remove_fw_def in_sync_def install_action_def snapshot_def
      check_args_def install_args_def split: if_splits sum.splits)

lemma apply_firewall_error:
  assumes "apply_firewall env w = (Some e, w1)"
  shows "w_kernel w1 = w_kernel w"
  using assms
  by (auto simp: apply_firewall_def apply_fw_def remove_fw_def install_action_def
      check_args_def install_args_def split: if_splits sum.splits)

lemma apply_if_enabled_cfg: "apply_if_enabled env w = (e, w1) \<Longrightarrow> w_cfg w1 = w_cfg w"
  by (auto simp: apply_if_enabled_def dest: apply_firewall_cfg split: if_splits)

lemma apply_if_enabled_ok: "apply_if_enabled env w = (None, w1) \<Longrightarrow> in_sync w1"
  by (auto simp: apply_if_enabled_def snapshot_def split: if_splits dest: apply_firewall_ok)
     (simp add: in_sync_def)

lemma apply_if_enabled_error:
  "apply_if_enabled env w = (Some e, w1) \<Longrightarrow> w_kernel w1 = w_kernel w \<and> firewall_enabled (dat (w_cfg w))"
  by (auto simp: apply_if_enabled_def snapshot_def split: if_splits dest: apply_firewall_error)

lemmas panel_defs = handle_firewall_add_rule_def handle_firewall_docker_def handle_firewall_trusted_def
  bad_form_def save_failed_def Let_def

lemma remove_appended:
  "\<forall>x \<in> set xs. key x \<noteq> key y \<Longrightarrow> remove_by key (key y) (xs @ [y]) = xs"
  by (simp add: remove_by_def filter_True)

text \<open>A write that succeeds leaves no error, so the handlers go on to apply.\<close>

lemma save_locked_ok:
  assumes "save_locked IoOk s = (s', e)" shows "e = None \<and> dat s' = dat s"
  using assms dat_save_locked [of IoOk s]
  by (auto simp: save_locked_def write_snapshot_def Let_def split: if_splits)

text \<open>Either nothing changed, or the change was made and the page says so.\<close>

definition settled :: "web \<Rightarrow> response \<Rightarrow> web \<Rightarrow> bool" where
  "settled w resp w' \<longleftrightarrow> same_rules w w' \<or> (in_sync w' \<and> (\<exists>m. resp = FirewallPage 200 NoMsg (Msg m)))"

lemma add_rule_settled:
  assumes "we_save env = IoOk"
    and "\<forall>v \<in> set (port_rules (dat (w_cfg w))). rule_id v \<noteq> new_rule_id (we_random env)"
  shows "settled w (fst (handle_firewall_add_rule env r w)) (snd (handle_firewall_add_rule env r w))"
proof -
  let ?v = "named_rule (form_rule r)"
  obtain cfg added e where a: "add_port_rule (we_random env) IoOk ?v (w_cfg w) = (cfg, added, e)"
    by (metis prod_cases3)
  let ?d = "dat (w_cfg w)"
  from a have d: "dat cfg = ?d\<lparr>port_rules := port_rules ?d @ [added]\<rparr>" "e = None"
      and i: "rule_id added = new_rule_id (we_random env)"
    by (auto simp: add_port_rule_def Let_def split: prod.splits dest!: save_locked_ok)
  obtain e2 w1 where ap: "apply_if_enabled env (w\<lparr>w_cfg := cfg\<rparr>) = (e2, w1)" by fastforce
  have c: "w_cfg w1 = cfg" using apply_if_enabled_cfg [OF ap] by simp
  have k: "w_kernel w1 = w_kernel w" if "e2 = Some x" for x
    using apply_if_enabled_error ap that by fastforce
  have undo: "dat (fst (remove_port_rule io (rule_id added) (w_cfg w1))) = ?d" for io
    using assms(2) i d remove_appended [of "port_rules ?d" rule_id added] by (simp add: remove_port_rule_def c)
  show ?thesis
  proof (cases "rq_form_ok r \<and> validate_rule (form_rule r) (lan_segments ?d) = None")
    case True
    then show ?thesis using a ap d(2) undo k assms(1) apply_if_enabled_ok [of env _ w1]
      by (cases e2) (auto simp: settled_def same_rules_def panel_defs snapshot_def)
  qed (auto simp: settled_def same_rules_def panel_defs snapshot_def split: option.split)
qed

lemma docker_settled:
  assumes "we_save env = IoOk"
  shows "settled w (fst (handle_firewall_docker env r w)) (snd (handle_firewall_docker env r w))"
proof -
  let ?d = "dat (w_cfg w)" and ?en = "rq_post_form r ''docker_enabled'' = ''1''"
  let ?ifs = "form_interfaces r ''docker_interfaces''" and ?src = "post_field r ''docker_wan_source''"
  obtain cfg e where a: "set_docker IoOk ?en ?ifs ?src (w_cfg w) = (cfg, e)" by fastforce
  then have d: "dat cfg = ?d\<lparr>docker_enabled := ?en, docker_interfaces := ?ifs, docker_wan_source := ?src\<rparr>"
      "e = None"
    by (auto simp: set_docker_def dest!: save_locked_ok)
  obtain e2 w1 where ap: "apply_if_enabled env (w\<lparr>w_cfg := cfg\<rparr>) = (e2, w1)" by fastforce
  have c: "w_cfg w1 = cfg" using apply_if_enabled_cfg [OF ap] by simp
  have k: "w_kernel w1 = w_kernel w" if "e2 = Some x" for x
    using apply_if_enabled_error ap that by fastforce
  have undo: "dat (fst (set_docker io (docker_enabled ?d) (docker_interfaces ?d) (docker_wan_source ?d) (w_cfg w1)))
      = ?d" for io
    by (simp add: set_docker_def c d(1))
  show ?thesis
    using a ap d(2) undo k assms apply_if_enabled_ok [of env _ w1]
    by (cases e2) (auto simp: settled_def same_rules_def panel_defs snapshot_def split: option.split)
qed

lemma trusted_settled:
  assumes "we_save env = IoOk"
  shows "settled w (fst (handle_firewall_trusted env r w)) (snd (handle_firewall_trusted env r w))"
proof -
  let ?d = "dat (w_cfg w)" and ?ifs = "form_interfaces r ''trusted_interfaces''"
  obtain cfg e where a: "set_trusted_interfaces IoOk ?ifs (w_cfg w) = (cfg, e)" by fastforce
  then have d: "dat cfg = ?d\<lparr>trusted_interfaces := ?ifs\<rparr>" "e = None"
    by (auto simp: set_trusted_interfaces_def dest!: save_locked_ok)
  obtain e2 w1 where ap: "apply_if_enabled env (w\<lparr>w_cfg := cfg\<rparr>) = (e2, w1)" by fastforce
  have c: "w_cfg w1 = cfg" using apply_if_enabled_cfg [OF ap] by simp
  have k: "w_kernel w1 = w_kernel w" if "e2 = Some x" for x
    using apply_if_enabled_error ap that by fastforce
  have undo: "dat (fst (set_trusted_interfaces io (trusted_interfaces ?d) (w_cfg w1))) = ?d" for io
    by (simp add: set_trusted_interfaces_def c d(1))
  show ?thesis
    using a ap d(2) undo k assms apply_if_enabled_ok [of env _ w1]
    by (cases e2) (auto simp: settled_def same_rules_def panel_defs snapshot_def split: option.split)
qed

text \<open>Turning one rule on or off: the roll-back restores a rule that really had the other state,
  and overwrites one that had not.\<close>

lemma update_by_update:
  "update_by key k f xs = Some ys \<Longrightarrow> (\<And>x. key (f x) = key x) \<Longrightarrow>
   update_by key k g ys = update_by key k (g \<circ> f) xs"
  by (induction xs arbitrary: ys) (auto split: if_splits)

lemma update_by_same:
  "(\<forall>v. find_by key k xs = Some v \<longrightarrow> f v = v) \<Longrightarrow> find_by key k xs \<noteq> None \<Longrightarrow>
   update_by key k f xs = Some xs"
  by (induction xs) auto

lemma set_rule_disabled_ok:
  assumes "set_port_rule_disabled IoOk i dis s = (s', None)"
  shows "update_by rule_id i (\<lambda>v. v\<lparr>rule_disabled := dis\<rparr>) (port_rules (dat s)) = Some (port_rules (dat s'))"
    and "dat s' = (dat s)\<lparr>port_rules := port_rules (dat s')\<rparr>"
  using assms by (auto simp: set_port_rule_disabled_def split: option.splits dest!: save_locked_ok)

text \<open>After the roll-back the rule has the opposite of the state asked for.\<close>

lemma set_rule_disabled_twice:
  assumes "set_port_rule_disabled IoOk i dis s = (s', None)" "find_by rule_id i (port_rules (dat s)) = Some v"
  shows "find_by rule_id i (port_rules (dat (fst (set_port_rule_disabled io i (\<not> dis) s')))) =
      Some (v\<lparr>rule_disabled := \<not> dis\<rparr>)"
    and "rule_disabled v \<noteq> dis \<Longrightarrow> dat (fst (set_port_rule_disabled io i (\<not> dis) s')) = dat s"
proof -
  note u = set_rule_disabled_ok [OF assms(1)]
  let ?g = "(\<lambda>v. v\<lparr>rule_disabled := \<not> dis\<rparr>) \<circ> (\<lambda>v. v\<lparr>rule_disabled := dis\<rparr>)"
  have t: "update_by rule_id i (\<lambda>v. v\<lparr>rule_disabled := \<not> dis\<rparr>) (port_rules (dat s')) =
      update_by rule_id i ?g (port_rules (dat s))"
    using update_by_update [OF u(1)] by simp
  obtain ys where ys: "update_by rule_id i ?g (port_rules (dat s)) = Some ys"
    using assms(2) update_by_None [of rule_id i ?g] by (metis not_None_eq)
  then have r: "dat (fst (set_port_rule_disabled io i (\<not> dis) s')) = (dat s')\<lparr>port_rules := ys\<rparr>"
    by (simp add: set_port_rule_disabled_def t)
  show "find_by rule_id i (port_rules (dat (fst (set_port_rule_disabled io i (\<not> dis) s')))) =
      Some (v\<lparr>rule_disabled := \<not> dis\<rparr>)"
    using find_by_update [OF ys, of i] assms(2) by (simp add: r)
  assume "rule_disabled v \<noteq> dis"
  then have "?g v = v" by simp
  with assms(2) have "update_by rule_id i ?g (port_rules (dat s)) = Some (port_rules (dat s))"
    by (intro update_by_same) auto
  with ys have y: "ys = port_rules (dat s)" by simp
  have self: "(d::config_data)\<lparr>port_rules := q, port_rules := port_rules d\<rparr> = d" for d q by (cases d) simp
  show "dat (fst (set_port_rule_disabled io i (\<not> dis) s')) = dat s"
    unfolding r y by (subst u(2)) (rule self)
qed

lemma toggle_rule_settled:
  assumes "we_save env = IoOk"
    and "\<forall>v. find_by rule_id (post_field r ''id'') (port_rules (dat (w_cfg w))) = Some v \<longrightarrow>
           rule_disabled v \<noteq> (rq_post_form r ''disabled'' = ''1'')"
  shows "settled w (fst (handle_firewall_toggle_rule env r w)) (snd (handle_firewall_toggle_rule env r w))"
proof -
  let ?i = "post_field r ''id''" and ?dis = "rq_post_form r ''disabled'' = ''1''"
  obtain cfg e where a: "set_port_rule_disabled IoOk ?i ?dis (w_cfg w) = (cfg, e)" by fastforce
  obtain e2 w1 where ap: "apply_if_enabled env (w\<lparr>w_cfg := cfg\<rparr>) = (e2, w1)" by fastforce
  have c: "w_cfg w1 = cfg" using apply_if_enabled_cfg [OF ap] by simp
  have k: "w_kernel w1 = w_kernel w" if "e2 = Some x" for x
    using apply_if_enabled_error ap that by fastforce
  show ?thesis
  proof (cases "find_by rule_id ?i (port_rules (dat (w_cfg w)))")
    case None
    with a update_by_None [of rule_id ?i _ "port_rules (dat (w_cfg w))"]
    have "e = Some (ErrRuleNotFound ?i) \<and> cfg = w_cfg w" by (simp add: set_port_rule_disabled_def)
    with a assms(1) show ?thesis
      by (simp add: settled_def same_rules_def handle_firewall_toggle_rule_def bad_form_def)
  next
    case (Some v)
    with a have e: "e = None"
      by (auto simp: set_port_rule_disabled_def dest!: save_locked_ok split: option.splits
          simp: update_by_None)
    from set_rule_disabled_twice(2) [OF a [unfolded e] Some] assms(2) Some
    have undo: "dat (fst (set_port_rule_disabled io ?i (\<not> ?dis) (w_cfg w1))) = dat (w_cfg w)" for io
      by (simp add: c)
    show ?thesis
      using a e ap undo k assms(1) apply_if_enabled_ok [of env _ w1]
      by (cases e2) (auto simp: settled_def same_rules_def handle_firewall_toggle_rule_def bad_form_def)
  qed
qed

lemma toggle_in_sync:
  assumes "in_sync w" "we_save env = IoOk"
  shows "in_sync (snd (handle_firewall_toggle env r w))"
proof -
  let ?en = "rq_post_form r ''enabled'' = ''1''"
  obtain cfg e where a: "set_firewall_enabled IoOk ?en (w_cfg w) = (cfg, e)" by fastforce
  then have d: "firewall_enabled (dat cfg) = ?en" "e = None"
    by (auto simp: set_firewall_enabled_def dest!: save_locked_ok)
  obtain e2 w1 where ap: "apply_firewall env (w\<lparr>w_cfg := cfg\<rparr>) = (e2, w1)" by fastforce
  have c: "w_cfg w1 = cfg" using apply_firewall_cfg [OF ap] by simp
  have off: "in_sync (w1\<lparr>w_cfg := fst (set_firewall_enabled io False (w_cfg w1))\<rparr>)" for io
    by (simp add: in_sync_def set_firewall_enabled_def)
  have "\<not> ?en \<Longrightarrow> in_sync w1" using c d by (simp add: in_sync_def)
  with assms a d(2) ap off apply_firewall_ok [of env _ w1] show ?thesis
    by (cases e2) (auto simp: handle_firewall_toggle_def Let_def)
qed

definition ex_panel_env :: web_env where
  "ex_panel_env = \<lparr>we_now = 0, we_save = IoOk, we_save2 = IoOk, we_random = Some [1, 2, 3],
     we_nft = (\<lambda>t args. False), we_run = (\<lambda>cs c. None), we_files = (\<lambda>p. None), we_addrs = (\<lambda>i. None),
     we_status = \<lparr>reg_dns = \<lparr>st_up = True, st_last_err = ''''\<rparr>, reg_dhcp = []\<rparr>, we_cache = None,
     we_mem = (0, 0), we_date = (\<lambda>t. '''')\<rparr>"

definition ex_panel_request :: "(string \<Rightarrow> string) \<Rightarrow> request" where
  "ex_panel_request form = \<lparr>rq_method = ''POST'', rq_path = '''', rq_cookie = None, rq_form_ok = True,
     rq_form = form, rq_post_form = form, rq_query = (\<lambda>k. ''''), rq_upload = NoUpload\<rparr>"

definition ex_off_rule :: port_rule where
  "ex_off_rule = \<lparr>rule_id = ''r1'', rule_name = ''ssh'', rule_kind = ''input'', rule_protocol = ''tcp'',
     rule_port = ''22'', rule_to_ip = '''', rule_to_port = '''', rule_source = '''', rule_disabled = True\<rparr>"

definition ex_panel :: web where
  "ex_panel = web_new (new_store ((default_data None)\<lparr>firewall_enabled := True, trusted_interfaces := [''wg0''],
       port_rules := [ex_off_rule]\<rparr>) None) \<lparr>au_creds = no_credentials, au_disk = None\<rparr> None"

lemma ex_panel_enabled: "firewall_enabled (dat (w_cfg ex_panel))"
  by (simp add: ex_panel_def web_new_def new_store_def)

lemma refused_apply:
  assumes "firewall_enabled (dat (w_cfg w))"
  shows "\<exists>e. apply_if_enabled ex_panel_env w = (Some e, w)"
proof -
  have "\<exists>acts e. apply_fw (\<lambda>t args. False) (dat (w_cfg w)) = (acts, Some e)"
    using assms by (auto simp: apply_fw_def split: sum.split)
  then obtain acts e where a: "apply_fw (\<lambda>t args. False) (dat (w_cfg w)) = (acts, Some e)" by blast
  have "install_action (\<lambda>t args. False) act = id" for act
    by (auto simp: install_action_def fun_eq_iff split: fw_action.split)
  then have "fold (install_action (\<lambda>t args. False)) acts = id" by (induction acts) simp_all
  with a assms show ?thesis
    by (simp add: apply_if_enabled_def apply_firewall_def snapshot_def ex_panel_env_def)
qed



text \<open>A rule that is asked to take the state it already has is left in the other state when
  nft refuses the rules, although the page says that nothing was changed.\<close>

lemma rule_toggle_rollback_flips:
  assumes "handle_firewall_toggle_rule env r w = (FirewallPage 200 (FwMsg m e) ok, w')"
    and "we_save env = IoOk"
    and "find_by rule_id (post_field r ''id'') (port_rules (dat (w_cfg w))) = Some v"
    and "rule_disabled v = (rq_post_form r ''disabled'' = ''1'')"
  shows "m = ''Not changed - applying it failed and nothing was changed. '' \<and>
    find_by rule_id (post_field r ''id'') (port_rules (dat (w_cfg w'))) =
      Some (v\<lparr>rule_disabled := \<not> rule_disabled v\<rparr>) \<and>
    w_kernel w' = w_kernel w"
proof -
  let ?i = "post_field r ''id''" and ?dis = "rq_post_form r ''disabled'' = ''1''"
  obtain cfg er where a: "set_port_rule_disabled IoOk ?i ?dis (w_cfg w) = (cfg, er)" by fastforce
  with assms(3) have er: "er = None"
    by (auto simp: set_port_rule_disabled_def update_by_None dest!: save_locked_ok split: option.splits)
  obtain e2 w1 where ap: "apply_if_enabled env (w\<lparr>w_cfg := cfg\<rparr>) = (e2, w1)" by fastforce
  have c: "w_cfg w1 = cfg" using apply_if_enabled_cfg [OF ap] by simp
  from assms(1,2) a er ap obtain x where x: "e2 = Some x"
      "m = ''Not changed - applying it failed and nothing was changed. ''"
      "w' = w1\<lparr>w_cfg := fst (set_port_rule_disabled (we_save2 env) ?i (\<not> ?dis) (w_cfg w1))\<rparr>"
    by (cases e2) (auto simp: handle_firewall_toggle_rule_def bad_form_def split: if_splits)
  have "w_kernel w1 = w_kernel w" using apply_if_enabled_error ap x(1) by fastforce
  with set_rule_disabled_twice(1) [OF a [unfolded er] assms(3)] x assms(4) c show ?thesis by simp
qed

section \<open>The device list\<close>

lemma row_macs [simp]:
  "dr_mac (reservation_row snap ed v) = res_mac v" "dr_mac (lease_row date snap ed now l) = lease_mac l"
  "dr_mac (arp_row snap ed e g) = arp_mac e" "dr_mac (offline_row date snap ed d) = dev_mac d"
  by (simp_all add: reservation_row_def lease_row_def arp_row_def offline_row_def make_row_def Let_def)

text \<open>What the loops maintain: the rows' addresses are distinct and are the ones marked as seen.\<close>

definition rows_ok :: "device_row list \<Rightarrow> string list \<Rightarrow> bool" where
  "rows_ok rows seen \<longleftrightarrow> distinct (map dr_mac rows) \<and> dr_mac ` set rows = set seen"

lemma rows_ok_add: "rows_ok rows seen \<Longrightarrow> dr_mac d \<notin> set seen \<Longrightarrow> rows_ok (rows @ [d]) (dr_mac d # seen)"
  by (auto simp: rows_ok_def)

lemma lease_rows_ok:
  "rows_ok rows seen \<Longrightarrow> lease_rows date snap ed now ls (rows, seen) = (rows', seen') \<Longrightarrow>
   rows_ok rows' seen' \<and> set seen' = set seen \<union> lease_mac ` set ls"
proof (induction ls arbitrary: rows seen)
  case (Cons l ls)
  then show ?case using rows_ok_add [of rows seen "lease_row date snap ed now l"]
    by (auto split: if_splits)
qed auto

text \<open>The ARP entries that count: those on an interface of a segment.\<close>

definition on_segment :: "config_data \<Rightarrow> arp_entry \<Rightarrow> bool" where
  "on_segment snap e \<longleftrightarrow> arp_interface e \<in> seg_interface ` set (lan_segments snap)"

lemma segment_by_interface_iff: "segment_by_interface snap (arp_interface e) \<noteq> None \<longleftrightarrow> on_segment snap e"
  by (auto simp: segment_by_interface_def on_segment_def find_None_iff intro: rev_image_eqI)

lemma arp_rows_ok:
  "rows_ok rows seen \<Longrightarrow> arp_rows snap ed now es (rows, seen, cfg) = (rows', seen', cfg') \<Longrightarrow>
   rows_ok rows' seen' \<and> set seen' = set seen \<union> arp_mac ` {e \<in> set es. on_segment snap e}"
proof (induction es arbitrary: rows seen cfg)
  case (Cons e es)
  show ?case
  proof (cases "arp_mac e \<in> set seen \<or> \<not> on_segment snap e")
    case True
    with Cons.prems(2) have "arp_rows snap ed now es (rows, seen, cfg) = (rows', seen', cfg')"
      using segment_by_interface_iff [of snap e] by (auto split: if_splits)
    from Cons.IH [OF Cons.prems(1) this] True show ?thesis by auto
  next
    case False
    then obtain g where g: "segment_by_interface snap (arp_interface e) = Some g"
      using segment_by_interface_iff [of snap e] by auto
    from Cons.prems(2) False g obtain cfg2 where
      "arp_rows snap ed now es (rows @ [arp_row snap ed e g], arp_mac e # seen, cfg2) = (rows', seen', cfg')"
      by auto
    from Cons.IH [OF _ this] rows_ok_add [OF Cons.prems(1), of "arp_row snap ed e g"] False
    show ?thesis by auto
  qed
qed auto

lemma offline_rows_ok:
  "rows_ok rows seen \<Longrightarrow> offline_rows date snap ed ds (rows, seen) = (rows', seen') \<Longrightarrow>
   rows_ok rows' seen' \<and> set seen' = set seen \<union> dev_mac ` set ds"
proof (induction ds arbitrary: rows seen)
  case (Cons d ds)
  then show ?case using rows_ok_add [of rows seen "offline_row date snap ed d"]
    by (auto split: if_splits)
qed auto

text \<open>C24: The device list shows every device once: if no two reservations share a MAC address, the
  rows have distinct addresses, and they are exactly those of the reservations, the leases, the
  ARP entries on a segment's interface and the devices seen before.\<close>

theorem devices_listed_once:
  assumes "distinct (map res_mac (reservations snap))"
    and "device_rows date snap ed now es cfg = (rows, cfg')"
  shows "distinct (map dr_mac rows) \<and>
    dr_mac ` set rows = res_mac ` set (reservations snap) \<union> lease_mac ` set (leases snap) \<union>
      arp_mac ` {e \<in> set es. on_segment snap e} \<union> dev_mac ` set (discovered_devices snap)"
proof -
  let ?rs = "map (reservation_row snap ed) (reservations snap)"
  have 0: "rows_ok ?rs (map res_mac (reservations snap))"
    using assms(1) by (auto simp: rows_ok_def comp_def image_comp)
  obtain r1 s1 where 1: "lease_rows date snap ed now (leases snap) (?rs, map res_mac (reservations snap)) = (r1, s1)"
    by fastforce
  obtain r2 s2 c2 where 2: "arp_rows snap ed now es (r1, s1, cfg) = (r2, s2, c2)" by (metis prod_cases3)
  obtain r3 s3 where 3: "offline_rows date snap ed (discovered_devices snap) (r2, s2) = (r3, s3)" by fastforce
  have "rows = r3" using assms(2) 1 2 3 by (simp add: device_rows_def)
  with lease_rows_ok [OF 0 1] arp_rows_ok [OF _ 2] offline_rows_ok [OF _ 3] show ?thesis
    by (auto simp: rows_ok_def)
qed

theorem devices_listed_once_witness:
  "\<exists>rows cfg'. device_rows (\<lambda>t. '''') (dat (w_cfg ex_panel)) [] 0
       [\<lparr>arp_ip = ''10.0.0.7'', arp_mac = ''m1'', arp_interface = ''enp1s0''\<rparr>] (w_cfg ex_panel) = (rows, cfg') \<and>
     map dr_mac rows = [''m1'']"
proof -
  let ?d = "dat (w_cfg ex_panel)" and ?e = "\<lparr>arp_ip = ''10.0.0.7'', arp_mac = ''m1'', arp_interface = ''enp1s0''\<rparr>"
  obtain rows cfg' where r: "device_rows (\<lambda>t. '''') ?d [] 0 [?e] (w_cfg ex_panel) = (rows, cfg')" by fastforce
  have d: "reservations ?d = []" "leases ?d = []" "discovered_devices ?d = []" "on_segment ?d ?e"
    by (simp_all add: ex_panel_def web_new_def new_store_def default_data_def on_segment_def)
  have "distinct (map dr_mac rows) \<and> dr_mac ` set rows = {''m1''}"
    using devices_listed_once [OF _ r] d by (auto simp: Collect_conv_if)
  then have s: "set (map dr_mac rows) = {''m1''}" and "distinct (map dr_mac rows)" by simp_all
  from distinct_card [OF this(2)] have "length (map dr_mac rows) = 1" unfolding s by simp
  with s have "map dr_mac rows = [''m1'']" by (cases "map dr_mac rows") auto
  with r show ?thesis by (intro exI conjI)
qed

end
