(* ===== verification/Config_Ops.thy ===== *)
theory Config_Ops
  imports Config
begin

text \<open>
  The methods of \<open>Config\<close> that change it, as one step relation. What every method keeps is
  proved here once; that the dashboard's handlers and the servers are sequences of these steps is
  proved where they are modelled.
\<close>

section \<open>Segments that DHCP can serve\<close>

definition segment_usable :: "lan_segment \<Rightarrow> bool" where
  "segment_usable g \<longleftrightarrow> to4 (parse_ip (seg_address g)) \<noteq> [] \<and> to4 (parse_ip (seg_subnet_mask g)) \<noteq> [] \<and>
     (\<not> seg_dhcp_disabled g \<longrightarrow>
        to4 (parse_ip (seg_pool_start g)) \<noteq> [] \<and> to4 (parse_ip (seg_pool_end g)) \<noteq> [] \<and>
        u32_at (to4 (parse_ip (seg_pool_start g))) 0 \<le> u32_at (to4 (parse_ip (seg_pool_end g))) 0)"

lemma usable_set_id [simp]: "segment_usable (g\<lparr>seg_id := i\<rparr>) = segment_usable g"
  by (simp add: segment_usable_def)

section \<open>Steps\<close>

text \<open>With \<open>safe\<close> the write of a method that saves at once succeeds; with \<open>imp\<close> a whole
  configuration may be imported. A segment is added or changed after it was validated.\<close>

inductive cfg_op :: "bool \<Rightarrow> bool \<Rightarrow> store \<Rightarrow> store \<Rightarrow> bool" for safe imp where
  op_import: "(safe \<longrightarrow> io = IoOk) \<Longrightarrow> imp \<Longrightarrow> cfg_op safe imp s (fst (import_json io p s))"
| op_add_segment: "(safe \<longrightarrow> io = IoOk) \<Longrightarrow> segment_usable g \<Longrightarrow>
    cfg_op safe imp s (fst (add_lan_segment rnd io g s))"
| op_update_segment: "(safe \<longrightarrow> io = IoOk) \<Longrightarrow> segment_usable g \<Longrightarrow>
    cfg_op safe imp s (fst (update_lan_segment io i g s))"
| op_remove_segment: "(safe \<longrightarrow> io = IoOk) \<Longrightarrow> cfg_op safe imp s (fst (remove_lan_segment io i s))"
| op_add_reservation: "(safe \<longrightarrow> io = IoOk) \<Longrightarrow> cfg_op safe imp s (fst (add_reservation io v s))"
| op_remove_reservation: "(safe \<longrightarrow> io = IoOk) \<Longrightarrow> cfg_op safe imp s (fst (remove_reservation io m s))"
| op_set_hostname: "(safe \<longrightarrow> io = IoOk) \<Longrightarrow> cfg_op safe imp s (fst (set_hostname_override io m h s))"
| op_add_record: "(safe \<longrightarrow> io = IoOk) \<Longrightarrow> cfg_op safe imp s (fst (add_dns_record io v s))"
| op_remove_record: "(safe \<longrightarrow> io = IoOk) \<Longrightarrow> cfg_op safe imp s (fst (remove_dns_record io n s))"
| op_upsert_lease: "cfg_op safe imp s (upsert_lease l s)"
| op_remove_lease: "(safe \<longrightarrow> io = IoOk) \<Longrightarrow> cfg_op safe imp s (fst (remove_lease io m s))"
| op_upsert_device: "cfg_op safe imp s (upsert_discovered_device v s)"
| op_remove_device: "(safe \<longrightarrow> io = IoOk) \<Longrightarrow> cfg_op safe imp s (fst (remove_discovered_device io m s))"
| op_network: "(safe \<longrightarrow> io = IoOk) \<Longrightarrow>
    cfg_op safe imp s (fst (update_global_network io wan mode secs upstream s))"
| op_sqm: "(safe \<longrightarrow> io = IoOk) \<Longrightarrow> cfg_op safe imp s (fst (update_sqm io en down up s))"
| op_docker: "(safe \<longrightarrow> io = IoOk) \<Longrightarrow> cfg_op safe imp s (fst (set_docker io en ifs src s))"
| op_trusted: "(safe \<longrightarrow> io = IoOk) \<Longrightarrow> cfg_op safe imp s (fst (set_trusted_interfaces io ifs s))"
| op_firewall: "(safe \<longrightarrow> io = IoOk) \<Longrightarrow> cfg_op safe imp s (fst (set_firewall_enabled io en s))"
| op_add_rule: "(safe \<longrightarrow> io = IoOk) \<Longrightarrow> cfg_op safe imp s (fst (add_port_rule rnd io v s))"
| op_remove_rule: "(safe \<longrightarrow> io = IoOk) \<Longrightarrow> cfg_op safe imp s (fst (remove_port_rule io i s))"
| op_toggle_rule: "(safe \<longrightarrow> io = IoOk) \<Longrightarrow>
    cfg_op safe imp s (fst (set_port_rule_disabled io i dis s))"
| op_save: "(safe \<longrightarrow> io = IoOk) \<Longrightarrow> cfg_op safe imp s (fst (save io s))"
| op_flush: "cfg_op safe imp s (fst (flush io s))"

inductive_cases cfg_opE: "cfg_op safe imp s s'"

abbreviation cfg_ops :: "bool \<Rightarrow> bool \<Rightarrow> store \<Rightarrow> store \<Rightarrow> bool" where
  "cfg_ops safe imp \<equiv> (cfg_op safe imp)\<^sup>*\<^sup>*"

lemma op_chain: "cfg_op safe imp t u \<Longrightarrow> cfg_ops safe imp s t \<Longrightarrow> cfg_ops safe imp s u"
  by (rule rtranclp.rtrancl_into_rtrancl)

lemmas ops_chain = cfg_op.intros [THEN op_chain]

lemma cfg_op_imports: "cfg_op safe False s s' \<Longrightarrow> cfg_op safe imp s s'"
  by (erule cfg_op.cases) (auto intro: cfg_op.intros)

lemma cfg_ops_imports: "cfg_ops safe False s s' \<Longrightarrow> cfg_ops safe imp s s'"
  by (induction rule: rtranclp_induct) (auto intro: cfg_op_imports rtranclp.rtrancl_into_rtrancl)

section \<open>Invariants\<close>

text \<open>The interface of an invariant: every step keeps it, so every sequence does.\<close>

locale store_invariant =
  fixes safe imp :: bool and P :: "store \<Rightarrow> bool"
  assumes step: "cfg_op safe imp s s' \<Longrightarrow> P s \<Longrightarrow> P s'"
begin

lemma steps: "cfg_ops safe imp s s' \<Longrightarrow> P s \<Longrightarrow> P s'"
  by (induction rule: rtranclp_induct) (auto intro: step)

end

text \<open>What a step does to the data.\<close>

lemmas op_defs = import_json_def add_lan_segment_def update_lan_segment_def remove_lan_segment_def
  add_reservation_def remove_reservation_def set_hostname_override_def add_dns_record_def
  remove_dns_record_def upsert_lease_def remove_lease_def upsert_discovered_device_def
  remove_discovered_device_def update_global_network_def update_sqm_def set_docker_def
  set_trusted_interfaces_def set_firewall_enabled_def add_port_rule_def remove_port_rule_def
  set_port_rule_disabled_def save_def Let_def case_prod_beta

text \<open>Usable segments.\<close>

definition segments_usable :: "store \<Rightarrow> bool" where
  "segments_usable s \<longleftrightarrow> list_all segment_usable (lan_segments (dat s))"

lemma list_all_update_by:
  "update_by key k f xs = Some ys \<Longrightarrow> list_all P xs \<Longrightarrow> (\<And>x. P (f x)) \<Longrightarrow> list_all P ys"
  by (induction xs arbitrary: ys) (auto split: if_splits)

lemma list_all_remove_by: "list_all P xs \<Longrightarrow> list_all P (remove_by key k xs)"
  by (auto simp: list_all_iff remove_by_def)

interpretation usable_inv: store_invariant safe False segments_usable for safe
proof
  fix s s' assume "cfg_op safe False s s'" "segments_usable s"
  then show "segments_usable s'"
    by (elim cfg_opE)
       (auto simp: segments_usable_def op_defs list_all_remove_by
         elim: list_all_update_by split: option.split)
qed

text \<open>Unique keys.\<close>

definition keyed :: "config_data \<Rightarrow> bool" where
  "keyed d \<longleftrightarrow> distinct (map res_mac (reservations d)) \<and> distinct (map rec_name (dns_records d)) \<and>
     distinct (map lease_mac (leases d)) \<and> distinct (map dev_mac (discovered_devices d))"

interpretation keyed_inv: store_invariant safe False "\<lambda>s. keyed (dat s)" for safe
proof
  fix s s' assume "cfg_op safe False s s'" "keyed (dat s)"
  then show "keyed (dat s')"
    by (elim cfg_opE)
       (auto simp: keyed_def op_defs find_by_None split: option.split)
qed

text \<open>Nothing newer than the memory was written, and once the deferred changes are flushed the
  file holds the memory.\<close>

definition synced :: "store \<Rightarrow> bool" where
  "synced s \<longleftrightarrow> last_written s \<le> seq_no s \<and> flushed_gen s \<le> mut_gen s \<and>
     (flushed_gen s = mut_gen s \<longrightarrow> disk s = Some (dat s))"

lemma synced_save:
  "last_written s \<le> seq_no s \<Longrightarrow> flushed_gen s \<le> mut_gen s \<Longrightarrow> synced (fst (save_locked IoOk s))"
  by (auto simp: synced_def save_locked_def write_snapshot_def advance_flushed_def Let_def)

lemma synced_edit_save: "synced s \<Longrightarrow> synced (fst (save_locked IoOk (edit f s)))"
  by (rule synced_save) (simp_all add: synced_def)

lemma synced_save_only: "synced s \<Longrightarrow> synced (fst (save_locked IoOk s))"
  by (rule synced_save) (simp_all add: synced_def)

lemma synced_mark_dirty: "synced s \<Longrightarrow> synced (mark_dirty (edit f s))"
  by (simp add: synced_def mark_dirty_def)

lemma synced_flush: "synced s \<Longrightarrow> synced (fst (flush io s))"
  by (auto simp: synced_def flush_def write_snapshot_def advance_flushed_def Let_def split: io.split)

interpretation synced_inv: store_invariant True imp synced for imp
proof
  fix s s' assume "cfg_op True imp s s'" "synced s"
  then show "synced s'"
    by (elim cfg_opE)
       (auto simp: op_defs synced_edit_save synced_save_only synced_mark_dirty synced_flush split: option.split)
qed

end
