(* ===== verification/Web_Ops.thy ===== *)
theory Web_Ops
  imports Web_Panel Config_Ops
begin

text \<open>
  Every request is a sequence of \<open>Config\<close> methods, so what every method keeps, every
  sequence of requests keeps. At the end, what usable segments are good for: their pools parse.
\<close>

section \<open>Handlers as sequences of methods\<close>

text \<open>The writes of a request succeed: the first, and the one of a roll-back.\<close>

definition writes_ok :: "bool \<Rightarrow> web_env \<Rightarrow> bool" where
  "writes_ok safe env \<longleftrightarrow> (safe \<longrightarrow> we_save env = IoOk \<and> we_save2 env = IoOk)"

definition runs_ops :: "bool \<Rightarrow> handler \<Rightarrow> bool" where
  "runs_ops imp h \<longleftrightarrow> (\<forall>safe env r w. writes_ok safe env \<longrightarrow>
     cfg_ops safe imp (w_cfg w) (w_cfg (snd (h env r w))))"

lemma runs_opsI:
  "(\<And>safe env r w. safe \<longrightarrow> we_save env = IoOk \<Longrightarrow> safe \<longrightarrow> we_save2 env = IoOk \<Longrightarrow>
      cfg_ops safe imp (w_cfg w) (w_cfg (snd (h env r w)))) \<Longrightarrow> runs_ops imp h"
  by (simp add: runs_ops_def writes_ok_def)

lemma validated_usable: "validate_segment_ips g = None \<Longrightarrow> segment_usable g"
  by (auto simp: validate_segment_ips_def segment_fields_def segment_usable_def find_None_iff
      split: option.splits if_splits)

lemma checked_usable: "checked_segment b g = Inr g' \<Longrightarrow> segment_usable g'"
  by (auto simp: checked_segment_def Let_def split: if_splits option.splits intro: validated_usable)

lemma cfg_saved [simp]: "w_cfg (snd (saved res page w)) = fst res"
  by (simp add: saved_def case_prod_beta split: option.split)

lemma cfg_apply [simp]:
  "w_cfg (snd (apply_firewall env w)) = w_cfg w" "w_cfg (snd (apply_if_enabled env w)) = w_cfg w"
  by (simp_all add: apply_firewall_def apply_if_enabled_def case_prod_beta)

lemma arp_rows_ops:
  "cfg_ops safe imp s cfg \<Longrightarrow> cfg_ops safe imp s (snd (snd (arp_rows snap ed now es (rows, seen, cfg))))"
  by (induction es arbitrary: rows seen cfg) (auto simp: ops_chain split: option.split)

lemma devices_ops:
  "cfg_ops safe imp s (w_cfg w) \<Longrightarrow> cfg_ops safe imp s (w_cfg (snd (handle_devices_fragment env r w)))"
  by (simp add: handle_devices_fragment_def device_rows_def Let_def case_prod_beta arp_rows_ops)

lemma saved_devices_ops:
  "cfg_ops safe imp s (fst res) \<Longrightarrow> cfg_ops safe imp s (w_cfg (snd (saved_devices res env r w)))"
  by (simp add: saved_devices_def devices_ops case_prod_beta split: option.split)

lemmas run_simps = ops_chain devices_ops saved_devices_ops bad_form_def save_failed_def Let_def case_prod_beta

lemma settings_ops:
  "runs_ops imp handle_add_reservation" "runs_ops imp handle_remove_reservation"
  "runs_ops imp handle_quick_reserve" "runs_ops imp handle_quick_remove_reservation"
  "runs_ops imp handle_quick_remove_lease" "runs_ops imp handle_quick_remove_discovered"
  "runs_ops imp handle_rename_device" "runs_ops imp handle_add_dns_record"
  "runs_ops imp handle_remove_dns_record" "runs_ops imp handle_export_config"
  "runs_ops imp handle_devices_fragment"
  by (rule runs_opsI, simp add: run_simps handle_add_reservation_def handle_remove_reservation_def
      handle_quick_reserve_def handle_quick_remove_reservation_def handle_quick_remove_lease_def
      handle_quick_remove_discovered_def handle_rename_device_def handle_add_dns_record_def
      handle_remove_dns_record_def handle_export_config_def)+

lemma network_ops: "runs_ops imp handle_update_network" "runs_ops imp handle_update_sqm"
  by (rule runs_opsI, simp add: run_simps handle_update_network_def handle_update_sqm_def
      split: option.split bool.split)+

lemma import_ops: "runs_ops True handle_import_config"
  by (rule runs_opsI, simp add: run_simps handle_import_config_def split: option.split upload.split)

lemma segment_ops:
  "runs_ops imp handle_add_lan_segment" "runs_ops imp handle_remove_lan_segment"
  "runs_ops imp handle_update_lan_segment"
  by (rule runs_opsI, simp add: run_simps checked_usable handle_add_lan_segment_def handle_remove_lan_segment_def
      handle_update_lan_segment_def split: sum.split)+

lemma panel_ops:
  "runs_ops imp handle_firewall_toggle" "runs_ops imp handle_firewall_add_rule"
  "runs_ops imp handle_firewall_remove_rule" "runs_ops imp handle_firewall_toggle_rule"
  "runs_ops imp handle_firewall_docker" "runs_ops imp handle_firewall_trusted"
  by (rule runs_opsI, simp add: run_simps handle_firewall_toggle_def handle_firewall_add_rule_def
      handle_firewall_remove_rule_def handle_firewall_toggle_rule_def handle_firewall_docker_def
      handle_firewall_trusted_def split: option.split)+

lemma page_ops:
  "runs_ops imp handle_settings_page" "runs_ops imp handle_dashboard" "runs_ops imp handle_arp_diagnostics"
  "runs_ops imp handle_interfaces_fragment" "runs_ops imp handle_performance_fragment"
  by (simp_all add: runs_ops_def handle_settings_page_def handle_dashboard_def handle_arp_diagnostics_def
      handle_interfaces_fragment_def handle_performance_fragment_def)

lemma login_ops: "runs_ops imp handle_login" "runs_ops imp handle_logout" "runs_ops imp handle_account_update"
  by (rule runs_opsI, simp add: Let_def case_prod_beta handle_login_def login_get_def login_post_def
      handle_logout_def handle_account_update_def split: option.split)+

lemma require_auth_ops: "runs_ops imp h \<Longrightarrow> runs_ops imp (require_auth h)"
  by (simp add: runs_ops_def require_auth_def Let_def case_prod_beta split: option.split)
     (metis web.select_convs(1) web.surjective web.update_convs(3))

lemma mutating_ops: "runs_ops imp h \<Longrightarrow> runs_ops imp (mutating h)"
  unfolding mutating_def by (rule require_auth_ops) (simp add: runs_ops_def require_post_def)

definition import_path :: string where "import_path = ''/api/config/import''"

lemma routes_ops: "list_all (\<lambda>(p, h). runs_ops (p = import_path) h) routes"
  by (simp add: routes_def import_path_def settings_ops network_ops import_ops segment_ops panel_ops page_ops
      login_ops require_auth_ops mutating_ops)

lemma web_serve_ops:
  assumes "writes_ok safe env"
  shows "cfg_ops safe (rq_path r = import_path) (w_cfg w) (w_cfg (snd (web_serve env r w)))"
proof (cases "map_of routes (rq_path r)")
  case None
  have "runs_ops (rq_path r = import_path) (require_auth handle_dashboard)"
    by (simp add: page_ops require_auth_ops)
  with None assms show ?thesis by (simp add: web_serve_def runs_ops_def)
next
  case (Some h)
  with routes_ops map_of_SomeD [OF Some] have "runs_ops (rq_path r = import_path) h"
    by (auto simp: list_all_iff)
  with Some assms show ?thesis by (simp add: web_serve_def runs_ops_def)
qed

section \<open>LAN segments\<close>

lemma usable_pool:
  assumes "segments_usable s" "segment_by_id i s = Some g" "\<not> seg_dhcp_disabled g"
  shows "\<exists>a b. parse_pool_range i s = Inr (a, b) \<and> u32_at a 0 \<le> u32_at b 0"
proof -
  have "g \<in> set (lan_segments (dat s))"
    using assms(2) by (auto simp: segment_by_id_def dest: find_by_in)
  then have "segment_usable g" using assms(1) by (simp add: segments_usable_def list_all_iff)
  with assms(2,3) show ?thesis by (simp add: parse_pool_range_def segment_usable_def Let_def)
qed

end
