(* ===== verification/Startup_Claims.thy ===== *)
theory Startup_Claims
  imports Startup Web_Ops Dhcp_Claims Dns_Service
begin

text \<open>
  Properties of the whole process: what holds in every state it reaches, that it goes on
  serving, that the configuration survives a restart, and what starting up does to the firewall
  and to the file.
\<close>

section \<open>Events as sequences of methods\<close>

text \<open>With \<open>safe\<close> the writes of dashboard requests succeed; a background write may fail.\<close>

fun event_ok :: "bool \<Rightarrow> 'w router_event \<Rightarrow> bool" where
  "event_ok safe (Http env r) = writes_ok safe env"
| "event_ok safe (DhcpAttempt k so) = True"
| "event_ok safe (DnsAttempt so) = True"
| "event_ok safe (Datagram k env b) = True"
| "event_ok safe (Query out b oob w) = True"
| "event_ok safe (BackgroundFlush io) = True"

fun is_import :: "'w router_event \<Rightarrow> bool" where
  "is_import (Http env r) = (rq_path r = import_path)"
| "is_import _ = False"

lemma serve_cfg:
  assumes "serve env cfg srv b = Some (cfg', srv', out)"
  shows "cfg' = cfg \<or> (\<exists>l. cfg' = upsert_lease l cfg)"
  using assms
  by (auto simp: serve_def handle_def handle_request_def split: sum.splits if_splits option.splits prod.splits)

lemma event_ok_any: "event_ok False ev"
  by (cases ev) (simp_all add: writes_ok_def)

lemma step_simps [simp]:
  "rn_web (dhcp_attempt k so st) = rn_web st" "rn_web (dns_attempt so st) = rn_web st"
  "rn_web (dns_query out b oob w st) = rn_web st"
  "rn_cache (dhcp_attempt k so st) = rn_cache st" "rn_cache (dns_attempt so st) = rn_cache st"
  "rn_cache (http_request env r st) = rn_cache st"
  by (auto simp: dhcp_attempt_def dns_attempt_def dns_query_def http_request_def
      split: option.split sum.split prod.split)

lemma router_step_ops:
  assumes "router_step ev st = Some st'" "event_ok safe ev"
  shows "cfg_ops safe (is_import ev) (w_cfg (rn_web st)) (w_cfg (rn_web st'))"
proof (cases ev)
  case (Http env r)
  let ?env = "env\<lparr>we_status := rn_status st, we_cache := Some (rn_cache st)\<rparr>"
  have "writes_ok safe ?env" using assms(2) Http by (simp add: writes_ok_def)
  from web_serve_ops [OF this] Http assms(1) show ?thesis by (auto simp: router_step_def http_request_def)
next
  case (Datagram k env b)
  with assms(1) serve_cfg show ?thesis
    by (fastforce simp: router_step_def dhcp_datagram_def ops_chain split: if_splits option.splits)
next
  case (BackgroundFlush io)
  with assms(1) show ?thesis by (auto simp: router_step_def ops_chain)
qed (use assms(1) in \<open>auto simp: router_step_def\<close>)

section \<open>What holds in every state\<close>

text \<open>The interface of an invariant of the process: every event of a kind keeps it, so every run of
  such events does.\<close>

locale process_invariant =
  fixes ok :: "'w router_event \<Rightarrow> bool" and P :: "running \<Rightarrow> bool"
  assumes step: "router_step ev st = Some st' \<Longrightarrow> ok ev \<Longrightarrow> P st \<Longrightarrow> P st'"
begin

lemma run: "router_run evs st = Some st' \<Longrightarrow> list_all ok evs \<Longrightarrow> P st \<Longrightarrow> P st'"
  by (induction evs st rule: router_run.induct) (auto split: option.splits dest: step)

end

text \<open>What every method of the configuration keeps, the process keeps.\<close>

sublocale store_invariant \<subseteq> on_process: process_invariant
  "\<lambda>ev. event_ok safe ev \<and> (is_import ev \<longrightarrow> imp)" "\<lambda>st. P (w_cfg (rn_web st))"
proof
  fix ev :: "'w router_event" and st st'
  assume s: "router_step ev st = Some st'" "event_ok safe ev \<and> (is_import ev \<longrightarrow> imp)" "P (w_cfg (rn_web st))"
  have "cfg_ops safe imp (w_cfg (rn_web st)) (w_cfg (rn_web st'))"
    using router_step_ops [OF s(1)] s(2) cfg_ops_imports [of safe _ _ imp] by (cases "is_import ev") auto
  then show "P (w_cfg (rn_web st'))" using s(3) by (rule steps)
qed

lemma resolve_keeps_cache:
  assumes "cache_ok c" "handle_recursive out snap c msg q local w = (r, c', w')"
  shows "cache_ok c'"
proof -
  obtain g c1 where g: "cache_get (clock out w) (cache_key q) c = (g, c1)" by fastforce
  have c1: "cache_ok c1" by (rule cache_ok_get(1) [OF assms(1) g])
  obtain res w1 where res: "resolve_iterative out (q_name q) type_A w = (res, w1)" by fastforce
  show ?thesis
  proof (cases res)
    case (Inl e)
    with assms(2) g c1 res show ?thesis
      by (cases g) (auto simp: handle_recursive_def split: prod.splits option.splits)
  next
    case (Inr a)
    with res have "usable_answer a" using resolve_usable(1) by (simp add: resolve_iterative_def)
    with assms(2) g c1 res Inr cache_ok_set [OF c1 this] show ?thesis
      by (cases g) (auto simp: handle_recursive_def)
  qed
qed

lemma dns_serve_cache_ok:
  assumes "cache_ok c" "dns_serve out snap c b oob w = (r, c', w')"
  shows "cache_ok c'"
  using assms resolve_keeps_cache [OF assms(1)]
  by (auto simp: dns_serve_def dns_handle_def split: sum.splits option.splits if_splits prod.splits)

lemma dns_query_cache_ok: "cache_ok (rn_cache st) \<Longrightarrow> cache_ok (rn_cache (dns_query out b oob w st))"
  using dns_serve_cache_ok by (auto simp: dns_query_def split: option.split prod.split)

lemma datagram_cache: "dhcp_datagram k env b st = Some st' \<Longrightarrow> rn_cache st' = rn_cache st"
  by (auto simp: dhcp_datagram_def split: if_splits option.splits)

interpretation cache_inv: process_invariant "\<lambda>_. True" "\<lambda>st. cache_ok (rn_cache st)"
  by unfold_locales
     (auto simp: router_step_def dns_query_cache_ok dest: datagram_cache split: router_event.splits)

text \<open>No segment's pool ends at the last address there is.\<close>

definition pools_end :: "store \<Rightarrow> bool" where
  "pools_end s \<longleftrightarrow> (\<forall>g \<in> set (lan_segments (dat s)). to4 (parse_ip (seg_pool_end g)) \<noteq> [255, 255, 255, 255])"

lemma pools_end_pool:
  assumes "pools_end s" "pool_of srv s = Some (a, z)"
  shows "z \<noteq> - 1"
proof -
  from pool_of_range [OF assms(2)] obtain g where g: "segment_by_id (srv_segment_id srv) s = Some g"
    and e: "to4 (parse_ip (seg_pool_end g)) = be_bytes32 z"
    by (auto simp: parse_pool_range_def Let_def split: option.splits if_splits)
  from g have "g \<in> set (lan_segments (dat s))" by (auto simp: segment_by_id_def dest: find_by_in)
  with assms(1) e have "be_bytes32 z \<noteq> [255, 255, 255, 255]" by (auto simp: pools_end_def)
  moreover have "be_bytes32 (- 1) = [255, 255, 255, 255]" by code_simp
  ultimately show ?thesis by auto
qed

lemma router_step_total:
  assumes "pools_end (w_cfg (rn_web st))"
  shows "router_step ev st \<noteq> None"
proof (cases ev)
  case (Datagram k env b)
  have "\<forall>a z. pool_of (rn_dhcp st ! k) (w_cfg (rn_web st)) = Some (a, z) \<longrightarrow> z \<noteq> - 1"
    using pools_end_pool [OF assms] by blast
  from serve_total [OF this, of env b] Datagram show ?thesis
    by (cases "serve env (w_cfg (rn_web st)) (rn_dhcp st ! k) b") (auto simp: router_step_def dhcp_datagram_def)
qed (simp_all add: router_step_def)

section \<open>What the dashboard says about the listeners\<close>

text \<open>Every segment is served by one listener, the registry says of each listener, and of the DNS
  server, whether it is up, and those that are have one socket each.\<close>

definition truthful :: "running \<Rightarrow> bool" where
  "truthful st \<longleftrightarrow> length (rn_listening st) = length (rn_dhcp st) \<and> distinct (map srv_segment_id (rn_dhcp st)) \<and>
     (\<forall>k < length (rn_dhcp st).
        rn_listening st ! k = reported_up (srv_segment_id (rn_dhcp st ! k)) (rn_status st)) \<and>
     (st_up (dns_state (rn_status st)) \<longleftrightarrow> rn_dns st \<noteq> None) \<and>
     rn_descriptors st = length (filter (\<lambda>b. b) (rn_listening st)) + (if rn_dns st = None then 0 else 1)"

lemma one_more_up:
  "k < length xs \<Longrightarrow> \<not> xs ! k \<Longrightarrow> length (filter (\<lambda>b. b) (xs[k := True])) = Suc (length (filter (\<lambda>b. b) xs))"
proof (induction xs arbitrary: k)
  case (Cons x xs)
  then show ?case by (cases k) auto
qed simp

lemma truthful_dhcp_attempt:
  assumes "truthful st"
  shows "truthful (dhcp_attempt k so st)"
proof (cases "length (rn_dhcp st) \<le> k \<or> rn_listening st ! k")
  case True
  with assms show ?thesis by (simp add: dhcp_attempt_def)
next
  case False
  obtain r reg n where
    o: "dhcp_open so (w_cfg (rn_web st)) (rn_dhcp st ! k) (rn_status st, rn_descriptors st) = (r, reg, n)"
    by (rule prod_cases3)
  have id: "srv_segment_id (rn_dhcp st ! i) = srv_segment_id (rn_dhcp st ! k) \<longleftrightarrow> i = k"
    if "i < length (rn_dhcp st)" for i
    using assms False that nth_eq_iff_index_eq [of "map srv_segment_id (rn_dhcp st)" i k]
    by (simp add: truthful_def)
  from False assms have down: "\<not> reported_up (srv_segment_id (rn_dhcp st ! k)) (rn_status st)"
    unfolding truthful_def by (metis not_le)
  have more: "length (filter (\<lambda>b. b) ((rn_listening st)[k := True])) = Suc (length (filter (\<lambda>b. b) (rn_listening st)))"
    using False assms by (intro one_more_up) (auto simp: truthful_def)
  note open_facts = dhcp_open_reports [OF o] dhcp_open_descriptors [OF o]
  show ?thesis
  proof (cases r)
    case None
    with False o assms id open_facts more show ?thesis
      by (auto simp: dhcp_attempt_def truthful_def nth_list_update)
  next
    case (Some e)
    with False o assms open_facts down show ?thesis
      by (auto simp: dhcp_attempt_def truthful_def)
  qed
qed

lemma truthful_dns_attempt: "truthful st \<Longrightarrow> truthful (dns_attempt so st)"
  using dns_open_reports [of so "rn_status st" "rn_descriptors st"]
  by (auto simp: dns_attempt_def truthful_def split: prod.split sum.split)

lemma truthful_dhcp_datagram:
  assumes "dhcp_datagram k env b st = Some st'" "truthful st"
  shows "truthful st'"
proof -
  have "map srv_segment_id ((rn_dhcp st)[k := srv]) = map srv_segment_id (rn_dhcp st)"
    if "srv_segment_id srv = srv_segment_id (rn_dhcp st ! k)" for srv
    using that by (metis list_update_id map_update)
  with assms serve_segment_id show ?thesis
    by (auto simp: dhcp_datagram_def truthful_def nth_list_update split: if_splits option.splits)
qed

lemma truthful_others:
  "truthful st \<Longrightarrow> truthful (dns_query out b oob w st)" "truthful st \<Longrightarrow> truthful (http_request env r st)"
  "truthful st \<Longrightarrow> truthful (st\<lparr>rn_web := x\<rparr>)"
  by (auto simp: dns_query_def http_request_def truthful_def split: option.split prod.split)

lemma update_keeps_true: "xs ! k \<Longrightarrow> xs[i := True] ! k"
  by (cases "i = k") (metis list_update_beyond not_le nth_list_update_eq, simp)

lemma listeners_stay:
  assumes "router_step ev st = Some st'"
  shows "(rn_listening st ! k \<longrightarrow> rn_listening st' ! k) \<and> (rn_dns st \<noteq> None \<longrightarrow> rn_dns st' \<noteq> None)"
  using assms
  by (auto simp: router_step_def dhcp_attempt_def dns_attempt_def dhcp_datagram_def dns_query_def http_request_def
      update_keeps_true
      split: router_event.splits option.splits prod.splits sum.splits if_splits)

interpretation status_inv: process_invariant "\<lambda>_. True" truthful
  by unfold_locales
     (auto simp: router_step_def truthful_dhcp_attempt truthful_dns_attempt truthful_others
       dest: truthful_dhcp_datagram split: router_event.splits)

section \<open>Starting up\<close>

lemma load_counters:
  assumes "load f rnd io = Inr s"
  shows "last_written s \<le> seq_no s \<and> flushed_gen s \<le> mut_gen s"
proof -
  have n: "last_written (new_store d b) \<le> seq_no (new_store d b) \<and>
      flushed_gen (new_store d b) \<le> mut_gen (new_store d b)" for d b
    by (simp add: new_store_def)
  have "last_written s' \<le> seq_no s' \<and> flushed_gen s' \<le> mut_gen s'"
    if "save_locked i (new_store d b) = (s', e)" for i d b s' e
    using that n [of d b]
    by (auto simp: save_locked_def write_snapshot_def advance_flushed_def Let_def split: if_splits io.splits)
  with assms n show ?thesis
    by (auto simp: load_def split: file_read.splits option.splits if_splits prod.splits)
qed

lemma save_ok_synced:
  assumes "save io s = (s', None)" "last_written s \<le> seq_no s" "flushed_gen s \<le> mut_gen s"
  shows "synced s' \<and> dat s' = dat s"
  using assms
  by (auto simp: save_def save_locked_def write_snapshot_def advance_flushed_def synced_def Let_def
      split: io.splits if_splits)

lemma boot_running:
  assumes "boot cli env = Running st"
  shows "synced (w_cfg (rn_web st)) \<and>
    (\<exists>cfg. load (be_config env) (be_config_rnd env) (be_migrate_io env) = Inr cfg \<and>
       dat (w_cfg (rn_web st)) = dat cfg)"
  using assms load_counters save_ok_synced
  by (fastforce simp: boot_def print_firewall_def start_services_def web_new_def Let_def
      split: sum.splits option.splits prod.splits if_splits)

text \<open>A configuration that the process wrote itself has no fields of the old format.\<close>

lemma load_own_file: "load (Document d None) rnd io = Inr (new_store d (Some d))"
  by (simp add: load_def)

lemma flushed_on_disk:
  assumes "synced s" "flush IoOk s = (s', e)"
  shows "e = None \<and> disk s' = Some (dat s) \<and> dat s' = dat s"
  using assms
  by (auto simp: synced_def flush_def write_snapshot_def advance_flushed_def Let_def split: if_splits)

lemma boot_cache: "boot cli env = Running st \<Longrightarrow> rn_cache st = new_recursive_cache"
  by (auto simp: boot_def print_firewall_def start_services_def Let_def
      split: sum.splits option.splits prod.splits if_splits)

text \<open>If the firewall was applied without an error at start-up, the kernel runs the saved rules.\<close>

lemma boot_in_sync:
  assumes "boot cli env = Running st" "snd (rn_firewall st) = None"
  shows "in_sync (rn_web st)"
proof -
  obtain cfg creds where s: "start_services env cfg creds = Running st"
    using assms(1) by (auto simp: boot_def print_firewall_def split: sum.splits option.splits prod.splits if_splits)
  have "in_sync (web_new cfg creds (fold (install_action nft) (fst (apply_fw nft (dat cfg))) k))"
    if "snd (apply_fw nft (dat cfg)) = None" for nft k
    using that by (auto simp: apply_fw_def remove_fw_def in_sync_def web_new_def install_action_def
        check_args_def install_args_def split: if_splits sum.splits)
  with s assms(2) show ?thesis
    by (auto simp: start_services_def start_firewall_def snapshot_def in_sync_def web_new_def Let_def split: if_splits)
qed

text \<open>The flush on SIGTERM leaves the memory on disk.\<close>

lemma saved_at_exit:
  assumes "boot cli env = Running st" "router_run evs st = Some st'" "list_all (event_ok True) evs"
    and "shutdown IoOk st' = (s, e)"
  shows "e = None \<and> disk s = Some (dat (w_cfg (rn_web st')))"
proof -
  have "synced (w_cfg (rn_web st'))"
    using synced_inv.on_process.run [where imp = True, OF assms(2)] assms(3) boot_running [OF assms(1)] by simp
  from flushed_on_disk [OF this assms(4) [unfolded shutdown_def]] show ?thesis by simp
qed


text \<open>C3: What holds in every state that the process reaches from start-up, through any sequence of
  dashboard requests other than an import, DHCP datagrams, DNS queries in any state of the network and
  background writes, some of which may fail. If the segments of the configuration it starts with can be
  served by DHCP and its entries have distinct keys, then this stays so: the pool of every segment
  with DHCP parses and does not run backwards, no MAC has two reservations, leases or devices, and no
  name has two DNS records. The DNS cache holds only non-empty answers of IPv4 addresses that fit a
  reply. Unless some pool ends at 255.255.255.255 no further event whatever makes the process
  hang.\<close>

theorem router_invariant:
  assumes "boot cli env = Running st" "router_run evs st = Some st'"
    and "\<forall>ev \<in> set evs. \<not> is_import ev"
    and "segments_usable (w_cfg (rn_web st))" "keyed (dat (w_cfg (rn_web st)))"
  shows "segments_usable (w_cfg (rn_web st')) \<and>
    (\<forall>i g. segment_by_id i (w_cfg (rn_web st')) = Some g \<and> \<not> seg_dhcp_disabled g \<longrightarrow>
       (\<exists>a b. parse_pool_range i (w_cfg (rn_web st')) = Inr (a, b) \<and> u32_at a 0 \<le> u32_at b 0)) \<and>
    keyed (dat (w_cfg (rn_web st'))) \<and> cache_ok (rn_cache st') \<and>
    (pools_end (w_cfg (rn_web st')) \<longrightarrow> (\<forall>ev :: 'w router_event. router_step ev st' \<noteq> None))"
proof -
  have ok: "list_all (\<lambda>ev. event_ok False ev \<and> (is_import ev \<longrightarrow> False)) evs"
    using assms(3) by (simp add: list_all_iff event_ok_any)
  have u: "segments_usable (w_cfg (rn_web st'))" by (rule usable_inv.on_process.run [OF assms(2) ok assms(4)])
  moreover have "keyed (dat (w_cfg (rn_web st')))" by (rule keyed_inv.on_process.run [OF assms(2) ok assms(5)])
  moreover have "cache_ok (rn_cache st')"
    using cache_inv.run [OF assms(2)] boot_cache [OF assms(1)] cache_ok_new by (simp add: list_all_iff)
  ultimately show ?thesis using usable_pool [OF u] router_step_total by blast
qed

lemma boot_truthful:
  assumes "boot cli env = Running st" "distinct (map seg_id (lan_segments (dat (w_cfg (rn_web st)))))"
  shows "truthful st"
proof -
  obtain cfg creds where s: "start_services env cfg creds = Running st"
    using assms(1) by (auto simp: boot_def print_firewall_def split: sum.splits option.splits prod.splits if_splits)
  have "map srv_segment_id (dhcp_listeners d) = map seg_id (filter (\<lambda>g. \<not> seg_dhcp_disabled g) (lan_segments d))" for d
    by (simp add: dhcp_listeners_def new_server_def)
  with s assms(2) show ?thesis
    by (auto simp: start_services_def Let_def truthful_def snapshot_def web_new_def new_status_def dns_state_def
        reported_up_def dhcp_segment_states_def distinct_map_filter split: if_splits)
qed


definition ex_boot :: boot_env where
  "ex_boot = \<lparr>be_config = NotExist, be_config_rnd = Some [0, 0, 0, 0, 0, 1], be_migrate_io = IoOk, be_save_io = IoOk,
     be_creds = CredsFile no_credentials, be_creds_rnd = None, be_creds_io = IoOk, be_nft = (\<lambda>t args. True),
     be_installed = None, be_run = (\<lambda>cs c. None), be_templates = True\<rparr>"

definition ex_cli :: cli where "ex_cli = \<lparr>cl_version = False, cl_print_firewall = False\<rparr>"

definition ex_socket :: socket_env where
  "ex_socket = \<lparr>so_socket = None, so_reuse_addr = None, so_reuse_port = None, so_bind = None,
     so_packet_conn = None, so_other_type = None, so_listen = None, so_conn = None, so_control = None,
     so_broadcast = None, so_device = None, so_pktinfo = None\<rparr>"

definition ex_events :: "nat router_event list" where
  "ex_events = [DhcpAttempt 0 ex_socket, DnsAttempt ex_socket, Query long_world ex_dns_query [] 0,
     Datagram 0 ex_env ex_request, BackgroundFlush WriteFails]"

lemma ex_saved: "\<exists>c. save IoOk ex_cfg = (c, None) \<and> dat c = dat ex_cfg"
  by (simp add: save_def save_locked_def write_snapshot_def ex_cfg_def new_store_def Let_def)

lemma ex_listeners: "dhcp_listeners (dat ex_cfg) = [new_server ex_seg]"
proof -
  have "new_segment_id (Some [0, 0, 0, 0, 0, 1]) = ex_seg" by code_simp
  then show ?thesis by (simp add: dhcp_listeners_def ex_cfg_def new_store_def default_data_def)
qed

lemma ex_boot_running:
  "\<exists>st. boot ex_cli ex_boot = Running st \<and> w_cfg (rn_web st) = fst (save IoOk ex_cfg) \<and>
     rn_dhcp st = [new_server ex_seg] \<and> rn_listening st = [False] \<and> rn_dns st = None"
proof -
  have "load (be_config ex_boot) (be_config_rnd ex_boot) (be_migrate_io ex_boot) = Inr ex_cfg"
    by (simp add: ex_boot_def load_def ex_cfg_def)
  moreover obtain c where "save IoOk ex_cfg = (c, None)" "dat c = dat ex_cfg" using ex_saved by blast
  ultimately show ?thesis using ex_listeners
    by (simp add: boot_def ex_cli_def start_services_def auth_load_def Let_def snapshot_def web_new_def ex_boot_def)
qed

lemma ex_open:
  "\<exists>name. dhcp_open ex_socket (fst (save IoOk ex_cfg)) (new_server ex_seg) (reg, n) =
     (None, set_dhcp_segment ex_seg name True None reg, n + 1)"
proof -
  have "\<not> isl (segment (new_server ex_seg) (fst (save IoOk ex_cfg)))" by code_simp
  then obtain g where "segment_by_id ex_seg (fst (save IoOk ex_cfg)) = Some g"
    by (auto simp: segment_def new_server_def split: option.splits)
  moreover have "sockets_ok ex_socket" by (simp add: sockets_ok_def ex_socket_def)
  ultimately show ?thesis
    using dhcp_open_ok [of ex_socket "new_server ex_seg" "fst (save IoOk ex_cfg)" g reg n] by (auto simp: new_server_def)
qed

lemma ex_serves:
  "map_option (\<lambda>(c, s, out). map lease_ip (leases (dat c)))
     (serve ex_env (fst (save IoOk ex_cfg)) (new_server ex_seg) ex_request) = Some [''192.168.2.10'']"
  by code_simp

lemma ex_router_run:
  "\<exists>st st'. boot ex_cli ex_boot = Running st \<and> w_cfg (rn_web st) = fst (save IoOk ex_cfg) \<and>
     router_run ex_events st = Some st' \<and>
     map lease_ip (leases (dat (w_cfg (rn_web st')))) = [''192.168.2.10''] \<and>
     rn_listening st' = [True] \<and> length (rn_dhcp st') = 1 \<and> rn_dns st' \<noteq> None"
proof -
  obtain st where st: "boot ex_cli ex_boot = Running st" "w_cfg (rn_web st) = fst (save IoOk ex_cfg)"
      "rn_dhcp st = [new_server ex_seg]" "rn_listening st = [False]" "rn_dns st = None"
    using ex_boot_running by blast
  obtain c s out where "serve ex_env (fst (save IoOk ex_cfg)) (new_server ex_seg) ex_request = Some (c, s, out)"
    and "map lease_ip (leases (dat c)) = [''192.168.2.10'']"
    using ex_serves by auto
  moreover obtain name where
    "dhcp_open ex_socket (fst (save IoOk ex_cfg)) (new_server ex_seg) (rn_status st, rn_descriptors st) =
      (None, set_dhcp_segment ex_seg name True None (rn_status st), rn_descriptors st + 1)"
    using ex_open by blast
  moreover have "dns_open ex_socket (reg, n) = (Inr True, set_dns True None reg, n + 1)" for reg n
    by (simp add: dns_open_def enable_pktinfo_def ex_socket_def)
  moreover obtain reply cache w where
    "dns_serve long_world (snapshot (fst (save IoOk ex_cfg))) (rn_cache st) ex_dns_query [] 0 = (reply, cache, w)"
    by (rule prod_cases3)
  ultimately have "\<exists>st'. router_run ex_events st = Some st' \<and>
      map lease_ip (leases (dat (w_cfg (rn_web st')))) = [''192.168.2.10''] \<and>
      rn_listening st' = [True] \<and> length (rn_dhcp st') = 1 \<and> rn_dns st' \<noteq> None"
    using st by (auto simp: ex_events_def router_step_def dhcp_attempt_def dns_attempt_def dns_query_def
        dhcp_datagram_def)
  with st show ?thesis by metis
qed


lemma ex_seg_usable: "segments_usable (fst (save IoOk ex_cfg)) \<and> keyed (dat (fst (save IoOk ex_cfg)))"
  by code_simp

theorem router_invariant_witness:
  "\<exists>st st'. boot ex_cli ex_boot = Running st \<and> router_run ex_events st = Some st' \<and>
     segments_usable (w_cfg (rn_web st')) \<and> keyed (dat (w_cfg (rn_web st'))) \<and> cache_ok (rn_cache st') \<and>
     map lease_ip (leases (dat (w_cfg (rn_web st')))) = [''192.168.2.10'']"
proof -
  obtain st st' where b: "boot ex_cli ex_boot = Running st" "w_cfg (rn_web st) = fst (save IoOk ex_cfg)"
    and r: "router_run ex_events st = Some st'"
    and l: "map lease_ip (leases (dat (w_cfg (rn_web st')))) = [''192.168.2.10'']"
    using ex_router_run by metis
  have "\<forall>ev \<in> set ex_events. \<not> is_import ev" by (simp add: ex_events_def)
  from router_invariant [OF b(1) r this] ex_seg_usable b r l show ?thesis by auto
qed


section \<open>The firewall preview\<close>

text \<open>A preview is not always free of writes: printing the rule set of a file in the old format
  migrates it and writes the result over the file.\<close>

lemma preview_writes_migration:
  assumes "be_config env = Document d (Some l)" "lan_segments d = []" "leg_interface l \<noteq> ''''"
    and "be_migrate_io env = IoOk"
    and "boot \<lparr>cl_version = False, cl_print_firewall = True\<rparr> env = Previewed cfg t ws note"
  shows "disk cfg = Some (migrate (new_segment_id (be_config_rnd env)) l d)"
  using assms
  by (auto simp: boot_def load_def print_firewall_def save_locked_def write_snapshot_def advance_flushed_def
      new_store_def Let_def split: sum.splits)

end
