(* ===== verification/Restart_Claims.thy ===== *)
theory Restart_Claims
  imports Startup_Claims
begin

text \<open>
  What a client may rely on across a restart: the DHCP server, the persistence of the
  configuration and start-up together keep the promise of an acknowledgement.
\<close>

section \<open>What a configuration remembers of a client\<close>

definition remembers :: "string \<Rightarrow> lease \<Rightarrow> reservation option \<Rightarrow> lan_segment list \<Rightarrow> config_data \<Rightarrow> bool" where
  "remembers mac l r segs d \<longleftrightarrow> find_by lease_mac mac (leases d) = Some l \<and>
     find_by res_mac mac (reservations d) = r \<and> lan_segments d = segs"

text \<open>Events in which neither this client nor the operator has a part.\<close>

fun spares :: "string \<Rightarrow> 'w router_event \<Rightarrow> bool" where
  "spares mac (Http env r) = False"
| "spares mac (Datagram k env b) =
     (case parse_packet (take 1500 b) of Inl _ \<Rightarrow> True | Inr p \<Rightarrow> mac_string (p_chaddr p) \<noteq> mac)"
| "spares mac _ = True"

lemma serve_cfg_mac:
  assumes "serve env cfg srv b = Some (cfg', srv', out)"
  shows "cfg' = cfg \<or> (\<exists>l p. cfg' = upsert_lease l cfg \<and> parse_packet (take 1500 b) = Inr p \<and>
    lease_mac l = mac_string (p_chaddr p))"
proof (cases "parse_packet (take 1500 b)")
  case (Inl e)
  with assms show ?thesis by (simp add: serve_def)
next
  case (Inr p)
  with assms have h: "handle env cfg srv p = Some (cfg', srv', out)" by (simp add: serve_def)
  show ?thesis
  proof (cases "p_message_type p = Request")
    case True
    with h have "handle_request env cfg srv p = Some (cfg', srv', out)" by (simp add: handle_def)
    then show ?thesis
    proof (cases rule: handle_request_cases)
      case (ack i b')
      with Inr show ?thesis by (auto simp: granted_lease_def)
    qed auto
  next
    case False
    with h show ?thesis by (auto simp: handle_def split: if_splits option.splits)
  qed
qed

lemma remembers_upsert:
  "lease_mac l' \<noteq> mac \<Longrightarrow> remembers mac l r segs (dat (upsert_lease l' s)) = remembers mac l r segs (dat s)"
  by (auto simp: remembers_def upsert_lease_def)

lemma remembers_flush: "remembers mac l r segs (dat (fst (flush io s))) = remembers mac l r segs (dat s)"
  by (simp add: flush_def write_snapshot_def advance_flushed_def Let_def split: io.split)

interpretation memory_inv: process_invariant "spares mac" "\<lambda>st. remembers mac l r segs (dat (w_cfg (rn_web st)))"
  for mac l r segs
proof
  fix ev st st'
  assume s: "router_step ev st = Some st'" "spares mac ev" and m: "remembers mac l r segs (dat (w_cfg (rn_web st)))"
  show "remembers mac l r segs (dat (w_cfg (rn_web st')))"
  proof (cases ev)
    case (Datagram k env b)
    show ?thesis
    proof (cases "length (rn_dhcp st) \<le> k \<or> \<not> rn_listening st ! k")
      case True
      with s m Datagram show ?thesis by (simp add: router_step_def dhcp_datagram_def split: if_splits)
    next
      case False
      with s(1) Datagram obtain cfg srv out where
        v: "serve env (w_cfg (rn_web st)) (rn_dhcp st ! k) b = Some (cfg, srv, out)" "w_cfg (rn_web st') = cfg"
        by (auto simp: router_step_def dhcp_datagram_def split: option.splits)
      from serve_cfg_mac [OF v(1)] s(2) m v(2) Datagram remembers_upsert show ?thesis by fastforce
    qed
  qed (use s m remembers_flush in \<open>auto simp: router_step_def\<close>)
qed

section \<open>Renewing\<close>

text \<open>A client that was given an address and is remembered gets the same address whenever it asks for
  it, or for none in particular, from any server of its segment.\<close>

lemma allocate_again:
  assumes "allocate env cfg srv mac want = Some (Inr i, srv')" "to4 i \<noteq> []"
    and "remembers mac l (reservation_for_mac mac cfg) segs (dat cfg2)"
    and "lease_ip l = ip_string i" "lease_segment_id l = srv_segment_id srv" "srv_segment_id srv2 = srv_segment_id srv"
    and "want2 = [] \<or> ip_string want2 = ip_string i"
  shows "\<exists>j. allocate env2 cfg2 srv2 mac want2 = Some (Inr j, srv2) \<and> to4 j = to4 i"
proof -
  have r: "reserved_ip cfg2 srv2 mac = reserved_ip cfg srv mac"
    using assms(3,6) by (auto simp: reserved_ip_def reservation_for_mac_def remembers_def split: option.split)
  show ?thesis
  proof (cases "reserved_ip cfg srv mac")
    case (Some x)
    with assms(1) r show ?thesis by (auto simp: allocate_def)
  next
    case None
    have "leased_ip env2 cfg2 srv2 mac want2 = Some (ip_string i)"
      using assms(3-7) by (auto simp: leased_ip_def lease_for_mac_def remembers_def)
    with None r assms(2) show ?thesis by (simp add: allocate_def to4_parse_ip_string)
  qed
qed

lemma renewal:
  assumes "wf_request pkt" "p_message_type pkt = Request" "p_server_id pkt = []"
    and "allocate env cfg srv (mac_string (p_chaddr pkt)) (want_ip pkt) = Some (Inr j, srv)" "to4 j = a" "a \<noteq> []"
    and "want_ip pkt = [] \<or> ip_equal a (want_ip pkt)" "segment srv cfg = Inr g"
  shows "\<exists>cfg' srv' d b p. handle env cfg srv pkt = Some (cfg', srv', [(d, b)]) \<and>
    parse_packet b = Inr p \<and> p_message_type p = ACK \<and> p_yiaddr p = a"
proof -
  obtain b where b: "build_offer_or_ack srv cfg pkt j ACK = Inr b"
    using assms(8) by (simp add: build_offer_or_ack_def)
  obtain d where d: "send srv cfg b = [(d, b)]" using build_offer_or_ack_send [OF b] by blast
  obtain p where p: "parse_packet b = Inr p" "p_message_type p = ACK" "p_yiaddr p = a"
    using build_offer_or_ack_parse [OF assms(1) b] assms(5,6) by (auto simp: pad4_def)
  have "want_ip pkt = [] \<or> ip_equal j (want_ip pkt)"
    using assms(5-7) by (metis ip_equal_to4 to4_idem)
  with assms b d have "handle env cfg srv pkt =
      Some (upsert_lease (granted_lease env cfg srv pkt j) cfg, srv, [(d, b)])"
    by (auto simp: handle_def handle_request_def other_server_def)
  with p show ?thesis by blast
qed

lemma router_run_append:
  "router_run (evs @ evs2) st = (case router_run evs st of None \<Rightarrow> None | Some st' \<Rightarrow> router_run evs2 st')"
  by (induction evs st rule: router_run.induct) (auto split: option.split)

lemma spares_ok: "spares mac ev \<Longrightarrow> event_ok True ev"
  by (cases ev) simp_all

text \<open>C7: An acknowledged address outlives the process. Let a running process acknowledge an address to
  a client, in any state reached from start-up in which the dashboard's writes succeeded, and let it then
  go on with attempts, queries, background writes that may fail and datagrams of other clients until
  SIGTERM. The next process, started on the file left behind, acknowledges the same address to that
  client whenever it asks for it again, or for no particular one, from a server of the same segment.\<close>

theorem lease_survives_restart:
  assumes "boot cli env = Running st" "router_run (evs :: 'w router_event list) st = Some st1" "list_all (event_ok True) evs"
    and "book_ok (w_cfg (rn_web st1))" "k < length (rn_dhcp st1)" "rn_listening st1 ! k"
    and "parse_packet (take 1500 raw) = Inr pkt" "p_message_type pkt = Request"
    and "serve denv (w_cfg (rn_web st1)) (rn_dhcp st1 ! k) raw = Some (cfg, srv, [(d, b)])"
    and "parse_packet b = Inr p" "p_message_type p = ACK"
    and "router_step (Datagram k denv raw :: 'w router_event) st1 = Some st2"
    and "router_run (evs2 :: 'w router_event list) st2 = Some st3" "list_all (spares (mac_string (p_chaddr pkt))) evs2"
    and "shutdown IoOk st3 = (s, e)" "disk s = Some file"
    and "be_config env2 = Document file None" "boot cli2 env2 = Running st4"
    and "wf_request pkt2" "p_message_type pkt2 = Request" "p_chaddr pkt2 = p_chaddr pkt" "p_server_id pkt2 = []"
    and "want_ip pkt2 = [] \<or> ip_equal (p_yiaddr p) (want_ip pkt2)"
    and "srv_segment_id srv2 = srv_segment_id (rn_dhcp st1 ! k)"
  shows "\<exists>cfg' srv' d' b' p'. handle denv2 (w_cfg (rn_web st4)) srv2 pkt2 = Some (cfg', srv', [(d', b')]) \<and>
    parse_packet b' = Inr p' \<and> p_message_type p' = ACK \<and> p_yiaddr p' = p_yiaddr p"
proof -
  let ?cfg1 = "w_cfg (rn_web st1)" and ?srv1 = "rn_dhcp st1 ! k" and ?mac = "mac_string (p_chaddr pkt)"
  note wf = parse_packet_wf(1) [OF assms(7)]
  have h: "handle_request denv ?cfg1 ?srv1 pkt = Some (cfg, srv, [(d, b)])"
    using assms(7-9) by (simp add: serve_def handle_def)
  then obtain i where i: "allocate denv ?cfg1 ?srv1 ?mac (want_ip pkt) = Some (Inr i, srv)" "to4 i \<noteq> []"
      "p_yiaddr p = to4 i" "cfg = upsert_lease (granted_lease denv ?cfg1 srv pkt i) ?cfg1"
    and g: "\<exists>g. segment srv ?cfg1 = Inr g" and sid: "srv_segment_id srv = srv_segment_id ?srv1"
    by (rule acknowledged [OF wf assms(4) _ assms(10,11)])
  let ?l = "granted_lease denv ?cfg1 srv pkt i"
  have l: "lease_ip ?l = ip_string i" "lease_mac ?l = ?mac" "lease_segment_id ?l = srv_segment_id ?srv1"
    by (simp_all add: granted_lease_def sid)
  have st2: "w_cfg (rn_web st2) = cfg"
    using assms(5,6,9,12) by (auto simp: router_step_def dhcp_datagram_def)
  then have "remembers ?mac ?l (reservation_for_mac ?mac ?cfg1) (lan_segments (dat ?cfg1)) (dat (w_cfg (rn_web st2)))"
    using l i(4) by (simp add: remembers_def upsert_lease_def reservation_for_mac_def)
  note mem3 = memory_inv.run [OF assms(13,14) this]
  have "router_run (evs @ Datagram k denv raw # evs2) st = Some st3"
    using assms(2,12,13) by (simp add: router_run_append)
  moreover have "list_all (event_ok True) (evs @ Datagram k denv raw # evs2)"
    using assms(3,14) spares_ok by (auto simp: list_all_iff)
  ultimately have "disk s = Some (dat (w_cfg (rn_web st3)))"
    using saved_at_exit [OF assms(1) _ _ assms(15)] by blast
  then have "file = dat (w_cfg (rn_web st3))" using assms(16) by simp
  moreover have "dat (w_cfg (rn_web st4)) = file"
    using boot_running [OF assms(18)] assms(17) by (auto simp: load_own_file new_store_def)
  ultimately have mem: "remembers ?mac ?l (reservation_for_mac ?mac ?cfg1) (lan_segments (dat ?cfg1))
      (dat (w_cfg (rn_web st4)))"
    using mem3 by simp
  have "want_ip pkt2 = [] \<or> ip_string (want_ip pkt2) = ip_string i"
    using assms(23) i(2,3) by (metis ip_equal_to4 ip_string_to4 to4_idem)
  from allocate_again [OF i(1,2) mem l(1,3) assms(24) this] obtain j where
    j: "allocate denv2 (w_cfg (rn_web st4)) srv2 ?mac (want_ip pkt2) = Some (Inr j, srv2)" "to4 j = p_yiaddr p"
    using i(3) by auto
  obtain g2 where "segment srv2 (w_cfg (rn_web st4)) = Inr g2"
    using g mem assms(24) sid by (auto simp: segment_def segment_by_id_def remembers_def split: option.splits)
  from renewal [OF assms(19,20,22) _ j(2) _ assms(23) this, of denv2] j(1) assms(21) i(2,3)
  show ?thesis by simp
qed

lemma ex_reboot: "\<exists>st. boot ex_cli (ex_boot\<lparr>be_config := Document d None\<rparr>) = Running st"
proof -
  have "\<exists>c. save IoOk (new_store d (Some d)) = (c, None)"
    by (simp add: save_def save_locked_def write_snapshot_def new_store_def Let_def)
  then show ?thesis
    by (auto simp: boot_def ex_cli_def ex_boot_def load_own_file auth_load_def start_services_def Let_def)
qed

lemma ex_acknowledged:
  "map_option (\<lambda>(c, s, out). map (\<lambda>(d, b). case parse_packet b of Inl e \<Rightarrow> (0, []) | Inr p \<Rightarrow>
       (p_message_type p, p_yiaddr p)) out)
     (serve ex_env (fst (save IoOk ex_cfg)) (new_server ex_seg) ex_request) = Some [(ACK, [192, 168, 2, 10])]"
  "map_sum (\<lambda>e. ()) (\<lambda>p. (p_message_type p, p_server_id p, want_ip p)) (parse_packet (take 1500 ex_request)) =
     Inr (Request, [], [192, 168, 2, 10])"
  by code_simp+

theorem lease_survives_restart_witness:
  "\<exists>st st1 st2 st3 s file st4 pkt cfg' srv' d' b' p'. boot ex_cli ex_boot = Running st \<and>
     router_run ([DhcpAttempt 0 ex_socket] :: nat router_event list) st = Some st1 \<and>
     router_step (Datagram 0 ex_env ex_request :: nat router_event) st1 = Some st2 \<and>
     router_run ([BackgroundFlush WriteFails] :: nat router_event list) st2 = Some st3 \<and>
     shutdown IoOk st3 = (s, None) \<and> disk s = Some file \<and>
     boot ex_cli (ex_boot\<lparr>be_config := Document file None\<rparr>) = Running st4 \<and>
     parse_packet (take 1500 ex_request) = Inr pkt \<and>
     handle ex_env (w_cfg (rn_web st4)) (new_server ex_seg) pkt = Some (cfg', srv', [(d', b')]) \<and>
     parse_packet b' = Inr p' \<and> p_message_type p' = ACK \<and> p_yiaddr p' = [192, 168, 2, 10]"
proof -
  obtain st where st: "boot ex_cli ex_boot = Running st" "w_cfg (rn_web st) = fst (save IoOk ex_cfg)"
      "rn_dhcp st = [new_server ex_seg]" "rn_listening st = [False]"
    using ex_boot_running by blast
  obtain pkt where pkt: "parse_packet (take 1500 ex_request) = Inr pkt" "p_message_type pkt = Request"
      "p_server_id pkt = []" "want_ip pkt = [192, 168, 2, 10]"
    using ex_acknowledged(2) by (cases "parse_packet (take 1500 ex_request)") auto
  obtain c s0 d b where v: "serve ex_env (fst (save IoOk ex_cfg)) (new_server ex_seg) ex_request = Some (c, s0, [(d, b)])"
    and b: "(case parse_packet b of Inl e \<Rightarrow> (0, []) | Inr p \<Rightarrow> (p_message_type p, p_yiaddr p)) = (ACK, [192, 168, 2, 10])"
    using ex_acknowledged(1) by auto
  obtain p where p: "parse_packet b = Inr p" "p_message_type p = ACK" "p_yiaddr p = [192, 168, 2, 10]"
    using b by (cases "parse_packet b") auto
  obtain name where "dhcp_open ex_socket (fst (save IoOk ex_cfg)) (new_server ex_seg) (rn_status st, rn_descriptors st) =
      (None, set_dhcp_segment ex_seg name True None (rn_status st), rn_descriptors st + 1)"
    using ex_open by blast
  with st obtain st1 where st1: "router_run ([DhcpAttempt 0 ex_socket] :: nat router_event list) st = Some st1"
      "w_cfg (rn_web st1) = fst (save IoOk ex_cfg)" "rn_dhcp st1 = [new_server ex_seg]" "rn_listening st1 = [True]"
    by (auto simp: router_step_def dhcp_attempt_def)
  with v obtain st2 where st2: "router_step (Datagram 0 ex_env ex_request :: nat router_event) st1 = Some st2"
    by (simp add: router_step_def dhcp_datagram_def)
  obtain st3 where st3: "router_run ([BackgroundFlush WriteFails] :: nat router_event list) st2 = Some st3"
    by (simp add: router_step_def)
  obtain s e where s: "shutdown IoOk st3 = (s, e)" by fastforce
  have "router_run ([DhcpAttempt 0 ex_socket, Datagram 0 ex_env ex_request, BackgroundFlush WriteFails] ::
      nat router_event list) st = Some st3"
    using st1(1) st2 st3 by (auto split: option.splits)
  from saved_at_exit [OF st(1) this _ s] have e: "e = None" "disk s = Some (dat (w_cfg (rn_web st3)))" by simp_all
  obtain st4 where st4: "boot ex_cli (ex_boot\<lparr>be_config := Document (dat (w_cfg (rn_web st3))) None\<rparr>) = Running st4"
    using ex_reboot by blast
  have "dat (fst (save IoOk ex_cfg)) = dat ex_cfg" using ex_saved by auto
  then have "holders (w_cfg (rn_web st1)) = holders ex_cfg" by (simp add: holders_def st1(2))
  then have book: "book_ok (w_cfg (rn_web st1))"
    using ex_book_ok by (simp add: book_ok_def addresses_exclusive_def)
  have up: "0 < length (rn_dhcp st1)" "rn_listening st1 ! 0" using st1 by simp_all
  have v1: "serve ex_env (w_cfg (rn_web st1)) (rn_dhcp st1 ! 0) ex_request = Some (c, s0, [(d, b)])"
    using v st1 by simp
  have same: "ip_equal (p_yiaddr p) (want_ip pkt)" using p pkt by (simp add: ip_equal_def)
  have "\<exists>cfg' srv' d' b' p'. handle ex_env (w_cfg (rn_web st4)) (new_server ex_seg) pkt = Some (cfg', srv', [(d', b')]) \<and>
      parse_packet b' = Inr p' \<and> p_message_type p' = ACK \<and> p_yiaddr p' = p_yiaddr p"
    by (rule lease_survives_restart [OF st(1) st1(1) _ book up pkt(1,2) v1 p(1,2) st2 st3 _ s e(2) _ st4
          parse_packet_wf(1) [OF pkt(1)] pkt(2) refl pkt(3) disjI2 [OF same]])
       (use st1 in simp_all)
  then obtain cfg' srv' d' b' p' where
    "handle ex_env (w_cfg (rn_web st4)) (new_server ex_seg) pkt = Some (cfg', srv', [(d', b')])"
    "parse_packet b' = Inr p'" "p_message_type p' = ACK" "p_yiaddr p' = [192, 168, 2, 10]"
    using p(3) by auto
  moreover have "shutdown IoOk st3 = (s, None)" using s e(1) by simp
  ultimately show ?thesis using st(1) st1(1) st2 st3 e(2) st4 pkt(1) by (intro exI conjI)
qed

end
